(* ===== verification/Prelude.thy ===== *)
theory Prelude
  imports Main "HOL-Library.AList" "HOL-Library.Sublist"
begin

text \<open>
  Shared ground of the gateway's verification: the named collections of rewrite rules the
  component proofs use, Go's maps as association lists (a key occurs once; the list order
  stands for the iteration order, which Go leaves open), the functions of Go's packages
  \<open>strings\<close>, \<open>fmt\<close> and \<open>time\<close> the gateway calls, and the lemmas on them
  that several components share.
\<close>

named_theorems go_map \<open>lookups after updates of a Go map\<close>
named_theorems go_str \<open>Go string functions\<close>
named_theorems fault_simps \<open>error chains and status codes\<close>

section \<open>Go maps\<close>

type_synonym ('k, 'v) gomap = "('k \<times> 'v) list"

abbreviation gm_get :: "('k, 'v) gomap \<Rightarrow> 'k \<Rightarrow> 'v option" where
  "gm_get \<equiv> map_of"

abbreviation gm_put :: "'k \<Rightarrow> 'v \<Rightarrow> ('k, 'v) gomap \<Rightarrow> ('k, 'v) gomap" where
  "gm_put \<equiv> AList.update"

abbreviation gm_del :: "'k \<Rightarrow> ('k, 'v) gomap \<Rightarrow> ('k, 'v) gomap" where
  "gm_del \<equiv> AList.delete"

definition gm_ok :: "('k, 'v) gomap \<Rightarrow> bool" where
  "gm_ok m \<longleftrightarrow> distinct (map fst m)"

lemma gm_get_put [simp, go_map]: "gm_get (gm_put k v m) = (gm_get m)(k \<mapsto> v)"
  by (rule update_conv')

lemma gm_get_del [simp, go_map]: "gm_get (gm_del k m) = (gm_get m)(k := None)"
  by (rule delete_conv')

lemma gm_ok_Nil [simp]: "gm_ok []"
  by (simp add: gm_ok_def)

lemma gm_ok_put [simp, intro]: "gm_ok m \<Longrightarrow> gm_ok (gm_put k v m)"
  by (simp add: gm_ok_def distinct_update)

lemma gm_ok_del [simp, intro]: "gm_ok m \<Longrightarrow> gm_ok (gm_del k m)"
  by (simp add: gm_ok_def distinct_delete)

lemma gm_in_iff: "gm_ok m \<Longrightarrow> (k, v) \<in> set m \<longleftrightarrow> gm_get m k = Some v"
  by (auto simp: gm_ok_def intro: map_of_SomeD)

lemma gm_snd_set: "gm_ok m \<Longrightarrow> snd ` set m = ran (gm_get m)"
  unfolding gm_ok_def by (rule ran_distinct [symmetric])

lemma find_SomeD: "find P xs = Some x \<Longrightarrow> x \<in> set xs \<and> P x"
  by (induction xs) (auto split: if_splits)

section \<open>Runs of labelled actions\<close>

text \<open>
  A concurrent component has a step relation and, for concrete runs, a partial function
  that performs one labelled action (None when the action is not enabled).
\<close>

fun run_acts :: "('a \<Rightarrow> 's \<Rightarrow> 's option) \<Rightarrow> 'a list \<Rightarrow> 's \<Rightarrow> 's option" where
  "run_acts f [] s = Some s"
| "run_acts f (a # as) s = (case f a s of None \<Rightarrow> None | Some t \<Rightarrow> run_acts f as t)"

lemma run_acts_invariant:
  assumes "run_acts f as s = Some t" and "P s" and "\<And>a s t. P s \<Longrightarrow> f a s = Some t \<Longrightarrow> P t"
  shows "P t"
  using assms(1,2) by (induction as arbitrary: s) (auto split: option.splits intro: assms(3))

section \<open>Go strings\<close>

definition HasPrefix :: "string \<Rightarrow> string \<Rightarrow> bool" where
  "HasPrefix s p \<longleftrightarrow> take (length p) s = p"

definition HasSuffix :: "string \<Rightarrow> string \<Rightarrow> bool" where
  "HasSuffix s x \<longleftrightarrow> length x \<le> length s \<and> drop (length s - length x) s = x"

text \<open>
  \<open>strings.Cut\<close> splits around the first occurrence of the separator; without one it
  returns the whole string, the empty string and false.
\<close>

fun Cut :: "string \<Rightarrow> string \<Rightarrow> string \<times> string \<times> bool" where
  "Cut s sep =
     (if HasPrefix s sep then ([], drop (length sep) s, True)
      else case s of
        [] \<Rightarrow> ([], [], False)
      | c # cs \<Rightarrow>
          (case Cut cs sep of (b, a, ok) \<Rightarrow> if ok then (c # b, a, True) else (s, [], False)))"

declare Cut.simps [simp del]

text \<open>\<open>strings.Split\<close> with a one-character separator.\<close>

fun Split1 :: "char \<Rightarrow> string \<Rightarrow> string list" where
  "Split1 sep [] = [[]]"
| "Split1 sep (c # cs) =
     (if c = sep then [] # Split1 sep cs
      else case Split1 sep cs of [] \<Rightarrow> [[c]] | w # ws \<Rightarrow> (c # w) # ws)"

text \<open>\<open>strings.TrimRight\<close> with a one-character cutset, \<open>strings.TrimPrefix\<close>.\<close>

fun TrimRight1 :: "char \<Rightarrow> string \<Rightarrow> string" where
  "TrimRight1 x s = rev (dropWhile (\<lambda>c. c = x) (rev s))"

definition TrimPrefix :: "string \<Rightarrow> string \<Rightarrow> string" where
  "TrimPrefix s p = (if HasPrefix s p then drop (length p) s else s)"

definition is_space :: "char \<Rightarrow> bool" where
  "is_space c \<longleftrightarrow> c \<in> {CHR '' '', CHR 0x09, CHR 0x0A, CHR 0x0B, CHR 0x0C, CHR 0x0D}"

definition TrimSpace :: "string \<Rightarrow> string" where
  "TrimSpace s = rev (dropWhile is_space (rev (dropWhile is_space s)))"

definition to_lower :: "char \<Rightarrow> char" where
  "to_lower c = (if 65 \<le> (of_char c :: nat) \<and> (of_char c :: nat) \<le> 90
                 then char_of ((of_char c :: nat) + 32) else c)"

definition ToLower :: "string \<Rightarrow> string" where
  "ToLower s = map to_lower s"

text \<open>Decimal printing: \<open>%d\<close> and \<open>%05d\<close> on a non-negative number.\<close>

fun dec_digits :: "nat \<Rightarrow> string" where
  "dec_digits n = (if n < 10 then [char_of (48 + n)] else dec_digits (n div 10) @ [char_of (48 + n mod 10)])"

declare dec_digits.simps [simp del]

definition pad5 :: "string \<Rightarrow> string" where
  "pad5 s = replicate (5 - length s) CHR ''0'' @ s"

lemma HasPrefix_append [simp, go_str]: "HasPrefix (p @ s) p"
  by (simp add: HasPrefix_def)

lemma HasPrefixE: "HasPrefix s p \<Longrightarrow> (\<And>t. s = p @ t \<Longrightarrow> P) \<Longrightarrow> P"
  by (metis HasPrefix_def append_take_drop_id)

lemma HasSuffix_append [simp, go_str]: "HasSuffix (s @ x) x"
  by (simp add: HasSuffix_def)

lemma HasSuffixE: "HasSuffix s x \<Longrightarrow> (\<And>t. s = t @ x \<Longrightarrow> P) \<Longrightarrow> P"
  by (metis HasSuffix_def append_take_drop_id)

lemma HasSuffix_iff: "HasSuffix s x \<longleftrightarrow> (\<exists>t. s = t @ x)"
  by (auto elim: HasSuffixE)

lemma HasPrefix_iff: "HasPrefix s p \<longleftrightarrow> (\<exists>t. s = p @ t)"
  by (auto elim: HasPrefixE)

text \<open>A successful cut splits the string at the separator.\<close>

lemma Cut_True: "Cut s sep = (b, a, True) \<Longrightarrow> s = b @ sep @ a"
proof (induction s arbitrary: b a)
  case Nil
  then show ?case by (auto simp: Cut.simps [of "[]"] HasPrefix_def split: if_splits)
next
  case (Cons c cs)
  then show ?case
    by (subst (asm) Cut.simps) (auto split: if_splits prod.splits elim!: HasPrefixE)
qed

lemma Cut_False: "Cut s sep = (b, a, False) \<Longrightarrow> b = s \<and> a = []"
  by (subst (asm) Cut.simps) (auto split: if_splits prod.splits list.splits)

text \<open>The separator is found where it is first met: a prefix without its first character is kept.\<close>

lemma Cut_first:
  assumes "c \<notin> set b"
  shows "Cut (b @ (c # sep) @ a) (c # sep) = (b, a, True)"
  using assms
proof (induction b)
  case Nil
  then show ?case by (subst Cut.simps) (simp add: HasPrefix_def)
next
  case (Cons x b)
  then have "\<not> HasPrefix ((x # b) @ (c # sep) @ a) (c # sep)"
    by (auto simp: HasPrefix_def)
  with Cons show ?case by (subst Cut.simps) auto
qed

lemma Cut_notin: "c \<notin> set s \<Longrightarrow> Cut s (c # sep) = (s, [], False)"
proof (induction s)
  case Nil
  then show ?case by (subst Cut.simps) (simp add: HasPrefix_def)
next
  case (Cons x s)
  then have "\<not> HasPrefix (x # s) (c # sep)"
    by (auto simp: HasPrefix_def)
  with Cons show ?case by (subst Cut.simps) auto
qed

lemma Split1_nonempty [simp]: "Split1 sep s \<noteq> []"
  by (induction s) (auto split: list.splits)

lemma Split1_notin: "sep \<notin> set s \<Longrightarrow> Split1 sep s = [s]"
  by (induction s) auto

lemma Split1_append_sep: "Split1 sep (s @ sep # t) = Split1 sep s @ Split1 sep t"
  by (induction s) (auto split: list.splits simp: Cons_eq_append_conv)

lemma dec_digits_nonempty: "dec_digits n \<noteq> []"
  by (subst dec_digits.simps) simp

end
