(* ===== verification/Float64.thy ===== *)
theory Float64
  imports Complex_Main "HOL-Library.Log_Nat" "HOL-Library.Word"
begin

text \<open>
  Go's \<open>float64\<close>: IEEE 754 binary64 values, with the operations the gateway uses
  (conversion from integers, the four arithmetic operations, comparison, \<open>math.Round\<close>,
  conversion to \<open>int64\<close>). Every operation computes the exact rational result and rounds
  it once, to nearest with ties to even; a multiplication followed by an addition is two
  roundings (no fused multiply-add). A conversion to \<open>int64\<close> that does not fit is left
  to the implementation by the language, so it is a parameter here.
\<close>

datatype float64 =
    FNaN
  | FInf bool      \<comment> \<open>True: negative\<close>
  | FZero bool
  | FFin rat       \<comment> \<open>a non-zero finite value\<close>

text \<open>The exponent of the leading binary digit of a positive rational.\<close>

definition ilog2 :: "rat \<Rightarrow> int" where
  "ilog2 q = (case quotient_of q of (a, b) \<Rightarrow>
     let e = bitlen a - bitlen b in if q < 2 powi e then e - 1 else e)"

definition round_half_even :: "rat \<Rightarrow> int" where
  "round_half_even x = (let f = \<lfloor>x\<rfloor>; d = x - of_int f in
     if d < 1 / 2 then f else if 1 / 2 < d then f + 1 else if even f then f else f + 1)"

definition fround :: "bool \<Rightarrow> rat \<Rightarrow> float64" where
  "fround neg a = (if a = 0 then FZero neg else
     let e = max (ilog2 a) (-1022); u = 2 powi (e - 52); r = of_int (round_half_even (a / u)) * u in
     if 2 ^ 1024 \<le> r then FInf neg
     else if r = 0 then FZero neg
     else FFin (if neg then - r else r))"

text \<open>Round an exact value; \<open>z\<close> is the sign of an exact zero.\<close>

definition frnd :: "bool \<Rightarrow> rat \<Rightarrow> float64" where
  "frnd z q = (if q = 0 then FZero z else fround (q < 0) \<bar>q\<bar>)"

definition f_of_int :: "int \<Rightarrow> float64" where
  "f_of_int n = frnd False (of_int n)"

fun f_neg :: "float64 \<Rightarrow> float64" where
  "f_neg FNaN = FNaN"
| "f_neg (FInf s) = FInf (\<not> s)"
| "f_neg (FZero s) = FZero (\<not> s)"
| "f_neg (FFin q) = FFin (- q)"

fun f_is_neg :: "float64 \<Rightarrow> bool" where
  "f_is_neg FNaN = False"
| "f_is_neg (FInf s) = s"
| "f_is_neg (FZero s) = s"
| "f_is_neg (FFin q) = (q < 0)"

fun f_val :: "float64 \<Rightarrow> rat" where
  "f_val (FFin q) = q"
| "f_val _ = 0"

fun f_add :: "float64 \<Rightarrow> float64 \<Rightarrow> float64" where
  "f_add FNaN y = FNaN"
| "f_add x FNaN = FNaN"
| "f_add (FInf s) (FInf t) = (if s = t then FInf s else FNaN)"
| "f_add (FInf s) y = FInf s"
| "f_add x (FInf t) = FInf t"
| "f_add (FZero s) (FZero t) = FZero (s \<and> t)"
| "f_add x y = frnd False (f_val x + f_val y)"

definition f_sub :: "float64 \<Rightarrow> float64 \<Rightarrow> float64" where
  "f_sub x y = f_add x (f_neg y)"

fun f_is_zero :: "float64 \<Rightarrow> bool" where
  "f_is_zero (FZero _) = True"
| "f_is_zero _ = False"

fun f_is_inf :: "float64 \<Rightarrow> bool" where
  "f_is_inf (FInf _) = True"
| "f_is_inf _ = False"

definition f_mul :: "float64 \<Rightarrow> float64 \<Rightarrow> float64" where
  "f_mul x y = (let s = (f_is_neg x \<noteq> f_is_neg y) in
     if x = FNaN \<or> y = FNaN then FNaN
     else if f_is_inf x \<or> f_is_inf y then (if f_is_zero x \<or> f_is_zero y then FNaN else FInf s)
     else frnd s (f_val x * f_val y))"

definition f_div :: "float64 \<Rightarrow> float64 \<Rightarrow> float64" where
  "f_div x y = (let s = (f_is_neg x \<noteq> f_is_neg y) in
     if x = FNaN \<or> y = FNaN then FNaN
     else if f_is_inf x then (if f_is_inf y then FNaN else FInf s)
     else if f_is_inf y then FZero s
     else if f_is_zero y then (if f_is_zero x then FNaN else FInf s)
     else frnd s (f_val x / f_val y))"

text \<open>Comparison: nothing compares with NaN, the two zeros are equal.\<close>

definition f_less :: "float64 \<Rightarrow> float64 \<Rightarrow> bool" where
  "f_less x y \<longleftrightarrow> x \<noteq> FNaN \<and> y \<noteq> FNaN \<and>
     (if f_is_inf x then f_is_neg x \<and> y \<noteq> x
      else if f_is_inf y then \<not> f_is_neg y
      else f_val x < f_val y)"

definition f_eq :: "float64 \<Rightarrow> float64 \<Rightarrow> bool" where
  "f_eq x y \<longleftrightarrow> x \<noteq> FNaN \<and> y \<noteq> FNaN \<and> (x = y \<or> f_is_zero x \<and> f_is_zero y)"

text \<open>\<open>math.Round\<close>: to the nearest integer, halves away from zero, special values unchanged.\<close>

definition round_half_away :: "rat \<Rightarrow> int" where
  "round_half_away q = (if q < 0 then - \<lfloor>- q + 1 / 2\<rfloor> else \<lfloor>q + 1 / 2\<rfloor>)"

fun f_Round :: "float64 \<Rightarrow> float64" where
  "f_Round (FFin q) = (if round_half_away q = 0 then FZero (q < 0) else FFin (of_int (round_half_away q)))"
| "f_Round x = x"

definition trunc_rat :: "rat \<Rightarrow> int" where
  "trunc_rat q = (if q < 0 then - \<lfloor>- q\<rfloor> else \<lfloor>q\<rfloor>)"

text \<open>
  \<open>int64(x)\<close>: truncation when the result fits, \<open>conv x\<close>, the implementation's choice,
  otherwise.
\<close>

definition f_to_int64 :: "(float64 \<Rightarrow> 64 word) \<Rightarrow> float64 \<Rightarrow> 64 word" where
  "f_to_int64 conv x = (case x of
     FZero _ \<Rightarrow> 0
   | FFin q \<Rightarrow> (if - (2 ^ 63) \<le> trunc_rat q \<and> trunc_rat q < 2 ^ 63 then of_int (trunc_rat q) else conv x)
   | _ \<Rightarrow> conv x)"

section \<open>Integers up to 53 bits are exact\<close>

lemma bitlen_bounds_rat:
  assumes "0 < a"
  shows "(2::rat) powi (bitlen a - 1) \<le> of_int a" and "of_int a < (2::rat) powi bitlen a"
proof -
  from assms have l: "2 ^ nat (bitlen a - 1) \<le> a" and u: "a < 2 ^ nat (bitlen a)"
    using bitlen_bounds [of a] by auto
  from assms have pos: "1 \<le> bitlen a"
    by (simp add: bitlen_def floorlog_def)
  have "(2::rat) powi (bitlen a - 1) = 2 ^ nat (bitlen a - 1)"
    using pos by (simp add: power_int_def)
  also have "\<dots> = of_int (2 ^ nat (bitlen a - 1))"
    by simp
  also have "\<dots> \<le> of_int a"
    using l by (simp only: of_int_le_iff)
  finally show "(2::rat) powi (bitlen a - 1) \<le> of_int a" .
  have "(of_int a :: rat) < of_int (2 ^ nat (bitlen a))"
    using u by (simp only: of_int_less_iff)
  also have "\<dots> = 2 powi bitlen a"
    using pos by (simp add: power_int_def)
  finally show "of_int a < (2::rat) powi bitlen a" .
qed

lemma ilog2_bounds:
  assumes "0 < q"
  shows "(2::rat) powi ilog2 q \<le> q" and "q < 2 powi (ilog2 q + 1)"
proof -
  obtain a b where ab: "quotient_of q = (a, b)"
    by (cases "quotient_of q")
  have b: "0 < b" and q: "q = of_int a / of_int b"
    using ab by (simp_all add: quotient_of_denom_pos quotient_of_div)
  with assms have a: "0 < a"
    by (simp add: zero_less_divide_iff)
  define e where "e = bitlen a - bitlen b"
  have lo: "(2::rat) powi (e - 1) \<le> q"
  proof -
    have "(2::rat) powi (e - 1) * of_int b \<le> 2 powi (e - 1) * 2 powi bitlen b"
      using bitlen_bounds_rat(2) [OF b] by (intro mult_left_mono) auto
    also have "\<dots> = 2 powi (bitlen a - 1)"
      by (simp add: e_def flip: power_int_add)
    also have "\<dots> \<le> of_int a"
      by (rule bitlen_bounds_rat(1) [OF a])
    finally show ?thesis
      using b by (simp add: q pos_le_divide_eq)
  qed
  have hi: "q < 2 powi (e + 1)"
  proof -
    have "of_int a < (2::rat) powi bitlen a"
      by (rule bitlen_bounds_rat(2) [OF a])
    also have "\<dots> = 2 powi (e + 1) * 2 powi (bitlen b - 1)"
      by (simp add: e_def flip: power_int_add)
    also have "\<dots> \<le> 2 powi (e + 1) * of_int b"
      using bitlen_bounds_rat(1) [OF b] by (intro mult_left_mono) auto
    finally show ?thesis
      using b by (simp add: q pos_divide_less_eq)
  qed
  have il: "ilog2 q = (if q < 2 powi e then e - 1 else e)"
    by (simp add: ilog2_def ab e_def Let_def)
  show "(2::rat) powi ilog2 q \<le> q" and "q < 2 powi (ilog2 q + 1)"
    using lo hi by (auto simp: il not_less)
qed

lemma round_half_even_int [simp]: "round_half_even (of_int n) = n"
  by (simp add: round_half_even_def)

text \<open>A value that is an integer multiple of its unit in the last place is not rounded.\<close>

lemma fround_exact:
  assumes "0 < a" and "-1022 \<le> ilog2 a" and "a = of_int m * 2 powi (ilog2 a - 52)" and "a < 2 ^ 1024"
  shows "fround neg a = FFin (if neg then - a else a)"
proof -
  let ?u = "(2::rat) powi (ilog2 a - 52)"
  have "a / ?u = of_int m"
    by (subst (1) assms(3)) simp
  then have "of_int (round_half_even (a / ?u)) * ?u = a"
    using assms(3) by simp
  with assms show ?thesis
    by (simp add: fround_def Let_def max_absorb1)
qed

lemma f_of_int_exact:
  assumes "n \<noteq> 0" and "\<bar>n\<bar> \<le> 2 ^ 53"
  shows "f_of_int n = FFin (of_int n)"
proof -
  define a :: rat where "a = \<bar>of_int n\<bar>"
  have a1: "1 \<le> a"
    using assms(1) by (simp add: a_def flip: of_int_abs)
  then have a0: "0 < a" by simp
  have amax: "a \<le> 2 powi 53"
    using assms(2) unfolding a_def
    by (metis of_int_abs of_int_le_iff of_int_numeral of_int_power power_int_numeral)
  note lo = ilog2_bounds(1) [OF a0] and hi = ilog2_bounds(2) [OF a0]
  have e0: "0 \<le> ilog2 a"
  proof (rule ccontr)
    assume "\<not> 0 \<le> ilog2 a"
    then have "(2::rat) powi (ilog2 a + 1) \<le> 2 powi 0"
      by (intro power_int_increasing) auto
    with hi a1 show False by simp
  qed
  have e53: "ilog2 a \<le> 53"
  proof (rule ccontr)
    assume "\<not> ilog2 a \<le> 53"
    then have "(2::rat) powi 54 \<le> 2 powi ilog2 a"
      by (intro power_int_increasing) auto
    with lo amax show False by simp
  qed
  have mult: "\<exists>m. a = of_int m * 2 powi (ilog2 a - 52)"
  proof (cases "ilog2 a = 53")
    case True
    with lo amax have "a = 2 powi 53" by simp
    with True show ?thesis
      by (intro exI [of _ "2 ^ 52"]) simp
  next
    case False
    with e53 have le: "ilog2 a \<le> 52" by simp
    have "a = of_int (\<bar>n\<bar> * 2 ^ nat (52 - ilog2 a)) * 2 powi (ilog2 a - 52)"
      using le by (simp add: a_def power_int_def flip: power_mult_distrib)
    then show ?thesis by blast
  qed
  then obtain m where m: "a = of_int m * 2 powi (ilog2 a - 52)" ..
  have "a < 2 ^ 1024"
    using amax by (rule order.strict_trans1) simp
  with m e0 a0 have "fround (n < 0) a = FFin (if n < 0 then - a else a)"
    by (intro fround_exact) auto
  with assms(1) show ?thesis
    by (auto simp: f_of_int_def frnd_def a_def abs_if split: if_splits)
qed

text \<open>The first integer that does not survive the conversion.\<close>

lemma f_of_int_rounds: "f_of_int 9007199254740993 = FFin 9007199254740992"
  by code_simp

lemma f_of_int_0 [simp]: "f_of_int 0 = FZero False"
  by (simp add: f_of_int_def frnd_def)

end
