(* ===== verification/Api_Types.thy ===== *)
theory Api_Types
  imports Prelude Float64
begin

text \<open>
  The domain types of \<open>internal/api/types.go\<close> (devices, ACL entries, property values,
  property updates), the constructors of \<open>internal/api/property.go\<close>, and errors. A Go
  error is modelled by the chain of sentinels \<open>errors.Is\<close> and \<open>errors.As\<close> find
  in it; its message text is not modelled. A gRPC status error is its code. Instants are
  nanoseconds since Go's zero time (year 1), so \<open>IsZero\<close> is equality with 0, and
  durations are nanoseconds.
\<close>

section \<open>Errors and status codes\<close>

datatype reg_sentinel = RegErrNotFound | RegErrAlreadyExists

datatype cap_sentinel =
    CapErrNotFound | CapErrAlreadyExists | CapErrInvalidSchema
  | CapErrPropertyNotDeclared | CapErrInvalidPropertyValue

datatype mqtt_sentinel = ErrInvalidTopicSegment | ErrCircuitOpen | ErrUnsupportedVersion

datatype can_sentinel =
    CanErrUnknownMessage | CanErrUnknownSignal | CanErrMissingLabel | CanErrNoFrameYet
  | CanErrNotOpen | CanErrLinuxOnly | CanErrReadTimeout

datatype adapter_sentinel = ErrWriteNotSupported | AdErrNotFound | AdErrInvalidArgument

datatype link =
    RegE reg_sentinel
  | CapE cap_sentinel
  | MqttE mqtt_sentinel
  | CanE can_sentinel
  | AdapterE adapter_sentinel
  | HttpStatusE int        \<comment> \<open>\<open>*httpadapter.StatusError\<close> with its status code\<close>
  | DeviceNotConnectedE
  | KeyNotFoundE
  | DeadlineExceededE
  | CanceledE
  | EOFE

datatype fault = Fault (chain: "link list")

abbreviation opaque_fault :: fault where
  "opaque_fault \<equiv> Fault []"

definition errors_Is :: "fault \<Rightarrow> link \<Rightarrow> bool" where
  "errors_Is e l \<longleftrightarrow> l \<in> set (chain e)"

fun first_http_status :: "link list \<Rightarrow> int option" where
  "first_http_status [] = None"
| "first_http_status (HttpStatusE n # ls) = Some n"
| "first_http_status (l # ls) = first_http_status ls"

text \<open>\<open>errors.As(err, &se)\<close> for a \<open>*httpadapter.StatusError\<close>: the first one in the chain.\<close>

definition errors_As_StatusError :: "fault \<Rightarrow> int option" where
  "errors_As_StatusError e = first_http_status (chain e)"

datatype code =
    CodeInvalidArgument | CodeDeadlineExceeded | CodeNotFound | CodeAlreadyExists
  | CodePermissionDenied | CodeResourceExhausted | CodeFailedPrecondition
  | CodeUnimplemented | CodeInternal | CodeUnavailable | CodeUnauthenticated
  | CodeCanceled | CodeUnknown

lemma errors_Is_Fault [simp, fault_simps]: "errors_Is (Fault ls) l \<longleftrightarrow> l \<in> set ls"
  by (simp add: errors_Is_def)

lemma errors_As_Fault [simp, fault_simps]: "errors_As_StatusError (Fault ls) = first_http_status ls"
  by (simp add: errors_As_StatusError_def)

lemma first_http_status_None:
  "first_http_status ls = None \<longleftrightarrow> (\<forall>n. HttpStatusE n \<notin> set ls)"
  by (induction ls rule: first_http_status.induct) auto

section \<open>Time\<close>

type_synonym time = int
type_synonym duration = int

definition second :: duration where
  "second = 1000000000"

definition minDuration :: duration where
  "minDuration = - (2 ^ 63)"

definition maxDuration :: duration where
  "maxDuration = 2 ^ 63 - 1"

text \<open>\<open>Time.Sub\<close> saturates at the smallest and largest duration.\<close>

definition time_Sub :: "time \<Rightarrow> time \<Rightarrow> duration" where
  "time_Sub t u = max minDuration (min maxDuration (t - u))"

lemma time_Sub_less_iff:
  "minDuration < d \<Longrightarrow> d \<le> maxDuration \<Longrightarrow> time_Sub t u < d \<longleftrightarrow> t - u < d"
  by (auto simp: time_Sub_def max_def min_def)

lemma time_Sub_mono: "t \<le> t' \<Longrightarrow> time_Sub t u \<le> time_Sub t' u"
  by (auto simp: time_Sub_def max_def min_def)

section \<open>Domain types\<close>

type_synonym byte = "8 word"
type_synonym int64 = "64 word"

text \<open>The conversions \<open>[]byte(s)\<close> and \<open>string(b)\<close>.\<close>

definition str_bytes :: "string \<Rightarrow> byte list" where
  "str_bytes s = map (\<lambda>c. of_nat (of_char c)) s"

definition bytes_str :: "byte list \<Rightarrow> string" where
  "bytes_str b = map (\<lambda>x. char_of (unat x)) b"

lemma bytes_str_bytes [simp]: "bytes_str (str_bytes s) = s"
proof -
  have "char_of (unat (of_nat (of_char c) :: byte)) = c" for c :: char
    by (simp add: unat_of_nat)
  then show ?thesis by (simp add: bytes_str_def str_bytes_def comp_def)
qed

lemma str_bytes_inj: "str_bytes s = str_bytes t \<longleftrightarrow> s = t"
  by (metis bytes_str_bytes)

lemma str_bytes_Nil [simp]: "str_bytes s = [] \<longleftrightarrow> s = []"
  by (simp add: str_bytes_def)

datatype DeviceStatus = DeviceStatusUnknown | DeviceStatusOnline | DeviceStatusOffline

fun DeviceStatus_String :: "DeviceStatus \<Rightarrow> string" where
  "DeviceStatus_String DeviceStatusOnline = ''online''"
| "DeviceStatus_String DeviceStatusOffline = ''offline''"
| "DeviceStatus_String DeviceStatusUnknown = ''unknown''"

record ACLEntry =
  acl_Subject :: string
  acl_Allow :: bool

record Device =
  dev_ID :: string
  dev_Name :: string
  dev_Capability :: string
  dev_Transport :: string
  dev_Status :: DeviceStatus
  dev_LastSeen :: time
  dev_Labels :: "(string, string) gomap option"  \<comment> \<open>None is the nil map\<close>
  dev_ACL :: "ACLEntry list"

text \<open>The zero value \<open>api.Device{}\<close>.\<close>

definition zero_Device :: Device where
  "zero_Device = \<lparr>dev_ID = [], dev_Name = [], dev_Capability = [], dev_Transport = [],
     dev_Status = DeviceStatusUnknown, dev_LastSeen = 0, dev_Labels = None, dev_ACL = []\<rparr>"

text \<open>\<open>d.Labels[k]\<close>: the zero value \<open>""\<close> for a missing key or a nil map.\<close>

definition label_lookup :: "Device \<Rightarrow> string \<Rightarrow> string option" where
  "label_lookup d k = (case dev_Labels d of None \<Rightarrow> None | Some m \<Rightarrow> gm_get m k)"

definition label_at :: "Device \<Rightarrow> string \<Rightarrow> string" where
  "label_at d k = (case label_lookup d k of None \<Rightarrow> [] | Some v \<Rightarrow> v)"

text \<open>
  A property value: a struct of pointers and slices, of which exactly one should be set.
  A nil pointer or slice is None.
\<close>

record PropertyValue =
  pv_Bool :: "bool option"
  pv_Int :: "int64 option"
  pv_Float :: "float64 option"
  pv_String :: "string option"
  pv_Bytes :: "byte list option"
  pv_JSON :: "byte list option"

definition zero_PropertyValue :: PropertyValue where
  "zero_PropertyValue = \<lparr>pv_Bool = None, pv_Int = None, pv_Float = None, pv_String = None,
     pv_Bytes = None, pv_JSON = None\<rparr>"

definition FloatValue :: "float64 \<Rightarrow> PropertyValue" where
  "FloatValue f = zero_PropertyValue\<lparr>pv_Float := Some f\<rparr>"

definition IntValue :: "int64 \<Rightarrow> PropertyValue" where
  "IntValue i = zero_PropertyValue\<lparr>pv_Int := Some i\<rparr>"

definition BoolValue :: "bool \<Rightarrow> PropertyValue" where
  "BoolValue b = zero_PropertyValue\<lparr>pv_Bool := Some b\<rparr>"

definition StringValue :: "string \<Rightarrow> PropertyValue" where
  "StringValue s = zero_PropertyValue\<lparr>pv_String := Some s\<rparr>"

definition BytesValue :: "byte list \<Rightarrow> PropertyValue" where
  "BytesValue b = zero_PropertyValue\<lparr>pv_Bytes := Some b\<rparr>"

lemmas value_ctor_defs = FloatValue_def IntValue_def BoolValue_def StringValue_def BytesValue_def
  zero_PropertyValue_def

record PropertyUpdate =
  upd_DeviceID :: string
  upd_PropertyPath :: string
  upd_Value :: PropertyValue
  upd_Timestamp :: time
  upd_Status :: "DeviceStatus option"

text \<open>An update of one property, and a status event (its path and value unset).\<close>

definition property_event :: "string \<Rightarrow> string \<Rightarrow> PropertyValue \<Rightarrow> time \<Rightarrow> PropertyUpdate" where
  "property_event d p v t = \<lparr>upd_DeviceID = d, upd_PropertyPath = p, upd_Value = v,
     upd_Timestamp = t, upd_Status = None\<rparr>"

definition status_event :: "string \<Rightarrow> DeviceStatus \<Rightarrow> time \<Rightarrow> PropertyUpdate" where
  "status_event d s t = \<lparr>upd_DeviceID = d, upd_PropertyPath = [], upd_Value = zero_PropertyValue,
     upd_Timestamp = t, upd_Status = Some s\<rparr>"

end
