(* ===== verification/Property_Store.thy ===== *)
theory Property_Store
  imports Api_Types
begin

text \<open>
  The in-memory property store (\<open>internal/api/property.go\<close>), used for every device
  whose transport has no adapter, and the reference third-party transport
  (\<open>examples/adapters/echo/echo.go\<close>), which keeps its values the same way. Both key
  their map with the device ID and the path joined by a slash. The locale
  \<open>value_store\<close> is the contract a reader and a writer of properties rely on; both
  stores meet it for device IDs without a slash, and \<open>key_collision\<close> shows that they
  do not meet it beyond.
\<close>

section \<open>The stores\<close>

record MemoryPropertyStore =
  mps_data :: "string \<rightharpoonup> PropertyValue"

definition NewMemoryPropertyStore :: MemoryPropertyStore where
  "NewMemoryPropertyStore = \<lparr>mps_data = Map.empty\<rparr>"

definition mps_key :: "string \<Rightarrow> string \<Rightarrow> string" where
  "mps_key deviceID propertyPath = deviceID @ ''/'' @ propertyPath"

definition mps_Get :: "MemoryPropertyStore \<Rightarrow> string \<Rightarrow> string \<Rightarrow> fault + PropertyValue" where
  "mps_Get s deviceID propertyPath =
     (case mps_data s (mps_key deviceID propertyPath) of
        None \<Rightarrow> Inl opaque_fault
      | Some v \<Rightarrow> Inr v)"

definition mps_Set :: "MemoryPropertyStore \<Rightarrow> string \<Rightarrow> string \<Rightarrow> PropertyValue \<Rightarrow> MemoryPropertyStore" where
  "mps_Set s deviceID propertyPath v =
     s\<lparr>mps_data := (mps_data s)(mps_key deviceID propertyPath \<mapsto> v)\<rparr>"

record EchoAdapter =
  echo_data :: "string \<rightharpoonup> PropertyValue"

definition echo_Name :: string where
  "echo_Name = ''echo''"

definition echo_New :: EchoAdapter where
  "echo_New = \<lparr>echo_data = Map.empty\<rparr>"

definition echo_key :: "string \<Rightarrow> string \<Rightarrow> string" where
  "echo_key deviceID path = deviceID @ ''/'' @ path"

definition echo_ReadProperty :: "EchoAdapter \<Rightarrow> Device \<Rightarrow> string \<Rightarrow> fault + PropertyValue" where
  "echo_ReadProperty a d path =
     (case echo_data a (echo_key (dev_ID d) path) of
        None \<Rightarrow> Inl opaque_fault
      | Some v \<Rightarrow> Inr v)"

definition echo_WriteProperty ::
    "EchoAdapter \<Rightarrow> Device \<Rightarrow> string \<Rightarrow> PropertyValue \<Rightarrow> EchoAdapter \<times> fault option" where
  "echo_WriteProperty a d path v =
     (a\<lparr>echo_data := (echo_data a)(echo_key (dev_ID d) path \<mapsto> v)\<rparr>, None)"

definition echo_WatchDevice :: "EchoAdapter \<Rightarrow> Device \<Rightarrow> EchoAdapter \<times> fault option" where
  "echo_WatchDevice a d = (a, None)"

section \<open>The contract of a value store\<close>

text \<open>
  \<open>rd s k p\<close> reads path \<open>p\<close> of the device \<open>k\<close> and \<open>wr s k p v\<close> writes it;
  \<open>good k\<close> are the devices for which different (device, path) pairs do not interfere.
\<close>

locale value_store =
  fixes rd :: "'s \<Rightarrow> 'k \<Rightarrow> string \<Rightarrow> fault + PropertyValue"
    and wr :: "'s \<Rightarrow> 'k \<Rightarrow> string \<Rightarrow> PropertyValue \<Rightarrow> 's"
    and ident :: "'k \<Rightarrow> string"
    and good :: "'k \<Rightarrow> bool"
  assumes rd_wr_same: "ident k = ident k' \<Longrightarrow> rd (wr s k p v) k' p = Inr v"
    and rd_wr_other: "good k \<Longrightarrow> good k' \<Longrightarrow> (ident k, p) \<noteq> (ident k', p') \<Longrightarrow>
          rd (wr s k p v) k' p' = rd s k' p'"
begin

text \<open>A run of writes, the later ones to the right.\<close>

definition wr_all :: "'s \<Rightarrow> ('k \<times> string \<times> PropertyValue) list \<Rightarrow> 's" where
  "wr_all s ws = foldl (\<lambda>s (k, p, v). wr s k p v) s ws"

definition last_write :: "('k \<times> string \<times> PropertyValue) list \<Rightarrow> string \<Rightarrow> string \<Rightarrow> PropertyValue option" where
  "last_write ws i p = map_of (rev (map (\<lambda>(k, p, v). ((ident k, p), v)) ws)) (i, p)"

lemma rd_wr_all:
  assumes "good k" and "\<forall>(k', p', v') \<in> set ws. good k'"
  shows "rd (wr_all s ws) k p = (case last_write ws (ident k) p of None \<Rightarrow> rd s k p | Some v \<Rightarrow> Inr v)"
  using assms(2)
proof (induction ws arbitrary: s rule: rev_induct)
  case Nil
  then show ?case by (simp add: wr_all_def last_write_def)
next
  case (snoc w ws)
  obtain k' p' v' where w: "w = (k', p', v')"
    by (cases w)
  from snoc.prems w have g: "good k'" by simp
  have IH: "rd (wr_all s ws) k p = (case last_write ws (ident k) p of None \<Rightarrow> rd s k p | Some v \<Rightarrow> Inr v)"
    using snoc by auto
  show ?case
  proof (cases "ident k' = ident k \<and> p' = p")
    case True
    with w show ?thesis
      by (simp add: wr_all_def last_write_def rd_wr_same)
  next
    case False
    then have "rd (wr (wr_all s ws) k' p' v') k p = rd (wr_all s ws) k p"
      using g assms(1) by (intro rd_wr_other) auto
    with False IH w show ?thesis
      by (auto simp: wr_all_def last_write_def)
  qed
qed

end

definition plain_id :: "string \<Rightarrow> bool" where
  "plain_id s \<longleftrightarrow> CHR ''/'' \<notin> set s"

text \<open>Joining with a slash is injective when the first part has none.\<close>

lemma slash_join_inj:
  assumes "plain_id d" and "plain_id d'" and "d @ ''/'' @ p = d' @ ''/'' @ p'"
  shows "d = d' \<and> p = p'"
proof -
  have "Cut (d @ ''/'' @ p) ''/'' = (d, p, True)" and "Cut (d' @ ''/'' @ p') ''/'' = (d', p', True)"
    using assms(1,2) Cut_first [of "CHR ''/''" _ "[]"] by (auto simp: plain_id_def)
  with assms(3) show ?thesis by simp
qed

lemma mps_key_eq_iff: "plain_id d \<Longrightarrow> plain_id d' \<Longrightarrow> mps_key d p = mps_key d' p' \<longleftrightarrow> d = d' \<and> p = p'"
  unfolding mps_key_def by (metis slash_join_inj)

lemma echo_key_mps_key: "echo_key = mps_key"
  by (intro ext) (simp add: echo_key_def mps_key_def)

interpretation mps: value_store mps_Get mps_Set "\<lambda>d. d" plain_id
  by unfold_locales (auto simp: mps_Get_def mps_Set_def mps_key_eq_iff)

interpretation echo: value_store echo_ReadProperty "\<lambda>a d p v. fst (echo_WriteProperty a d p v)" dev_ID
    "\<lambda>d. plain_id (dev_ID d)"
  by unfold_locales (auto simp: echo_ReadProperty_def echo_WriteProperty_def echo_key_mps_key mps_key_eq_iff)


section \<open>Properties\<close>

text \<open>Reading a property after any run of writes gives the value last written to that
  device and path, and the earlier content when none of the writes was to it, for device IDs without a slash.\<close>

theorem property_last_write_wins:
  assumes "plain_id d" and "\<forall>(d', p', v') \<in> set ws. plain_id d'"
  shows "mps_Get (foldl (\<lambda>s (d, p, v). mps_Set s d p v) s ws) d p =
     (case map_of (rev (map (\<lambda>(d, p, v). ((d, p), v)) ws)) (d, p) of None \<Rightarrow> mps_Get s d p | Some v \<Rightarrow> Inr v)"
  using mps.rd_wr_all [OF assms] by (simp add: mps.wr_all_def mps.last_write_def)

theorem property_last_write_wins_witness:
  "mps_Get (foldl (\<lambda>s (d, p, v). mps_Set s d p v) NewMemoryPropertyStore
      [(''d'', ''t'', IntValue 1), (''d'', ''t'', IntValue 2), (''e'', ''t'', IntValue 3)]) ''d'' ''t'' = Inr (IntValue 2)"
proof -
  have "plain_id ''d''"
    and "\<forall>(d', p', v') \<in> set [(''d'', ''t'', IntValue 1), (''d'', ''t'', IntValue 2), (''e'', ''t'', IntValue 3)]. plain_id d'"
    by (simp_all add: plain_id_def)
  from property_last_write_wins [OF this, of NewMemoryPropertyStore "''t''"] show ?thesis
    by simp
qed

text \<open>The joined key is ambiguous when a device ID holds a slash: a write to path
  \<open>c\<close> of device \<open>a/b\<close> overwrites path \<open>b/c\<close> of device \<open>a\<close>, in the property store and in the
  echo transport alike.\<close>

theorem key_collision:
  "mps_Get (mps_Set (mps_Set s ''a'' ''b/c'' v) ''a/b'' ''c'' w) ''a'' ''b/c'' = Inr w \<and>
   echo_ReadProperty (fst (echo_WriteProperty a (zero_Device\<lparr>dev_ID := ''a/b''\<rparr>) ''c'' w))
     (zero_Device\<lparr>dev_ID := ''a''\<rparr>) ''b/c'' = Inr w"
  by (simp add: mps_Get_def mps_Set_def mps_key_def echo_ReadProperty_def echo_WriteProperty_def echo_key_def)

end
