(* ===== verification/Channels.thy ===== *)
theory Channels
  imports Api_Types
begin

text \<open>
  Go channels as the broker and the command router use them: a buffer and whether the
  channel is closed. Sending on a closed channel and closing it twice panic, which is the
  absence of a result (None).
\<close>

record 'a chan =
  ch_buf :: "'a list"
  ch_closed :: bool

definition make_chan :: "'a chan" where
  "make_chan = \<lparr>ch_buf = [], ch_closed = False\<rparr>"

text \<open>\<open>select { case c <- x: default: }\<close> on a channel of the given capacity.\<close>

definition try_send :: "nat \<Rightarrow> 'a \<Rightarrow> 'a chan \<Rightarrow> 'a chan option" where
  "try_send cap x c =
     (if ch_closed c then None
      else if length (ch_buf c) < cap then Some (c\<lparr>ch_buf := ch_buf c @ [x]\<rparr>)
      else Some c)"

definition close_chan :: "'a chan \<Rightarrow> 'a chan option" where
  "close_chan c = (if ch_closed c then None else Some (c\<lparr>ch_closed := True\<rparr>))"

text \<open>
  A send that would block on a full buffer is not enabled; \<open>send_chan\<close> is its effect when
  it is, None when it panics.
\<close>

definition can_send :: "nat \<Rightarrow> 'a chan \<Rightarrow> bool" where
  "can_send cap c \<longleftrightarrow> ch_closed c \<or> length (ch_buf c) < cap"

definition send_chan :: "'a \<Rightarrow> 'a chan \<Rightarrow> 'a chan option" where
  "send_chan x c = (if ch_closed c then None else Some (c\<lparr>ch_buf := ch_buf c @ [x]\<rparr>))"

text \<open>A receive takes the oldest buffered element.\<close>

definition recv_chan :: "'a chan \<Rightarrow> ('a \<times> 'a chan) option" where
  "recv_chan c = (case ch_buf c of [] \<Rightarrow> None | x # xs \<Rightarrow> Some (x, c\<lparr>ch_buf := xs\<rparr>))"

lemma recv_chan_Some: "recv_chan c = Some (x, c') \<longleftrightarrow> (\<exists>xs. ch_buf c = x # xs \<and> c' = c\<lparr>ch_buf := xs\<rparr>)"
  by (auto simp: recv_chan_def split: list.splits)

lemma send_chan_Some: "send_chan x c = Some c' \<longleftrightarrow> \<not> ch_closed c \<and> c' = c\<lparr>ch_buf := ch_buf c @ [x]\<rparr>"
  by (auto simp: send_chan_def)

lemma close_chan_Some: "close_chan c = Some c' \<longleftrightarrow> \<not> ch_closed c \<and> c' = c\<lparr>ch_closed := True\<rparr>"
  by (auto simp: close_chan_def)

section \<open>Fan-out\<close>

text \<open>A non-blocking send to each channel of a list, over a store of channels.\<close>

fun send_each :: "nat \<Rightarrow> 'a \<Rightarrow> nat list \<Rightarrow> (nat \<Rightarrow> 'a chan) \<Rightarrow> (nat \<Rightarrow> 'a chan) option" where
  "send_each cap u [] h = Some h"
| "send_each cap u (c # cs) h =
     (case try_send cap u (h c) of
        None \<Rightarrow> None
      | Some ch \<Rightarrow> send_each cap u cs (h(c := ch)))"

definition offer_chan :: "nat \<Rightarrow> 'a \<Rightarrow> 'a chan \<Rightarrow> 'a chan" where
  "offer_chan cap u c = (if length (ch_buf c) < cap then c\<lparr>ch_buf := ch_buf c @ [u]\<rparr> else c)"

text \<open>Over distinct open channels the fan-out does not panic and appends where there is room.\<close>

lemma send_each_open:
  assumes "distinct cs" and "\<forall>c \<in> set cs. \<not> ch_closed (h c)"
  shows "send_each cap u cs h = Some (\<lambda>c. if c \<in> set cs then offer_chan cap u (h c) else h c)"
  using assms
proof (induction cs arbitrary: h)
  case Nil
  then show ?case by simp
next
  case (Cons c cs)
  let ?h = "h(c := offer_chan cap u (h c))"
  have "send_each cap u cs ?h = Some (\<lambda>x. if x \<in> set cs then offer_chan cap u (?h x) else ?h x)"
    using Cons.prems by (intro Cons.IH) auto
  moreover have "try_send cap u (h c) = Some (offer_chan cap u (h c))"
    using Cons.prems by (simp add: try_send_def offer_chan_def)
  ultimately show ?case
    using Cons.prems by (auto simp: fun_eq_iff)
qed

lemma offer_chan_closed [simp]: "ch_closed (offer_chan cap u c) = ch_closed c"
  by (simp add: offer_chan_def)

end
