(* ===== verification/Broker.thy ===== *)
theory Broker
  imports Channels
begin

text \<open>
  The update broker (\<open>internal/api/broker.go\<close>): a set of buffered channels per device,
  \<open>Publish\<close> sends without blocking to each of them under the mutex. Channels live in a
  store indexed by their identity. An operation that would panic (a send on a closed channel, a second close) has no result
  (None). The step relation \<open>broker_step\<close> interleaves the operations of any number of
  goroutines (each runs under the mutex, so operations are atomic), and records what was
  published to and received from each channel.
\<close>

section \<open>The broker\<close>

definition subscriberBuffer :: nat where
  "subscriberBuffer = 32"

record Broker =
  br_subs :: "string \<rightharpoonup> nat list"      \<comment> \<open>device ID to the set of its channels\<close>
  br_chans :: "nat \<Rightarrow> PropertyUpdate chan"
  br_next :: nat                        \<comment> \<open>the next channel to be made\<close>

definition NewBroker :: Broker where
  "NewBroker = \<lparr>br_subs = Map.empty, br_chans = (\<lambda>_. make_chan), br_next = 0\<rparr>"

definition br_Subscribe :: "Broker \<Rightarrow> string \<Rightarrow> nat \<times> Broker" where
  "br_Subscribe b deviceID =
     (let c = br_next b;
          old = (case br_subs b deviceID of None \<Rightarrow> [] | Some cs \<Rightarrow> cs)
      in (c, b\<lparr>br_subs := (br_subs b)(deviceID \<mapsto> old @ [c]),
               br_chans := (br_chans b)(c := make_chan),
               br_next := Suc c\<rparr>))"

definition br_unsubscribe :: "Broker \<Rightarrow> string \<Rightarrow> nat \<Rightarrow> Broker option" where
  "br_unsubscribe b deviceID c =
     (let rest = (case br_subs b deviceID of None \<Rightarrow> [] | Some cs \<Rightarrow> removeAll c cs);
          subs = (if rest = [] then (br_subs b)(deviceID := None) else (br_subs b)(deviceID \<mapsto> rest))
      in case close_chan (br_chans b c) of
           None \<Rightarrow> None
         | Some ch \<Rightarrow> Some (b\<lparr>br_subs := subs, br_chans := (br_chans b)(c := ch)\<rparr>))"

definition send_all :: "PropertyUpdate \<Rightarrow> nat list \<Rightarrow> (nat \<Rightarrow> PropertyUpdate chan) \<Rightarrow>
    (nat \<Rightarrow> PropertyUpdate chan) option" where
  "send_all u cs h = send_each subscriberBuffer u cs h"

definition br_Publish :: "Broker \<Rightarrow> PropertyUpdate \<Rightarrow> Broker option" where
  "br_Publish b u =
     (case br_subs b (upd_DeviceID u) of
        None \<Rightarrow> Some b
      | Some cs \<Rightarrow> map_option (\<lambda>h. b\<lparr>br_chans := h\<rparr>) (send_all u cs (br_chans b)))"

text \<open>A receive by the subscriber: the oldest buffered update, when there is one.\<close>

definition br_recv :: "Broker \<Rightarrow> nat \<Rightarrow> (PropertyUpdate \<times> Broker) option" where
  "br_recv b c =
     (case ch_buf (br_chans b c) of
        [] \<Rightarrow> None
      | u # us \<Rightarrow> Some (u, b\<lparr>br_chans := (br_chans b)(c := (br_chans b c)\<lparr>ch_buf := us\<rparr>)\<rparr>))"

section \<open>Invariant\<close>

definition br_subscribers :: "Broker \<Rightarrow> string \<Rightarrow> nat list" where
  "br_subscribers b d = (case br_subs b d of None \<Rightarrow> [] | Some cs \<Rightarrow> cs)"

definition br_inv :: "Broker \<Rightarrow> bool" where
  "br_inv b \<longleftrightarrow>
     (\<forall>d. br_subs b d \<noteq> Some []) \<and>
     (\<forall>d. distinct (br_subscribers b d)) \<and>
     (\<forall>d c. c \<in> set (br_subscribers b d) \<longrightarrow> c < br_next b \<and> \<not> ch_closed (br_chans b c)) \<and>
     (\<forall>d d' c. c \<in> set (br_subscribers b d) \<longrightarrow> c \<in> set (br_subscribers b d') \<longrightarrow> d = d') \<and>
     (\<forall>c. length (ch_buf (br_chans b c)) \<le> subscriberBuffer)"

lemma br_invD:
  assumes "br_inv b"
  shows "distinct (br_subscribers b d)"
    and "c \<in> set (br_subscribers b d) \<Longrightarrow> c < br_next b"
    and "c \<in> set (br_subscribers b d) \<Longrightarrow> \<not> ch_closed (br_chans b c)"
    and "c \<in> set (br_subscribers b d) \<Longrightarrow> c \<in> set (br_subscribers b d') \<Longrightarrow> d = d'"
    and "length (ch_buf (br_chans b c)) \<le> subscriberBuffer"
    and "br_subs b d \<noteq> Some []"
  using assms unfolding br_inv_def by blast+

lemma br_inv_New: "br_inv NewBroker"
  by (simp add: br_inv_def NewBroker_def br_subscribers_def make_chan_def)

lemma br_subscribers_Subscribe:
  "br_subscribers (snd (br_Subscribe b d)) d' =
     (if d' = d then br_subscribers b d @ [br_next b] else br_subscribers b d')"
  by (simp add: br_subscribers_def br_Subscribe_def Let_def split: option.splits)

lemma br_inv_Subscribe:
  assumes "br_inv b"
  shows "br_inv (snd (br_Subscribe b d))"
proof -
  have new: "br_next b \<notin> set (br_subscribers b d')" for d'
    using br_invD(2) [OF assms] by blast
  show ?thesis
    unfolding br_inv_def br_subscribers_Subscribe
    using br_invD [OF assms] new
    by (auto simp: br_Subscribe_def Let_def make_chan_def less_SucI split: if_splits)
qed

lemma br_subscribers_unsubscribe:
  assumes "br_unsubscribe b d c = Some b'"
  shows "br_subscribers b' d' = (if d' = d then removeAll c (br_subscribers b d) else br_subscribers b d')"
  using assms by (auto simp: br_subscribers_def br_unsubscribe_def Let_def split: option.splits if_splits)

lemma br_unsubscribe_fields:
  assumes "br_unsubscribe b d c = Some b'"
  shows "br_chans b' = (br_chans b)(c := (br_chans b c)\<lparr>ch_closed := True\<rparr>)" and "br_next b' = br_next b"
    and "br_subs b d' \<noteq> Some [] \<Longrightarrow> br_subs b' d' \<noteq> Some []"
  using assms by (auto simp: br_unsubscribe_def close_chan_def Let_def split: option.splits if_splits)

lemma br_inv_unsubscribe:
  assumes "br_inv b" and "br_unsubscribe b d c = Some b'" and "c \<in> set (br_subscribers b d)"
  shows "br_inv b'"
proof -
  note subs = br_subscribers_unsubscribe [OF assms(2)] and fields = br_unsubscribe_fields [OF assms(2)]
  have only: "c \<in> set (br_subscribers b d') \<Longrightarrow> d' = d" for d'
    using br_invD(4) [OF assms(1)] assms(3) by blast
  show ?thesis
    unfolding br_inv_def
  proof (intro conjI allI impI)
    fix d' show "br_subs b' d' \<noteq> Some []"
      by (rule fields(3)) (rule br_invD(6) [OF assms(1)])
    show "distinct (br_subscribers b' d')"
      by (simp add: subs br_invD(1) [OF assms(1)] distinct_removeAll)
  next
    fix d' x assume x: "x \<in> set (br_subscribers b' d')"
    then have mem: "x \<in> set (br_subscribers b d')" and ne: "x \<noteq> c"
      using only by (auto simp: subs split: if_splits)
    then show "x < br_next b'" and "\<not> ch_closed (br_chans b' x)"
      by (auto simp: fields(1,2) br_invD(2,3) [OF assms(1)])
  next
    fix d1 d2 x assume "x \<in> set (br_subscribers b' d1)" and "x \<in> set (br_subscribers b' d2)"
    then have "x \<in> set (br_subscribers b d1)" and "x \<in> set (br_subscribers b d2)"
      by (auto simp: subs split: if_splits)
    then show "d1 = d2" by (rule br_invD(4) [OF assms(1)])
  next
    fix x show "length (ch_buf (br_chans b' x)) \<le> subscriberBuffer"
      by (simp add: fields(1) br_invD(5) [OF assms(1)])
  qed
qed

section \<open>Publishing\<close>

abbreviation offer :: "PropertyUpdate \<Rightarrow> PropertyUpdate chan \<Rightarrow> PropertyUpdate chan" where
  "offer \<equiv> offer_chan subscriberBuffer"

lemmas offer_def = offer_chan_def

lemma br_Publish_eq:
  assumes "br_inv b"
  shows "br_Publish b u = Some (b\<lparr>br_chans := (\<lambda>c. if c \<in> set (br_subscribers b (upd_DeviceID u))
           then offer u (br_chans b c) else br_chans b c)\<rparr>)"
proof (cases "br_subs b (upd_DeviceID u)")
  case None
  then show ?thesis by (simp add: br_Publish_def br_subscribers_def)
next
  case (Some cs)
  then have cs: "br_subscribers b (upd_DeviceID u) = cs"
    by (simp add: br_subscribers_def)
  have "send_all u cs (br_chans b) = Some (\<lambda>c. if c \<in> set cs then offer u (br_chans b c) else br_chans b c)"
    using br_invD(1,3) [OF assms, where d = "upd_DeviceID u"] unfolding send_all_def by (intro send_each_open) (auto simp: cs)
  with Some cs show ?thesis by (simp add: br_Publish_def)
qed

lemma offer_length [simp]:
  "length (ch_buf c) \<le> subscriberBuffer \<Longrightarrow> length (ch_buf (offer u c)) \<le> subscriberBuffer"
  by (simp add: offer_def)

lemma br_inv_Publish:
  assumes "br_inv b" and "br_Publish b u = Some b'"
  shows "br_inv b'"
proof -
  from assms(2) have b': "b' = b\<lparr>br_chans := (\<lambda>c. if c \<in> set (br_subscribers b (upd_DeviceID u))
      then offer u (br_chans b c) else br_chans b c)\<rparr>"
    by (simp add: br_Publish_eq [OF assms(1)])
  have same: "br_subscribers b' d = br_subscribers b d" for d
    by (simp add: b' br_subscribers_def)
  show ?thesis
    unfolding br_inv_def same using br_invD [OF assms(1)] by (auto simp: b')
qed

lemma br_inv_recv:
  assumes "br_inv b" and "br_recv b c = Some (u, b')"
  shows "br_inv b'"
proof -
  obtain us where us: "ch_buf (br_chans b c) = u # us"
    and b': "b' = b\<lparr>br_chans := (br_chans b)(c := (br_chans b c)\<lparr>ch_buf := us\<rparr>)\<rparr>"
    using assms(2) by (auto simp: br_recv_def split: list.splits)
  have same: "br_subscribers b' d = br_subscribers b d" for d
    by (simp add: b' br_subscribers_def)
  have "length us \<le> subscriberBuffer"
    using br_invD(5) [OF assms(1), of c] us by simp
  then show ?thesis
    unfolding br_inv_def same using br_invD [OF assms(1)] by (auto simp: b')
qed

section \<open>Interleaved runs\<close>

text \<open>
  A run of the broker with a history: for each channel its device, the updates published
  to that device while it was subscribed, and the updates its subscriber received.
\<close>

record bsys =
  bs_broker :: Broker
  bs_dev :: "nat \<Rightarrow> string"
  bs_pub :: "nat \<Rightarrow> PropertyUpdate list"
  bs_got :: "nat \<Rightarrow> PropertyUpdate list"

definition bs_init :: bsys where
  "bs_init = \<lparr>bs_broker = NewBroker, bs_dev = (\<lambda>_. []), bs_pub = (\<lambda>_. []), bs_got = (\<lambda>_. [])\<rparr>"

definition live :: "bsys \<Rightarrow> nat \<Rightarrow> bool" where
  "live s c \<longleftrightarrow> c \<in> set (br_subscribers (bs_broker s) (bs_dev s c))"

inductive broker_step :: "bsys \<Rightarrow> bsys \<Rightarrow> bool" where
  subscribe: "br_Subscribe (bs_broker s) d = (c, b) \<Longrightarrow>
     broker_step s (s\<lparr>bs_broker := b, bs_dev := (bs_dev s)(c := d),
       bs_pub := (bs_pub s)(c := []), bs_got := (bs_got s)(c := [])\<rparr>)"
| unsubscribe: "live s c \<Longrightarrow> br_unsubscribe (bs_broker s) (bs_dev s c) c = Some b \<Longrightarrow>
     broker_step s (s\<lparr>bs_broker := b\<rparr>)"
| publish: "br_Publish (bs_broker s) u = Some b \<Longrightarrow>
     broker_step s (s\<lparr>bs_broker := b,
       bs_pub := (\<lambda>c. if c \<in> set (br_subscribers (bs_broker s) (upd_DeviceID u)) then bs_pub s c @ [u] else bs_pub s c)\<rparr>)"
| receive: "br_recv (bs_broker s) c = Some (u, b) \<Longrightarrow>
     broker_step s (s\<lparr>bs_broker := b, bs_got := (bs_got s)(c := bs_got s c @ [u])\<rparr>)"

inductive broker_reachable :: "bsys \<Rightarrow> bool" where
  init: "broker_reachable bs_init"
| step: "broker_reachable s \<Longrightarrow> broker_step s t \<Longrightarrow> broker_reachable t"

text \<open>What each channel has been offered, in order, and nothing else.\<close>

definition delivered :: "bsys \<Rightarrow> nat \<Rightarrow> PropertyUpdate list" where
  "delivered s c = bs_got s c @ ch_buf (br_chans (bs_broker s) c)"

definition bs_inv :: "bsys \<Rightarrow> bool" where
  "bs_inv s \<longleftrightarrow> br_inv (bs_broker s) \<and>
     (\<forall>d c. c \<in> set (br_subscribers (bs_broker s) d) \<longrightarrow> bs_dev s c = d) \<and>
     (\<forall>c. subseq (delivered s c) (bs_pub s c)) \<and>
     (\<forall>c. length (bs_pub s c) \<le> subscriberBuffer \<longrightarrow> delivered s c = bs_pub s c)"

lemma bs_invD:
  assumes "bs_inv s"
  shows "br_inv (bs_broker s)"
    and "c \<in> set (br_subscribers (bs_broker s) d) \<Longrightarrow> bs_dev s c = d"
    and "subseq (delivered s c) (bs_pub s c)"
    and "length (bs_pub s c) \<le> subscriberBuffer \<Longrightarrow> delivered s c = bs_pub s c"
  using assms unfolding bs_inv_def by blast+

lemma bs_inv_init: "bs_inv bs_init"
  using br_inv_New by (simp add: bs_inv_def bs_init_def delivered_def NewBroker_def make_chan_def br_subscribers_def)

text \<open>Offering an update keeps a channel a subsequence of the history, and complete while there is room.\<close>

lemma offer_history:
  assumes "subseq (g @ ch_buf ch) p" and "length p \<le> subscriberBuffer \<longrightarrow> g @ ch_buf ch = p"
  shows "subseq (g @ ch_buf (offer u ch)) (p @ [u])"
    and "length (p @ [u]) \<le> subscriberBuffer \<Longrightarrow> g @ ch_buf (offer u ch) = p @ [u]"
proof -
  show "subseq (g @ ch_buf (offer u ch)) (p @ [u])"
  proof (cases "length (ch_buf ch) < subscriberBuffer")
    case True
    then have "g @ ch_buf (offer u ch) = (g @ ch_buf ch) @ [u]"
      by (simp add: offer_def)
    with assms(1) show ?thesis
      using list_emb_append_mono [of "(=)" "g @ ch_buf ch" p "[u]" "[u]"] by simp
  next
    case False
    with assms(1) show ?thesis
      by (simp add: offer_def subseq_rev_drop_many)
  qed
  assume l: "length (p @ [u]) \<le> subscriberBuffer"
  with assms(2) have eq: "g @ ch_buf ch = p" by simp
  then have "length p = length g + length (ch_buf ch)" by auto
  with l have "length (ch_buf ch) < subscriberBuffer" by simp
  with eq show "g @ ch_buf (offer u ch) = p @ [u]"
    by (auto simp: offer_def)
qed

lemma bs_inv_step: "broker_step s t \<Longrightarrow> bs_inv s \<Longrightarrow> bs_inv t"
proof (induction rule: broker_step.induct)
  case (subscribe s d c b)
  then have b: "b = snd (br_Subscribe (bs_broker s) d)" and c: "c = br_next (bs_broker s)"
    by (auto simp: br_Subscribe_def Let_def)
  note I = bs_invD [OF subscribe.prems]
  have new: "c \<notin> set (br_subscribers (bs_broker s) d')" for d'
    using br_invD(2) [OF I(1)] c by blast
  have chans: "br_chans b = (br_chans (bs_broker s))(c := make_chan)"
    by (simp add: b c br_Subscribe_def Let_def)
  show ?case
    unfolding bs_inv_def
    using br_inv_Subscribe [OF I(1), of d] I(2-4) new
    by (auto simp: b [symmetric] delivered_def chans make_chan_def br_subscribers_Subscribe [of "bs_broker s" d, folded b c]
        split: if_splits)
next
  case (unsubscribe s c b)
  note I = bs_invD [OF unsubscribe.prems] and subs = br_subscribers_unsubscribe [OF unsubscribe.hyps(2)]
    and fields = br_unsubscribe_fields [OF unsubscribe.hyps(2)]
  have same: "delivered (s\<lparr>bs_broker := b\<rparr>) x = delivered s x" for x
    by (simp add: delivered_def fields(1))
  have "br_inv b"
    using br_inv_unsubscribe [OF I(1) unsubscribe.hyps(2)] unsubscribe.hyps(1) by (simp add: live_def)
  moreover have "x \<in> set (br_subscribers b d) \<Longrightarrow> bs_dev s x = d" for x d
    using I(2) by (auto simp: subs split: if_splits)
  ultimately show ?case
    using I(3,4) by (simp add: bs_inv_def same)
next
  case (publish s u b)
  note I = bs_invD [OF publish.prems]
  have b: "b = (bs_broker s)\<lparr>br_chans := (\<lambda>c. if c \<in> set (br_subscribers (bs_broker s) (upd_DeviceID u))
      then offer u (br_chans (bs_broker s) c) else br_chans (bs_broker s) c)\<rparr>"
    using publish.hyps by (simp add: br_Publish_eq [OF I(1)])
  have "br_subscribers b d = br_subscribers (bs_broker s) d" for d
    by (simp add: b br_subscribers_def)
  with br_inv_Publish [OF I(1) publish.hyps] I(2-4) show ?case
    unfolding bs_inv_def delivered_def using offer_history by (auto simp: b)
next
  case (receive s c u b)
  note I = bs_invD [OF receive.prems]
  obtain us where us: "ch_buf (br_chans (bs_broker s) c) = u # us"
    and b: "b = (bs_broker s)\<lparr>br_chans := (br_chans (bs_broker s))(c := (br_chans (bs_broker s) c)\<lparr>ch_buf := us\<rparr>)\<rparr>"
    using receive.hyps by (auto simp: br_recv_def split: list.splits)
  have same: "delivered (s\<lparr>bs_broker := b, bs_got := (bs_got s)(c := bs_got s c @ [u])\<rparr>) x = delivered s x" for x
    using us by (simp add: delivered_def b)
  have "br_subscribers b d = br_subscribers (bs_broker s) d" for d
    by (simp add: b br_subscribers_def)
  with br_inv_recv [OF I(1) receive.hyps] I(2-4) show ?case
    by (simp add: bs_inv_def same)
qed

lemma broker_reachable_inv: "broker_reachable s \<Longrightarrow> bs_inv s"
  by (induction rule: broker_reachable.induct) (auto intro: bs_inv_init bs_inv_step)


text \<open>The same steps as labelled actions, for concrete runs.\<close>

datatype baction = BSub string | BUnsub nat | BPub PropertyUpdate | BRecv nat

fun broker_do :: "baction \<Rightarrow> bsys \<Rightarrow> bsys option" where
  "broker_do (BSub d) s =
     (case br_Subscribe (bs_broker s) d of (c, b) \<Rightarrow>
        Some (s\<lparr>bs_broker := b, bs_dev := (bs_dev s)(c := d), bs_pub := (bs_pub s)(c := []),
          bs_got := (bs_got s)(c := [])\<rparr>))"
| "broker_do (BUnsub c) s =
     (if live s c then map_option (\<lambda>b. s\<lparr>bs_broker := b\<rparr>) (br_unsubscribe (bs_broker s) (bs_dev s c) c) else None)"
| "broker_do (BPub u) s =
     map_option (\<lambda>b. s\<lparr>bs_broker := b,
       bs_pub := (\<lambda>c. if c \<in> set (br_subscribers (bs_broker s) (upd_DeviceID u)) then bs_pub s c @ [u] else bs_pub s c)\<rparr>)
       (br_Publish (bs_broker s) u)"
| "broker_do (BRecv c) s =
     map_option (\<lambda>(u, b). s\<lparr>bs_broker := b, bs_got := (bs_got s)(c := bs_got s c @ [u])\<rparr>) (br_recv (bs_broker s) c)"

lemma broker_do_step: "broker_do a s = Some t \<Longrightarrow> broker_step s t"
  by (cases a) (auto split: if_splits prod.splits intro: broker_step.intros)

lemma broker_run_reachable: "run_acts broker_do as bs_init = Some t \<Longrightarrow> broker_reachable t"
  by (erule run_acts_invariant [where P = broker_reachable]) (auto intro: broker_reachable.intros broker_do_step)

section \<open>Properties\<close>

definition upd1 :: PropertyUpdate where
  "upd1 = property_event ''d1'' ''temp'' (IntValue 20) 5"

definition upd2 :: PropertyUpdate where
  "upd2 = property_event ''d2'' ''temp'' (IntValue 30) 6"

definition broker_demo :: "baction list" where
  "broker_demo = [BSub ''d1'', BSub ''d1'', BPub upd1, BPub upd2, BRecv 0, BPub upd1, BUnsub 1]"

lemmas broker_demo_defs = broker_demo_def upd1_def upd2_def property_event_def bs_init_def NewBroker_def make_chan_def
  br_Subscribe_def br_unsubscribe_def br_Publish_def send_all_def br_recv_def try_send_def close_chan_def subscriberBuffer_def
  live_def br_subscribers_def delivered_def Let_def



text \<open>\<open>Publish\<close> never panics and never blocks, whatever was subscribed, unsubscribed and
  left unread before: it reaches exactly the current subscribers of the update's device, each
  of them independently of how full the others are.\<close>

theorem publish_reaches_subscribers:
  assumes "broker_reachable s"
  shows "\<exists>b. br_Publish (bs_broker s) u = Some b \<and> br_subs b = br_subs (bs_broker s) \<and>
     (\<forall>c. ch_buf (br_chans b c) = ch_buf (br_chans (bs_broker s) c) @
        (if c \<in> set (br_subscribers (bs_broker s) (upd_DeviceID u)) \<and>
            length (ch_buf (br_chans (bs_broker s) c)) < subscriberBuffer then [u] else []))"
  using br_Publish_eq [OF bs_invD(1) [OF broker_reachable_inv [OF assms]]] by (simp add: offer_def)

theorem publish_reaches_subscribers_witness:
  "\<exists>s b. run_acts broker_do broker_demo bs_init = Some s \<and> br_Publish (bs_broker s) upd1 = Some b \<and>
     ch_buf (br_chans b 0) = [upd1, upd1] \<and> ch_buf (br_chans b 1) = [upd1, upd1]"
proof -
  obtain s where s: "run_acts broker_do broker_demo bs_init = Some s"
    and b: "ch_buf (br_chans (bs_broker s) 0) = [upd1]" "ch_buf (br_chans (bs_broker s) 1) = [upd1, upd1]"
    and m: "br_subscribers (bs_broker s) (upd_DeviceID upd1) = [0]"
    by (simp add: broker_demo_defs)
  from publish_reaches_subscribers [OF broker_run_reachable [OF s], of upd1] s b m show ?thesis
    by (auto simp: subscriberBuffer_def)
qed

end
