(* ===== verification/Command_Router.thy ===== *)
theory Command_Router
  imports Channels
begin

text \<open>
  The command router (\<open>internal/api/commandrouter.go\<close>): it pairs each \<open>Dispatch\<close> call
  with the \<open>StreamCommands\<close> channel of its device and correlates results by command
  ID. \<open>Dispatch\<close>, \<open>SubmitResult\<close> and the unregister function are not atomic: they take the
  mutex for a part and use channels outside it. Each part is a definition of its own, and
  the step relation \<open>router_step\<close> interleaves the parts of any number of concurrent calls.
\<close>

section \<open>Data\<close>

text \<open>Values of \<open>google.protobuf.Struct\<close>, which carry parameters and results.\<close>

datatype pbval =
    PNull | PBool bool | PNum float64 | PStr string | PList "pbval list"
  | PStruct "(string \<times> pbval) list"

record Command =
  cmd_ID :: string
  cmd_Name :: string
  cmd_Params :: "(string \<times> pbval) list"

record CommandResult =
  res_ID :: string
  res_Success :: bool
  res_Error :: string
  res_Result :: pbval

definition commandBuffer :: nat where
  "commandBuffer = 8"

record CommandRouter =
  cr_channels :: "string \<rightharpoonup> nat"          \<comment> \<open>device ID to its command channel\<close>
  cr_pending :: "string \<rightharpoonup> nat"           \<comment> \<open>command ID to its result channel\<close>
  cr_cmds :: "nat \<Rightarrow> Command chan"
  cr_results :: "nat \<Rightarrow> CommandResult chan"
  cr_nextc :: nat
  cr_nextr :: nat

definition NewCommandRouter :: CommandRouter where
  "NewCommandRouter = \<lparr>cr_channels = Map.empty, cr_pending = Map.empty, cr_cmds = (\<lambda>_. make_chan),
     cr_results = (\<lambda>_. make_chan), cr_nextc = 0, cr_nextr = 0\<rparr>"

section \<open>Operations\<close>

definition cr_Register :: "CommandRouter \<Rightarrow> string \<Rightarrow> nat \<times> CommandRouter" where
  "cr_Register r deviceID =
     (let c = cr_nextc r in
      (c, r\<lparr>cr_cmds := (cr_cmds r)(c := make_chan), cr_channels := (cr_channels r)(deviceID \<mapsto> c),
            cr_nextc := Suc c\<rparr>))"

text \<open>The unregister function: drop the entry if it is still this channel, then close it.\<close>

definition cr_unregister_drop :: "CommandRouter \<Rightarrow> string \<Rightarrow> nat \<Rightarrow> CommandRouter" where
  "cr_unregister_drop r deviceID c =
     (if cr_channels r deviceID = Some c then r\<lparr>cr_channels := (cr_channels r)(deviceID := None)\<rparr> else r)"

definition cr_unregister_close :: "CommandRouter \<Rightarrow> nat \<Rightarrow> CommandRouter option" where
  "cr_unregister_close r c =
     map_option (\<lambda>ch. r\<lparr>cr_cmds := (cr_cmds r)(c := ch)\<rparr>) (close_chan (cr_cmds r c))"

text \<open>\<open>SubmitResult\<close>: take the pending entry under the mutex, then send outside it.\<close>

definition cr_submit_take :: "CommandRouter \<Rightarrow> CommandResult \<Rightarrow> CommandRouter \<times> nat option" where
  "cr_submit_take r res =
     (case cr_pending r (res_ID res) of
        None \<Rightarrow> (r, None)
      | Some ch \<Rightarrow> (r\<lparr>cr_pending := (cr_pending r)(res_ID res := None)\<rparr>, Some ch))"

definition cr_submit_send :: "CommandRouter \<Rightarrow> nat \<Rightarrow> CommandResult \<Rightarrow> CommandRouter option" where
  "cr_submit_send r ch res =
     map_option (\<lambda>c. r\<lparr>cr_results := (cr_results r)(ch := c)\<rparr>) (send_chan res (cr_results r ch))"

text \<open>\<open>Dispatch\<close>: look the channel up and register the result channel, both under the mutex.\<close>

definition cr_dispatch_begin ::
    "CommandRouter \<Rightarrow> string \<Rightarrow> Command \<Rightarrow> fault + (nat \<times> nat \<times> CommandRouter)" where
  "cr_dispatch_begin r deviceID cmd =
     (case cr_channels r deviceID of
        None \<Rightarrow> Inl (Fault [DeviceNotConnectedE])
      | Some ch \<Rightarrow>
          (let rc = cr_nextr r in
           Inr (ch, rc, r\<lparr>cr_results := (cr_results r)(rc := make_chan),
             cr_pending := (cr_pending r)(cmd_ID cmd \<mapsto> rc), cr_nextr := Suc rc\<rparr>)))"

definition cr_dispatch_send :: "CommandRouter \<Rightarrow> nat \<Rightarrow> Command \<Rightarrow> CommandRouter option" where
  "cr_dispatch_send r ch cmd =
     map_option (\<lambda>c. r\<lparr>cr_cmds := (cr_cmds r)(ch := c)\<rparr>) (send_chan cmd (cr_cmds r ch))"

definition cr_dispatch_cancel :: "CommandRouter \<Rightarrow> Command \<Rightarrow> CommandRouter" where
  "cr_dispatch_cancel r cmd = r\<lparr>cr_pending := (cr_pending r)(cmd_ID cmd := None)\<rparr>"

definition cr_dispatch_recv :: "CommandRouter \<Rightarrow> nat \<Rightarrow> (CommandResult \<times> CommandRouter) option" where
  "cr_dispatch_recv r rc =
     map_option (\<lambda>(res, c). (res, r\<lparr>cr_results := (cr_results r)(rc := c)\<rparr>)) (recv_chan (cr_results r rc))"

definition cr_stream_recv :: "CommandRouter \<Rightarrow> nat \<Rightarrow> (Command \<times> CommandRouter) option" where
  "cr_stream_recv r c =
     map_option (\<lambda>(cmd, ch). (cmd, r\<lparr>cr_cmds := (cr_cmds r)(c := ch)\<rparr>)) (recv_chan (cr_cmds r c))"

section \<open>Interleavings\<close>

text \<open>Where each concurrent call stands: a \<open>Dispatch\<close>, a \<open>SubmitResult\<close>, a command stream.\<close>

datatype dphase =
    DIdle
  | DSending Command nat nat            \<comment> \<open>command channel, result channel\<close>
  | DWaiting Command nat
  | DDone Command "fault + CommandResult"
  | DPanic Command nat                  \<comment> \<open>sent on a closed channel: the process crashes\<close>

datatype sphase = SIdle | SSending nat CommandResult

datatype streamphase = StNone | StOpen string nat | StDropped nat | StEnded

record rsys =
  rs_router :: CommandRouter
  rs_disp :: "nat \<Rightarrow> dphase"
  rs_subm :: "nat \<Rightarrow> sphase"
  rs_stream :: "nat \<Rightarrow> streamphase"
  rs_owner :: "nat \<Rightarrow> string"            \<comment> \<open>history: the command ID a result channel was made for\<close>
  rs_sent :: "nat \<Rightarrow> Command list"       \<comment> \<open>history: commands accepted by a command channel\<close>
  rs_handed :: "nat \<Rightarrow> Command list"     \<comment> \<open>history: commands handed to the device's stream\<close>

definition rs_init :: rsys where
  "rs_init = \<lparr>rs_router = NewCommandRouter, rs_disp = (\<lambda>_. DIdle), rs_subm = (\<lambda>_. SIdle),
     rs_stream = (\<lambda>_. StNone), rs_owner = (\<lambda>_. []), rs_sent = (\<lambda>_. []), rs_handed = (\<lambda>_. [])\<rparr>"

inductive router_step :: "rsys \<Rightarrow> rsys \<Rightarrow> bool" where
  open_stream: "rs_stream s k = StNone \<Longrightarrow> cr_Register (rs_router s) d = (c, r) \<Longrightarrow>
    router_step s (s\<lparr>rs_router := r, rs_stream := (rs_stream s)(k := StOpen d c),
      rs_sent := (rs_sent s)(c := []), rs_handed := (rs_handed s)(c := [])\<rparr>)"
| hand_over: "rs_stream s k = StOpen d c \<Longrightarrow> cr_stream_recv (rs_router s) c = Some (cmd, r) \<Longrightarrow>
    router_step s (s\<lparr>rs_router := r, rs_handed := (rs_handed s)(c := rs_handed s c @ [cmd])\<rparr>)"
| drop_stream: "rs_stream s k = StOpen d c \<Longrightarrow>
    router_step s (s\<lparr>rs_router := cr_unregister_drop (rs_router s) d c,
      rs_stream := (rs_stream s)(k := StDropped c)\<rparr>)"
| close_stream: "rs_stream s k = StDropped c \<Longrightarrow> cr_unregister_close (rs_router s) c = Some r \<Longrightarrow>
    router_step s (s\<lparr>rs_router := r, rs_stream := (rs_stream s)(k := StEnded)\<rparr>)"
| refuse: "rs_disp s t = DIdle \<Longrightarrow> cr_dispatch_begin (rs_router s) d cmd = Inl e \<Longrightarrow>
    router_step s (s\<lparr>rs_disp := (rs_disp s)(t := DDone cmd (Inl e))\<rparr>)"
| dispatch: "rs_disp s t = DIdle \<Longrightarrow> cr_dispatch_begin (rs_router s) d cmd = Inr (ch, rc, r) \<Longrightarrow>
    router_step s (s\<lparr>rs_router := r, rs_disp := (rs_disp s)(t := DSending cmd ch rc),
      rs_owner := (rs_owner s)(rc := cmd_ID cmd)\<rparr>)"
| send: "rs_disp s t = DSending cmd ch rc \<Longrightarrow> can_send commandBuffer (cr_cmds (rs_router s) ch) \<Longrightarrow>
    cr_dispatch_send (rs_router s) ch cmd = Some r \<Longrightarrow>
    router_step s (s\<lparr>rs_router := r, rs_disp := (rs_disp s)(t := DWaiting cmd rc),
      rs_sent := (rs_sent s)(ch := rs_sent s ch @ [cmd])\<rparr>)"
| send_panic: "rs_disp s t = DSending cmd ch rc \<Longrightarrow> can_send commandBuffer (cr_cmds (rs_router s) ch) \<Longrightarrow>
    cr_dispatch_send (rs_router s) ch cmd = None \<Longrightarrow>
    router_step s (s\<lparr>rs_disp := (rs_disp s)(t := DPanic cmd rc)\<rparr>)"
| cancel_send: "rs_disp s t = DSending cmd ch rc \<Longrightarrow> e \<in> {DeadlineExceededE, CanceledE} \<Longrightarrow>
    router_step s (s\<lparr>rs_router := cr_dispatch_cancel (rs_router s) cmd,
      rs_disp := (rs_disp s)(t := DDone cmd (Inl (Fault [e])))\<rparr>)"
| cancel_wait: "rs_disp s t = DWaiting cmd rc \<Longrightarrow> e \<in> {DeadlineExceededE, CanceledE} \<Longrightarrow>
    router_step s (s\<lparr>rs_router := cr_dispatch_cancel (rs_router s) cmd,
      rs_disp := (rs_disp s)(t := DDone cmd (Inl (Fault [e])))\<rparr>)"
| return_result: "rs_disp s t = DWaiting cmd rc \<Longrightarrow> cr_dispatch_recv (rs_router s) rc = Some (res, r) \<Longrightarrow>
    router_step s (s\<lparr>rs_router := r, rs_disp := (rs_disp s)(t := DDone cmd (Inr res))\<rparr>)"
| submit_unknown: "rs_subm s u = SIdle \<Longrightarrow> cr_submit_take (rs_router s) res = (r, None) \<Longrightarrow>
    router_step s (s\<lparr>rs_router := r\<rparr>)"
| submit_take: "rs_subm s u = SIdle \<Longrightarrow> cr_submit_take (rs_router s) res = (r, Some ch) \<Longrightarrow>
    router_step s (s\<lparr>rs_router := r, rs_subm := (rs_subm s)(u := SSending ch res)\<rparr>)"
| submit_send: "rs_subm s u = SSending ch res \<Longrightarrow> can_send 1 (cr_results (rs_router s) ch) \<Longrightarrow>
    cr_submit_send (rs_router s) ch res = Some r \<Longrightarrow>
    router_step s (s\<lparr>rs_router := r, rs_subm := (rs_subm s)(u := SIdle)\<rparr>)"

inductive router_reachable :: "rsys \<Rightarrow> bool" where
  init: "router_reachable rs_init"
| step: "router_reachable s \<Longrightarrow> router_step s t \<Longrightarrow> router_reachable t"

text \<open>The same steps as labelled actions, for concrete runs.\<close>

datatype raction =
    AOpen nat string | AHand nat | ADrop nat | AClose nat
  | ADispatch nat string Command | ASend nat | ACancel nat link | AReturn nat
  | ATake nat CommandResult | ASubmit nat

fun router_do :: "raction \<Rightarrow> rsys \<Rightarrow> rsys option" where
  "router_do (AOpen k d) s =
     (if rs_stream s k = StNone then
        (case cr_Register (rs_router s) d of (c, r) \<Rightarrow>
           Some (s\<lparr>rs_router := r, rs_stream := (rs_stream s)(k := StOpen d c),
             rs_sent := (rs_sent s)(c := []), rs_handed := (rs_handed s)(c := [])\<rparr>))
      else None)"
| "router_do (AHand k) s =
     (case rs_stream s k of
        StOpen d c \<Rightarrow> map_option (\<lambda>(cmd, r). s\<lparr>rs_router := r,
            rs_handed := (rs_handed s)(c := rs_handed s c @ [cmd])\<rparr>) (cr_stream_recv (rs_router s) c)
      | _ \<Rightarrow> None)"
| "router_do (ADrop k) s =
     (case rs_stream s k of
        StOpen d c \<Rightarrow> Some (s\<lparr>rs_router := cr_unregister_drop (rs_router s) d c,
            rs_stream := (rs_stream s)(k := StDropped c)\<rparr>)
      | _ \<Rightarrow> None)"
| "router_do (AClose k) s =
     (case rs_stream s k of
        StDropped c \<Rightarrow> map_option (\<lambda>r. s\<lparr>rs_router := r, rs_stream := (rs_stream s)(k := StEnded)\<rparr>)
            (cr_unregister_close (rs_router s) c)
      | _ \<Rightarrow> None)"
| "router_do (ADispatch t d cmd) s =
     (if rs_disp s t = DIdle then
        (case cr_dispatch_begin (rs_router s) d cmd of
           Inl e \<Rightarrow> Some (s\<lparr>rs_disp := (rs_disp s)(t := DDone cmd (Inl e))\<rparr>)
         | Inr (ch, rc, r) \<Rightarrow> Some (s\<lparr>rs_router := r, rs_disp := (rs_disp s)(t := DSending cmd ch rc),
             rs_owner := (rs_owner s)(rc := cmd_ID cmd)\<rparr>))
      else None)"
| "router_do (ASend t) s =
     (case rs_disp s t of
        DSending cmd ch rc \<Rightarrow>
          if can_send commandBuffer (cr_cmds (rs_router s) ch) then
            (case cr_dispatch_send (rs_router s) ch cmd of
               None \<Rightarrow> Some (s\<lparr>rs_disp := (rs_disp s)(t := DPanic cmd rc)\<rparr>)
             | Some r \<Rightarrow> Some (s\<lparr>rs_router := r, rs_disp := (rs_disp s)(t := DWaiting cmd rc),
                 rs_sent := (rs_sent s)(ch := rs_sent s ch @ [cmd])\<rparr>))
          else None
      | _ \<Rightarrow> None)"
| "router_do (ACancel t e) s =
     (if e \<in> {DeadlineExceededE, CanceledE} then
        (case rs_disp s t of
           DSending cmd ch rc \<Rightarrow> Some (s\<lparr>rs_router := cr_dispatch_cancel (rs_router s) cmd,
             rs_disp := (rs_disp s)(t := DDone cmd (Inl (Fault [e])))\<rparr>)
         | DWaiting cmd rc \<Rightarrow> Some (s\<lparr>rs_router := cr_dispatch_cancel (rs_router s) cmd,
             rs_disp := (rs_disp s)(t := DDone cmd (Inl (Fault [e])))\<rparr>)
         | _ \<Rightarrow> None)
      else None)"
| "router_do (AReturn t) s =
     (case rs_disp s t of
        DWaiting cmd rc \<Rightarrow> map_option (\<lambda>(res, r). s\<lparr>rs_router := r,
            rs_disp := (rs_disp s)(t := DDone cmd (Inr res))\<rparr>) (cr_dispatch_recv (rs_router s) rc)
      | _ \<Rightarrow> None)"
| "router_do (ATake u res) s =
     (if rs_subm s u = SIdle then
        (case cr_submit_take (rs_router s) res of
           (r, None) \<Rightarrow> Some (s\<lparr>rs_router := r\<rparr>)
         | (r, Some ch) \<Rightarrow> Some (s\<lparr>rs_router := r, rs_subm := (rs_subm s)(u := SSending ch res)\<rparr>))
      else None)"
| "router_do (ASubmit u) s =
     (case rs_subm s u of
        SSending ch res \<Rightarrow>
          if can_send 1 (cr_results (rs_router s) ch) then
            map_option (\<lambda>r. s\<lparr>rs_router := r, rs_subm := (rs_subm s)(u := SIdle)\<rparr>)
              (cr_submit_send (rs_router s) ch res)
          else None
      | SIdle \<Rightarrow> None)"

lemma router_do_step: "router_do a s = Some t \<Longrightarrow> router_step s t"
  by (cases a) (auto split: if_splits option.splits sum.splits prod.splits dphase.splits sphase.splits
      streamphase.splits intro: router_step.intros)

lemma router_run_reachable: "run_acts router_do as rs_init = Some t \<Longrightarrow> router_reachable t"
  by (erule run_acts_invariant [where P = router_reachable]) (auto intro: router_reachable.intros router_do_step)

section \<open>Invariant\<close>

fun disp_call :: "dphase \<Rightarrow> (Command \<times> nat) option" where
  "disp_call (DSending cmd ch rc) = Some (cmd, rc)"
| "disp_call (DWaiting cmd rc) = Some (cmd, rc)"
| "disp_call (DPanic cmd rc) = Some (cmd, rc)"
| "disp_call DIdle = None"
| "disp_call (DDone cmd r) = None"

abbreviation in_flight :: "rsys \<Rightarrow> nat \<Rightarrow> Command \<Rightarrow> nat \<Rightarrow> bool" where
  "in_flight s t cmd rc \<equiv> disp_call (rs_disp s t) = Some (cmd, rc)"

text \<open>
  A pending entry points to an empty, open result channel made for that command ID, which
  a call in flight owns and to which nobody is sending; a result in a result channel, or on
  its way to it, carries the ID the channel was made for; and no two submissions send to
  the same result channel.
\<close>

definition pending_ok :: "rsys \<Rightarrow> bool" where
  "pending_ok s \<longleftrightarrow> (\<forall>i rc. cr_pending (rs_router s) i = Some rc \<longrightarrow>
     rc < cr_nextr (rs_router s) \<and> rs_owner s rc = i \<and> ch_buf (cr_results (rs_router s) rc) = [] \<and>
     (\<forall>u res. rs_subm s u \<noteq> SSending rc res) \<and> (\<exists>t cmd. in_flight s t cmd rc))"

definition submit_ok :: "rsys \<Rightarrow> bool" where
  "submit_ok s \<longleftrightarrow> (\<forall>u rc res. rs_subm s u = SSending rc res \<longrightarrow>
     rc < cr_nextr (rs_router s) \<and> rs_owner s rc = res_ID res \<and> ch_buf (cr_results (rs_router s) rc) = [] \<and>
     (\<forall>u' res'. rs_subm s u' = SSending rc res' \<longrightarrow> u' = u))"

definition result_ok :: "rsys \<Rightarrow> bool" where
  "result_ok s \<longleftrightarrow> (\<forall>rc. \<not> ch_closed (cr_results (rs_router s) rc) \<and>
     length (ch_buf (cr_results (rs_router s) rc)) \<le> 1 \<and>
     (\<forall>res \<in> set (ch_buf (cr_results (rs_router s) rc)). res_ID res = rs_owner s rc \<and> rc < cr_nextr (rs_router s)))"

definition dispatch_ok :: "rsys \<Rightarrow> bool" where
  "dispatch_ok s \<longleftrightarrow>
     (\<forall>t cmd rc. in_flight s t cmd rc \<longrightarrow> rc < cr_nextr (rs_router s) \<and> rs_owner s rc = cmd_ID cmd \<and>
        (\<forall>t' cmd'. in_flight s t' cmd' rc \<longrightarrow> t' = t))"

definition done_ok :: "rsys \<Rightarrow> bool" where
  "done_ok s \<longleftrightarrow> (\<forall>t cmd res. rs_disp s t = DDone cmd (Inr res) \<longrightarrow> res_ID res = cmd_ID cmd)"

definition router_inv :: "rsys \<Rightarrow> bool" where
  "router_inv s \<longleftrightarrow> pending_ok s \<and> submit_ok s \<and> result_ok s \<and> dispatch_ok s \<and> done_ok s"

lemmas router_inv_defs = router_inv_def pending_ok_def submit_ok_def result_ok_def dispatch_ok_def done_ok_def

lemmas router_op_defs = cr_Register_def cr_unregister_drop_def cr_unregister_close_def cr_submit_take_def
  cr_submit_send_def cr_dispatch_begin_def cr_dispatch_send_def cr_dispatch_cancel_def cr_dispatch_recv_def
  cr_stream_recv_def Let_def

lemma router_inv_init: "router_inv rs_init"
  by (simp add: router_inv_defs rs_init_def NewCommandRouter_def make_chan_def)


lemma router_invD:
  assumes "router_inv s"
  shows "cr_pending (rs_router s) i = Some rc \<Longrightarrow> rc < cr_nextr (rs_router s) \<and> rs_owner s rc = i \<and>
      ch_buf (cr_results (rs_router s) rc) = []"
    and "cr_pending (rs_router s) i = Some rc \<Longrightarrow> rs_subm s u \<noteq> SSending rc res"
    and "cr_pending (rs_router s) i = Some rc \<Longrightarrow> \<exists>t cmd. in_flight s t cmd rc"
    and "rs_subm s u = SSending rc res \<Longrightarrow> rc < cr_nextr (rs_router s) \<and> rs_owner s rc = res_ID res \<and>
      ch_buf (cr_results (rs_router s) rc) = []"
    and "rs_subm s u = SSending rc res \<Longrightarrow> rs_subm s u' = SSending rc res' \<Longrightarrow> u' = u"
    and "\<not> ch_closed (cr_results (rs_router s) rc)" and "length (ch_buf (cr_results (rs_router s) rc)) \<le> 1"
    and "r \<in> set (ch_buf (cr_results (rs_router s) rc)) \<Longrightarrow> res_ID r = rs_owner s rc \<and> rc < cr_nextr (rs_router s)"
    and "in_flight s t cmd rc \<Longrightarrow> rc < cr_nextr (rs_router s) \<and> rs_owner s rc = cmd_ID cmd"
    and "in_flight s t cmd rc \<Longrightarrow> in_flight s t' cmd' rc \<Longrightarrow> t' = t"
    and "rs_disp s t = DDone cmd (Inr re) \<Longrightarrow> res_ID re = cmd_ID cmd"
  using assms unfolding router_inv_defs by blast+

text \<open>A step that leaves the results, the pending entries and the calls alone keeps the invariant.\<close>

lemma router_inv_cong:
  assumes "router_inv s" and "rs_subm t = rs_subm s" and "rs_owner t = rs_owner s"
    and "cr_pending (rs_router t) = cr_pending (rs_router s)" and "cr_results (rs_router t) = cr_results (rs_router s)"
    and "cr_nextr (rs_router t) = cr_nextr (rs_router s)"
    and "\<And>k. disp_call (rs_disp t k) = disp_call (rs_disp s k)"
    and "\<And>k cmd r. rs_disp t k = DDone cmd (Inr r) \<Longrightarrow> rs_disp s k = DDone cmd (Inr r)"
  shows "router_inv t"
proof -
  have "done_ok t"
    using router_invD(11) [OF assms(1)] assms(8) unfolding done_ok_def by blast
  with assms(1) show ?thesis
    unfolding router_inv_def pending_ok_def submit_ok_def result_ok_def dispatch_ok_def assms(2-7) by blast
qed

lemma router_inv_dispatch:
  assumes "router_inv s" and "rs_disp s t = DIdle" and "cr_dispatch_begin (rs_router s) d cmd = Inr (ch, rc, r)"
  shows "router_inv (s\<lparr>rs_router := r, rs_disp := (rs_disp s)(t := DSending cmd ch rc),
      rs_owner := (rs_owner s)(rc := cmd_ID cmd)\<rparr>)"
proof -
  note I = router_invD [OF assms(1)]
  from assms(3) have rc: "rc = cr_nextr (rs_router s)"
    and r: "r = (rs_router s)\<lparr>cr_results := (cr_results (rs_router s))(rc := make_chan),
             cr_pending := (cr_pending (rs_router s))(cmd_ID cmd \<mapsto> rc), cr_nextr := Suc rc\<rparr>"
    by (auto simp: cr_dispatch_begin_def Let_def split: option.splits)
  have fresh: "cr_pending (rs_router s) i \<noteq> Some rc" "rs_subm s u \<noteq> SSending rc res" "\<not> in_flight s k c rc"
    for i u res k c
    using I(1,4,9) rc by blast+
  let ?s = "s\<lparr>rs_router := r, rs_disp := (rs_disp s)(t := DSending cmd ch rc),
      rs_owner := (rs_owner s)(rc := cmd_ID cmd)\<rparr>"
  have "pending_ok ?s"
    unfolding pending_ok_def
  proof (intro allI impI)
    fix i rc' assume p: "cr_pending (rs_router ?s) i = Some rc'"
    show "rc' < cr_nextr (rs_router ?s) \<and> rs_owner ?s rc' = i \<and> ch_buf (cr_results (rs_router ?s) rc') = [] \<and>
       (\<forall>u res. rs_subm ?s u \<noteq> SSending rc' res) \<and> (\<exists>t cmd. in_flight ?s t cmd rc')"
    proof (cases "i = cmd_ID cmd")
      case True
      with p have "rc' = rc" by (simp add: r)
      with True fresh show ?thesis by (auto simp: r make_chan_def)
    next
      case False
      with p have p': "cr_pending (rs_router s) i = Some rc'" by (simp add: r)
      obtain k c where k: "in_flight s k c rc'" using I(3) [OF p'] by blast
      then have "k \<noteq> t" using assms(2) by auto
      with I(1) [OF p'] I(2) [OF p'] k show ?thesis by (auto simp: r rc)
    qed
  qed
  moreover have "submit_ok ?s" "result_ok ?s" "done_ok ?s"
    using I fresh assms(2) by (auto simp: submit_ok_def result_ok_def done_ok_def r rc make_chan_def less_SucI)
  moreover have "dispatch_ok ?s"
    using I(9,10) fresh assms(2) by (auto simp: dispatch_ok_def r rc less_SucI)
  ultimately show ?thesis by (simp add: router_inv_def)
qed

lemma router_inv_cancel:
  assumes "router_inv s" and "in_flight s t cmd rc"
  shows "router_inv (s\<lparr>rs_router := cr_dispatch_cancel (rs_router s) cmd,
      rs_disp := (rs_disp s)(t := DDone cmd (Inl e))\<rparr>)" (is "router_inv ?s")
proof -
  note I = router_invD [OF assms(1)]
  have "pending_ok ?s"
    unfolding pending_ok_def
  proof (intro allI impI)
    fix i rc' assume p: "cr_pending (rs_router ?s) i = Some rc'"
    then have p': "cr_pending (rs_router s) i = Some rc'" and ne: "i \<noteq> cmd_ID cmd"
      by (auto simp: cr_dispatch_cancel_def split: if_splits)
    obtain k c where k: "in_flight s k c rc'" using I(3) [OF p'] by blast
    then have "k \<noteq> t" using assms(2) I(1) [OF p'] I(9) [OF k] ne by auto
    with I(1) [OF p'] I(2) [OF p'] k show "rc' < cr_nextr (rs_router ?s) \<and> rs_owner ?s rc' = i \<and>
       ch_buf (cr_results (rs_router ?s) rc') = [] \<and> (\<forall>u res. rs_subm ?s u \<noteq> SSending rc' res) \<and>
       (\<exists>t cmd. in_flight ?s t cmd rc')"
      by (auto simp: cr_dispatch_cancel_def)
  qed
  moreover have "submit_ok ?s" "result_ok ?s" "done_ok ?s"
    using I by (auto simp: submit_ok_def result_ok_def done_ok_def cr_dispatch_cancel_def)
  moreover have "dispatch_ok ?s"
    using I(9,10) by (auto simp: dispatch_ok_def cr_dispatch_cancel_def)
  ultimately show ?thesis by (simp add: router_inv_def)
qed

lemma router_inv_return:
  assumes "router_inv s" and "rs_disp s t = DWaiting cmd rc" and "cr_dispatch_recv (rs_router s) rc = Some (res, r)"
  shows "router_inv (s\<lparr>rs_router := r, rs_disp := (rs_disp s)(t := DDone cmd (Inr res))\<rparr>)" (is "router_inv ?s")
proof -
  note I = router_invD [OF assms(1)]
  obtain xs where xs: "ch_buf (cr_results (rs_router s) rc) = res # xs"
    and r: "r = (rs_router s)\<lparr>cr_results := (cr_results (rs_router s))(rc := (cr_results (rs_router s) rc)\<lparr>ch_buf := xs\<rparr>)\<rparr>"
    using assms(3) by (auto simp: cr_dispatch_recv_def recv_chan_Some)
  have me: "in_flight s t cmd rc" by (simp add: assms(2))
  have mine: "in_flight s k c rc \<Longrightarrow> k = t" for k c
    by (rule I(10) [OF me])
  have res: "res_ID res = cmd_ID cmd"
    using I(8) [of res rc] I(9) [OF me] xs by simp
  have "xs = []" using I(7) [of rc] xs by simp
  have "pending_ok ?s"
    unfolding pending_ok_def
  proof (intro allI impI)
    fix i rc' assume "cr_pending (rs_router ?s) i = Some rc'"
    then have p: "cr_pending (rs_router s) i = Some rc'" by (simp add: r)
    with I(1) xs have "rc' \<noteq> rc" by force
    obtain k c where k: "in_flight s k c rc'" using I(3) [OF p] by blast
    then have "k \<noteq> t" using assms(2) \<open>rc' \<noteq> rc\<close> by auto
    with I(1) [OF p] I(2) [OF p] k \<open>rc' \<noteq> rc\<close> show "rc' < cr_nextr (rs_router ?s) \<and> rs_owner ?s rc' = i \<and>
       ch_buf (cr_results (rs_router ?s) rc') = [] \<and> (\<forall>u res. rs_subm ?s u \<noteq> SSending rc' res) \<and>
       (\<exists>t cmd. in_flight ?s t cmd rc')"
      by (auto simp: r)
  qed
  moreover have "submit_ok ?s" "result_ok ?s" "done_ok ?s"
    using I res xs \<open>xs = []\<close> by (auto simp: submit_ok_def result_ok_def done_ok_def r)
  moreover have "dispatch_ok ?s"
    using I(9,10) by (auto simp: dispatch_ok_def r)
  ultimately show ?thesis by (simp add: router_inv_def)
qed

lemma router_inv_take:
  assumes "router_inv s" and "rs_subm s u = SIdle" and "cr_submit_take (rs_router s) res = (r, Some ch)"
  shows "router_inv (s\<lparr>rs_router := r, rs_subm := (rs_subm s)(u := SSending ch res)\<rparr>)" (is "router_inv ?s")
proof -
  note I = router_invD [OF assms(1)]
  from assms(3) have p: "cr_pending (rs_router s) (res_ID res) = Some ch"
    and r: "r = (rs_router s)\<lparr>cr_pending := (cr_pending (rs_router s))(res_ID res := None)\<rparr>"
    by (auto simp: cr_submit_take_def split: option.splits)
  have other: "cr_pending (rs_router s) i = Some ch \<Longrightarrow> i = res_ID res" for i
    using I(1) [of i ch] I(1) [OF p] by simp
  have "pending_ok ?s"
    using I(1-3) other by (auto simp: pending_ok_def r)
  moreover have "submit_ok ?s"
    using I(2) [OF p] I(4,5) I(1) [OF p] by (auto simp: submit_ok_def r)
  moreover have "result_ok ?s" "done_ok ?s" "dispatch_ok ?s"
    using I(6-11) by (auto simp: result_ok_def done_ok_def dispatch_ok_def r)
  ultimately show ?thesis by (simp add: router_inv_def)
qed

lemma router_inv_submit:
  assumes "router_inv s" and "rs_subm s u = SSending ch res" and "cr_submit_send (rs_router s) ch res = Some r"
  shows "router_inv (s\<lparr>rs_router := r, rs_subm := (rs_subm s)(u := SIdle)\<rparr>)" (is "router_inv ?s")
proof -
  note I = router_invD [OF assms(1)]
  from assms(3) I(4) [OF assms(2)] have r: "r = (rs_router s)\<lparr>cr_results := (cr_results (rs_router s))(ch :=
      (cr_results (rs_router s) ch)\<lparr>ch_buf := [res]\<rparr>)\<rparr>"
    by (auto simp: cr_submit_send_def send_chan_def split: if_splits)
  have other: "cr_pending (rs_router s) i \<noteq> Some ch" for i
    using I(2) assms(2) by blast
  have mine: "rs_subm s v = SSending ch x \<Longrightarrow> v = u" for v x
    using I(5) [OF assms(2)] by blast
  have "pending_ok ?s"
    using I(1-3) other by (auto simp: pending_ok_def r)
  moreover have "submit_ok ?s"
    using I(4,5) mine by (auto simp: submit_ok_def r)
  moreover have "result_ok ?s" "done_ok ?s" "dispatch_ok ?s"
    using I(4) [OF assms(2)] I(6-11) by (auto simp: result_ok_def done_ok_def dispatch_ok_def r)
  ultimately show ?thesis by (simp add: router_inv_def)
qed

lemma router_inv_step: "router_step s t \<Longrightarrow> router_inv s \<Longrightarrow> router_inv t"
proof (induction rule: router_step.induct)
  case (dispatch s t d cmd ch rc r)
  then show ?case by (intro router_inv_dispatch)
next
  case (cancel_send s t cmd ch rc e)
  then show ?case by (intro router_inv_cancel) auto
next
  case (cancel_wait s t cmd rc e)
  then show ?case by (intro router_inv_cancel) auto
next
  case (return_result s t cmd rc res r)
  then show ?case by (intro router_inv_return)
next
  case (submit_take s u res r ch)
  then show ?case by (intro router_inv_take)
next
  case (submit_send s u ch res r)
  then show ?case by (intro router_inv_submit)
qed (erule router_inv_cong; auto simp: router_op_defs split: option.splits if_splits)+

lemma router_reachable_inv: "router_reachable s \<Longrightarrow> router_inv s"
  by (induction rule: router_reachable.induct) (auto intro: router_inv_init router_inv_step)


text \<open>Each command channel is a bounded queue: what was handed over and what waits is what was sent.\<close>

definition queue_inv :: "rsys \<Rightarrow> bool" where
  "queue_inv s \<longleftrightarrow> (\<forall>c. rs_handed s c @ ch_buf (cr_cmds (rs_router s) c) = rs_sent s c \<and>
     length (ch_buf (cr_cmds (rs_router s) c)) \<le> commandBuffer)"

lemma queue_inv_step: "router_step s t \<Longrightarrow> queue_inv s \<Longrightarrow> queue_inv t"
proof (induction rule: router_step.induct)
  case (hand_over s k d c cmd r)
  then obtain xs where xs: "ch_buf (cr_cmds (rs_router s) c) = cmd # xs"
    and r: "r = (rs_router s)\<lparr>cr_cmds := (cr_cmds (rs_router s))(c := (cr_cmds (rs_router s) c)\<lparr>ch_buf := xs\<rparr>)\<rparr>"
    by (auto simp: cr_stream_recv_def recv_chan_Some)
  have "rs_handed s c @ cmd # xs = rs_sent s c" and "length xs \<le> commandBuffer"
    using hand_over.prems xs by (auto simp: queue_inv_def dest: spec [of _ c])
  with hand_over.prems show ?case by (auto simp: queue_inv_def r)
next
  case (send s t cmd ch rc r)
  then show ?case
    by (auto simp: queue_inv_def cr_dispatch_send_def send_chan_Some can_send_def append_assoc [symmetric]
        simp del: append_assoc)
qed (auto simp: queue_inv_def router_op_defs make_chan_def close_chan_def split: if_splits option.splits)

lemma queue_inv_init: "queue_inv rs_init"
  by (simp add: queue_inv_def rs_init_def NewCommandRouter_def make_chan_def)

lemma queue_inv_reachable: "router_reachable s \<Longrightarrow> queue_inv s"
  by (induction rule: router_reachable.induct) (auto intro: queue_inv_init queue_inv_step)

section \<open>Properties\<close>

text \<open>A concrete run with two commands in flight, for the witnesses.\<close>

definition cmd1 :: Command where
  "cmd1 = \<lparr>cmd_ID = ''c1'', cmd_Name = ''reboot'', cmd_Params = []\<rparr>"

definition cmd2 :: Command where
  "cmd2 = \<lparr>cmd_ID = ''c2'', cmd_Name = ''blink'', cmd_Params = []\<rparr>"

definition res1 :: CommandResult where
  "res1 = \<lparr>res_ID = ''c1'', res_Success = True, res_Error = [], res_Result = PNull\<rparr>"

definition demo_run :: "raction list" where
  "demo_run = [AOpen 0 ''d'', ADispatch 0 ''d'' cmd1, ADispatch 1 ''d'' cmd2, ASend 1, ASend 0, AHand 0, AHand 0,
     ATake 0 res1, ASubmit 0, AReturn 0]"

lemmas demo_defs = demo_run_def cmd1_def cmd2_def res1_def rs_init_def NewCommandRouter_def make_chan_def
  recv_chan_def send_chan_def close_chan_def can_send_def commandBuffer_def router_op_defs

text \<open>C5. In every interleaving of streams, dispatches, cancellations and submitted
  results, a \<open>Dispatch\<close> that returns a result returns one submitted for its own command ID.\<close>

theorem dispatch_correlates:
  assumes "router_reachable s" and "rs_disp s t = DDone cmd (Inr res)"
  shows "res_ID res = cmd_ID cmd"
  using router_invD(11) [OF router_reachable_inv [OF assms(1)] assms(2)] .

theorem dispatch_correlates_witness:
  "\<exists>s. run_acts router_do demo_run rs_init = Some s \<and> rs_disp s 0 = DDone cmd1 (Inr res1) \<and> res_ID res1 = cmd_ID cmd1"
proof -
  obtain s where s: "run_acts router_do demo_run rs_init = Some s" and d: "rs_disp s 0 = DDone cmd1 (Inr res1)"
    by (simp add: demo_defs)
  with dispatch_correlates [OF router_run_reachable [OF s] d] show ?thesis by blast
qed

text \<open>\<open>SubmitResult\<close> never blocks: whenever it has taken a pending entry, the
  one-place result channel it sends to is open and empty, so the send is enabled and does not panic.\<close>

theorem submit_never_blocks:
  assumes "router_reachable s" and "rs_subm s u = SSending ch res"
  shows "can_send 1 (cr_results (rs_router s) ch) \<and> cr_submit_send (rs_router s) ch res \<noteq> None"
  using router_invD(4,6) [OF router_reachable_inv [OF assms(1)]] assms(2)
  by (auto simp: can_send_def cr_submit_send_def send_chan_def)

theorem submit_never_blocks_witness:
  "\<exists>s. run_acts router_do (take 8 demo_run) rs_init = Some s \<and>
     can_send 1 (cr_results (rs_router s) 0) \<and> cr_submit_send (rs_router s) 0 res1 \<noteq> None"
proof -
  obtain s where s: "run_acts router_do (take 8 demo_run) rs_init = Some s" and d: "rs_subm s 0 = SSending 0 res1"
    by (simp add: demo_defs)
  with submit_never_blocks [OF router_run_reachable [OF s] d] show ?thesis by blast
qed

text \<open>Pending entries do not leak: every entry of the router's pending map belongs to a
  \<open>Dispatch\<close> call that has not returned, and was made for its command ID.\<close>

theorem pending_is_in_flight:
  assumes "router_reachable s" and "cr_pending (rs_router s) i = Some rc"
  shows "\<exists>t cmd. in_flight s t cmd rc \<and> cmd_ID cmd = i"
proof -
  note I = router_invD [OF router_reachable_inv [OF assms(1)]]
  from I(3) [OF assms(2)] obtain t cmd where t: "in_flight s t cmd rc" by blast
  with I(9) [OF t] I(1) [OF assms(2)] show ?thesis by auto
qed

theorem pending_is_in_flight_witness:
  "\<exists>s. run_acts router_do (take 5 demo_run) rs_init = Some s \<and> cr_pending (rs_router s) ''c2'' = Some 1 \<and>
     (\<exists>t cmd. in_flight s t cmd 1 \<and> cmd_ID cmd = ''c2'')"
proof -
  obtain s where s: "run_acts router_do (take 5 demo_run) rs_init = Some s"
    and d: "cr_pending (rs_router s) ''c2'' = Some 1"
    by (simp add: demo_defs)
  with pending_is_in_flight [OF router_run_reachable [OF s] d] show ?thesis by blast
qed

text \<open>Commands reach a device's stream in the order in which the channel accepted
  them, none lost, repeated or invented, and at most eight wait at a time.\<close>

theorem commands_fifo:
  assumes "router_reachable s"
  shows "rs_handed s c @ ch_buf (cr_cmds (rs_router s) c) = rs_sent s c \<and>
    length (ch_buf (cr_cmds (rs_router s) c)) \<le> commandBuffer"
  using queue_inv_reachable [OF assms] by (simp add: queue_inv_def)

theorem commands_fifo_witness:
  "\<exists>s. run_acts router_do (take 6 demo_run) rs_init = Some s \<and> rs_sent s 0 = [cmd2, cmd1] \<and> rs_handed s 0 = [cmd2] \<and>
     rs_handed s 0 @ ch_buf (cr_cmds (rs_router s) 0) = rs_sent s 0 \<and>
     length (ch_buf (cr_cmds (rs_router s) 0)) \<le> commandBuffer"
proof -
  obtain s where s: "run_acts router_do (take 6 demo_run) rs_init = Some s"
    and d: "rs_sent s 0 = [cmd2, cmd1]" "rs_handed s 0 = [cmd2]"
    by (simp add: demo_defs)
  with commands_fifo [OF router_run_reachable [OF s]] show ?thesis by blast
qed



text \<open>A \<open>Dispatch\<close> that looked its channel up before the device's stream ended can send
  on the channel after it was closed: the send panics and takes the process down.\<close>

theorem dispatch_can_panic:
  "\<exists>s. run_acts router_do [AOpen 0 ''d'', ADispatch 0 ''d'' cmd1, ADrop 0, AClose 0, ASend 0] rs_init = Some s \<and>
     router_reachable s \<and> rs_disp s 0 = DPanic cmd1 0"
proof -
  obtain s where s: "run_acts router_do [AOpen 0 ''d'', ADispatch 0 ''d'' cmd1, ADrop 0, AClose 0, ASend 0] rs_init = Some s"
    and d: "rs_disp s 0 = DPanic cmd1 0"
    by (simp add: demo_defs)
  with router_run_reachable [OF s] show ?thesis by blast
qed

end
