(* ===== verification/Json.thy ===== *)
theory Json
  imports Api_Types
begin

text \<open>
  Values of Go's \<open>encoding/json\<close> as trees. The textual layer is Go's; what the gateway's
  code decides is which tree it writes and how it reads one. A number literal is an integer
  literal, the literal \<open>-0\<close>, or one with a fraction or an exponent, of which only the double it
  denotes matters. Decoding into a struct walks the object in order, matches keys without
  regard to (ASCII) case and ignores unknown ones; a value of the wrong type makes the
  whole decoding fail.
\<close>

datatype jnum = NInt int | NNegZero | NFloat float64

datatype json =
    JNull | JBool bool | JNum jnum | JStr string | JArr "json list" | JObj "(string \<times> json) list"
  | JTime time        \<comment> \<open>a string that is an RFC 3339 instant\<close>
  | JB64 "byte list"  \<comment> \<open>a string that is the standard base64 form of these bytes\<close>

definition EqualFold :: "string \<Rightarrow> string \<Rightarrow> bool" where
  "EqualFold s t \<longleftrightarrow> ToLower s = ToLower t"

text \<open>Folding a decoder over the members of an object, or over the elements of an array.\<close>

fun dec_fold :: "('x \<Rightarrow> 'a \<Rightarrow> 'a option) \<Rightarrow> 'x list \<Rightarrow> 'a \<Rightarrow> 'a option" where
  "dec_fold f [] a = Some a"
| "dec_fold f (x # xs) a = (case f x a of None \<Rightarrow> None | Some b \<Rightarrow> dec_fold f xs b)"

fun dec_list :: "(json \<Rightarrow> 'a option) \<Rightarrow> json list \<Rightarrow> 'a list option" where
  "dec_list f [] = Some []"
| "dec_list f (x # xs) =
     (case f x of None \<Rightarrow> None | Some a \<Rightarrow> map_option (\<lambda>as. a # as) (dec_list f xs))"

text \<open>Scalars: \<open>null\<close> leaves the destination as it was.\<close>

fun dec_string :: "json \<Rightarrow> string \<Rightarrow> string option" where
  "dec_string (JStr s) old = Some s"
| "dec_string JNull old = Some old"
| "dec_string _ old = None"

fun dec_bool :: "json \<Rightarrow> bool \<Rightarrow> bool option" where
  "dec_bool (JBool b) old = Some b"
| "dec_bool JNull old = Some old"
| "dec_bool _ old = None"

definition int64_range :: "int \<Rightarrow> bool" where
  "int64_range n \<longleftrightarrow> - (2 ^ 63) \<le> n \<and> n < 2 ^ 63"

fun dec_int :: "json \<Rightarrow> int \<Rightarrow> int option" where
  "dec_int (JNum (NInt n)) old = (if int64_range n then Some n else None)"
| "dec_int (JNum NNegZero) old = Some 0"
| "dec_int JNull old = Some old"
| "dec_int _ old = None"

text \<open>A number literal as a double; one beyond the range of a double is an error.\<close>

fun num_float :: "jnum \<Rightarrow> float64" where
  "num_float (NInt n) = f_of_int n"
| "num_float NNegZero = FZero True"
| "num_float (NFloat f) = f"

fun f_finite :: "float64 \<Rightarrow> bool" where
  "f_finite FNaN = False"
| "f_finite (FInf s) = False"
| "f_finite (FZero s) = True"
| "f_finite (FFin q) = True"

fun dec_float :: "json \<Rightarrow> float64 \<Rightarrow> float64 option" where
  "dec_float (JNum n) old = (if f_finite (num_float n) then Some (num_float n) else None)"
| "dec_float JNull old = Some old"
| "dec_float _ old = None"

text \<open>A pointer: \<open>null\<close> makes it nil, anything else a fresh target when it was nil.\<close>

fun dec_ptr :: "(json \<Rightarrow> 'a \<Rightarrow> 'a option) \<Rightarrow> 'a \<Rightarrow> json \<Rightarrow> 'a option \<Rightarrow> 'a option option" where
  "dec_ptr f z JNull old = Some None"
| "dec_ptr f z j old = map_option Some (f j (case old of None \<Rightarrow> z | Some a \<Rightarrow> a))"

text \<open>A \<open>map[string]string\<close>: \<open>null\<close> makes it nil, an object adds to what is there.\<close>

fun dec_string_map :: "json \<Rightarrow> (string, string) gomap option \<Rightarrow> (string, string) gomap option option" where
  "dec_string_map JNull old = Some None"
| "dec_string_map (JObj kvs) old =
     map_option Some (dec_fold (\<lambda>(k, v) m. map_option (\<lambda>s. gm_put k s m) (dec_string v [])) kvs
       (case old of None \<Rightarrow> [] | Some m \<Rightarrow> m))"
| "dec_string_map _ old = None"

definition enc_string_map :: "(string, string) gomap option \<Rightarrow> json" where
  "enc_string_map m = (case m of None \<Rightarrow> JNull | Some kvs \<Rightarrow> JObj (map (\<lambda>(k, v). (k, JStr v)) kvs))"

text \<open>\<open>time.Time\<close> marshals only in the years 0 to 9999; the leaf is the instant.\<close>

definition year_ns :: "int \<Rightarrow> int" where
  "year_ns days = days * 86400 * second"

fun dec_time :: "json \<Rightarrow> time \<Rightarrow> time option" where
  "dec_time (JTime t) old = Some t"
| "dec_time JNull old = Some old"
| "dec_time _ old = None"

fun dec_bytes :: "json \<Rightarrow> byte list option \<Rightarrow> byte list option option" where
  "dec_bytes (JB64 b) old = Some (Some b)"
| "dec_bytes (JStr s) old = (if s = [] then Some (Some []) else None)"
| "dec_bytes JNull old = Some None"
| "dec_bytes _ old = None"

definition enc_bytes :: "byte list option \<Rightarrow> json" where
  "enc_bytes b = (case b of None \<Rightarrow> JNull | Some bs \<Rightarrow> JB64 bs)"

definition json_time_ok :: "time \<Rightarrow> bool" where
  "json_time_ok t \<longleftrightarrow> year_ns (- 366) \<le> t \<and> t < year_ns 3652059"

lemma dec_fold_append:
  "dec_fold f (xs @ ys) a = (case dec_fold f xs a of None \<Rightarrow> None | Some b \<Rightarrow> dec_fold f ys b)"
  by (induction xs arbitrary: a) (auto split: option.splits)

lemma dec_list_map: "(\<And>x. x \<in> set xs \<Longrightarrow> f (g x) = Some (h x)) \<Longrightarrow> dec_list f (map g xs) = Some (map h xs)"
  by (induction xs) auto

lemma gm_put_new: "k \<notin> fst ` set m \<Longrightarrow> gm_put k v m = m @ [(k, v)]"
  by (induction m) auto

text \<open>Writing a map and reading it into a nil map gives it back.\<close>

lemma dec_string_map_fold:
  assumes "distinct (map fst (m @ kvs))"
  shows "dec_fold (\<lambda>(k, v) m. map_option (\<lambda>s. gm_put k s m) (dec_string v [])) (map (\<lambda>(k, v). (k, JStr v)) kvs) m
     = Some (m @ kvs)"
  using assms
proof (induction kvs arbitrary: m)
  case Nil
  then show ?case by simp
next
  case (Cons kv kvs)
  obtain k v where kv: "kv = (k, v)" by (cases kv)
  from Cons.prems kv have "k \<notin> fst ` set m" by auto
  with Cons.IH [of "m @ [(k, v)]"] Cons.prems kv show ?case by (simp add: gm_put_new)
qed

lemma dec_enc_string_map: "(\<And>m'. m = Some m' \<Longrightarrow> gm_ok m') \<Longrightarrow> dec_string_map (enc_string_map m) None = Some m"
  by (cases m) (auto simp: enc_string_map_def gm_ok_def dec_string_map_fold [of "[]", simplified])

text \<open>
  A finite double as a number literal: an integral one below 2 to the 53 prints as an integer literal,
  any other one as a literal that denotes it. NaN and the infinities do not marshal.
\<close>

definition int_literal :: "rat \<Rightarrow> bool" where
  "int_literal q \<longleftrightarrow> of_int \<lfloor>q\<rfloor> = q \<and> q \<noteq> 0 \<and> \<bar>\<lfloor>q\<rfloor>\<bar> < 2 ^ 53"

definition enc_float :: "float64 \<Rightarrow> json option" where
  "enc_float f =
     (case f of
        FNaN \<Rightarrow> None
      | FInf s \<Rightarrow> None
      | FZero s \<Rightarrow> Some (JNum (if s then NNegZero else NInt 0))
      | FFin q \<Rightarrow> Some (JNum (if int_literal q then NInt \<lfloor>q\<rfloor> else NFloat f)))"

lemma int_literal_exact: "int_literal q \<Longrightarrow> f_of_int \<lfloor>q\<rfloor> = FFin q"
  using f_of_int_exact [of "\<lfloor>q\<rfloor>"] by (auto simp: int_literal_def)

lemma dec_enc_float: "enc_float f = Some j \<Longrightarrow> dec_float j old = Some f"
  by (cases f) (auto simp: enc_float_def int_literal_exact split: if_splits)

end
