(* ===== verification/Registry.thy ===== *)
theory Registry
  imports Json
begin

text \<open>
  The device registry: the interface of \<open>internal/registry/registry.go\<close> as a record of
  operations over a state, its in-memory implementation, and the bbolt-backed one of
  \<open>internal/registry/bbolt.go\<close>. bbolt itself is third-party code: a bucket is a record of
  operations, the locale \<open>bucket\<close> states what its documentation promises, and every
  definition that uses a bucket takes the operations as an argument. The locale
  \<open>registry_contract\<close> is the interface the device service and the heartbeat monitor rely on;
  both registries meet it, so both answer every run of operations alike.
\<close>

section \<open>The interface\<close>

record ListFilter =
  lf_Capability :: string
  lf_Transport :: string
  lf_Tag :: string
  lf_Online :: "bool option"

definition zero_ListFilter :: ListFilter where
  "zero_ListFilter = \<lparr>lf_Capability = [], lf_Transport = [], lf_Tag = [], lf_Online = None\<rparr>"

record 's registry_ops =
  rg_Register :: "'s \<Rightarrow> Device \<Rightarrow> 's \<times> (fault + Device)"
  rg_Get :: "'s \<Rightarrow> string \<Rightarrow> fault + Device"
  rg_List :: "'s \<Rightarrow> ListFilter \<Rightarrow> fault + Device list"
  rg_Delete :: "'s \<Rightarrow> string \<Rightarrow> 's \<times> fault option"
  rg_UpdateStatus :: "'s \<Rightarrow> string \<Rightarrow> DeviceStatus \<Rightarrow> time \<Rightarrow> 's \<times> fault option"
  rg_UpdateACL :: "'s \<Rightarrow> string \<Rightarrow> ACLEntry list \<Rightarrow> 's \<times> fault option"

definition matchesFilter :: "Device \<Rightarrow> ListFilter \<Rightarrow> bool" where
  "matchesFilter d f =
     (if lf_Capability f \<noteq> [] \<and> dev_Capability d \<noteq> lf_Capability f then False
      else if lf_Transport f \<noteq> [] \<and> dev_Transport d \<noteq> lf_Transport f then False
      else if lf_Tag f \<noteq> [] \<and> label_lookup d (lf_Tag f) = None then False
      else if (case lf_Online f of None \<Rightarrow> False | Some b \<Rightarrow> (dev_Status d = DeviceStatusOnline) \<noteq> b) then False
      else True)"

abbreviation ErrNotFound :: fault where
  "ErrNotFound \<equiv> Fault [RegE RegErrNotFound]"

abbreviation ErrAlreadyExists :: fault where
  "ErrAlreadyExists \<equiv> Fault [RegE RegErrAlreadyExists]"

text \<open>\<open>fmt.Sprintf("dev-%05d", n)\<close>.\<close>

definition gen_id :: "nat \<Rightarrow> string" where
  "gen_id n = ''dev-'' @ pad5 (dec_digits n)"

text \<open>What both implementations do to a device before storing it.\<close>

definition init_device :: "Device \<Rightarrow> Device" where
  "init_device d =
     (let d1 = (if dev_Labels d = None then d\<lparr>dev_Labels := Some []\<rparr> else d)
      in d1\<lparr>dev_Status := DeviceStatusUnknown\<rparr>)"

section \<open>The in-memory registry\<close>

record MemoryRegistry =
  mr_devices :: "(string, Device) gomap"
  mr_nextID :: nat

definition NewMemoryRegistry :: MemoryRegistry where
  "NewMemoryRegistry = \<lparr>mr_devices = [], mr_nextID = 0\<rparr>"

definition mr_Register :: "MemoryRegistry \<Rightarrow> Device \<Rightarrow> MemoryRegistry \<times> (fault + Device)" where
  "mr_Register r d =
     (let (r1, d1) = (if dev_ID d = []
                      then (r\<lparr>mr_nextID := Suc (mr_nextID r)\<rparr>, d\<lparr>dev_ID := gen_id (Suc (mr_nextID r))\<rparr>)
                      else (r, d))
      in if gm_get (mr_devices r1) (dev_ID d1) \<noteq> None then (r1, Inl ErrAlreadyExists)
         else let d2 = init_device d1
              in (r1\<lparr>mr_devices := gm_put (dev_ID d2) d2 (mr_devices r1)\<rparr>, Inr d2))"

definition mr_Get :: "MemoryRegistry \<Rightarrow> string \<Rightarrow> fault + Device" where
  "mr_Get r i = (case gm_get (mr_devices r) i of None \<Rightarrow> Inl ErrNotFound | Some d \<Rightarrow> Inr d)"

definition mr_List :: "MemoryRegistry \<Rightarrow> ListFilter \<Rightarrow> fault + Device list" where
  "mr_List r f = Inr (filter (\<lambda>d. matchesFilter d f) (map snd (mr_devices r)))"

definition mr_Delete :: "MemoryRegistry \<Rightarrow> string \<Rightarrow> MemoryRegistry \<times> fault option" where
  "mr_Delete r i =
     (case gm_get (mr_devices r) i of
        None \<Rightarrow> (r, Some ErrNotFound)
      | Some d \<Rightarrow> (r\<lparr>mr_devices := gm_del i (mr_devices r)\<rparr>, None))"

definition mr_UpdateStatus ::
    "MemoryRegistry \<Rightarrow> string \<Rightarrow> DeviceStatus \<Rightarrow> time \<Rightarrow> MemoryRegistry \<times> fault option" where
  "mr_UpdateStatus r i st t =
     (case gm_get (mr_devices r) i of
        None \<Rightarrow> (r, Some ErrNotFound)
      | Some d \<Rightarrow> (r\<lparr>mr_devices := gm_put i (d\<lparr>dev_Status := st, dev_LastSeen := t\<rparr>) (mr_devices r)\<rparr>, None))"

definition mr_UpdateACL :: "MemoryRegistry \<Rightarrow> string \<Rightarrow> ACLEntry list \<Rightarrow> MemoryRegistry \<times> fault option" where
  "mr_UpdateACL r i acl =
     (case gm_get (mr_devices r) i of
        None \<Rightarrow> (r, Some ErrNotFound)
      | Some d \<Rightarrow> (r\<lparr>mr_devices := gm_put i (d\<lparr>dev_ACL := acl\<rparr>) (mr_devices r)\<rparr>, None))"

definition mr_ops :: "MemoryRegistry registry_ops" where
  "mr_ops = \<lparr>rg_Register = mr_Register, rg_Get = mr_Get, rg_List = mr_List, rg_Delete = mr_Delete,
     rg_UpdateStatus = mr_UpdateStatus, rg_UpdateACL = mr_UpdateACL\<rparr>"

section \<open>The stored form of a device\<close>

text \<open>\<open>json.Marshal\<close> and \<open>json.Unmarshal\<close> of \<open>api.Device\<close>.\<close>

fun status_int :: "DeviceStatus \<Rightarrow> int" where
  "status_int DeviceStatusUnknown = 0"
| "status_int DeviceStatusOnline = 1"
| "status_int DeviceStatusOffline = 2"

text \<open>Any other number is treated as unknown by every reader of the status.\<close>

definition int_status :: "int \<Rightarrow> DeviceStatus" where
  "int_status n = (if n = 1 then DeviceStatusOnline else if n = 2 then DeviceStatusOffline else DeviceStatusUnknown)"

definition enc_acl :: "ACLEntry \<Rightarrow> json" where
  "enc_acl e = JObj [(''Subject'', JStr (acl_Subject e)), (''Allow'', JBool (acl_Allow e))]"

definition marshal_Device :: "Device \<Rightarrow> json option" where
  "marshal_Device d =
     (if json_time_ok (dev_LastSeen d)
      then Some (JObj [(''ID'', JStr (dev_ID d)), (''Name'', JStr (dev_Name d)), (''Capability'', JStr (dev_Capability d)),
        (''Transport'', JStr (dev_Transport d)), (''Status'', JNum (NInt (status_int (dev_Status d)))),
        (''LastSeen'', JTime (dev_LastSeen d)), (''Labels'', enc_string_map (dev_Labels d)),
        (''ACL'', if dev_ACL d = [] then JNull else JArr (map enc_acl (dev_ACL d)))])
      else None)"

definition dec_acl_field :: "string \<times> json \<Rightarrow> ACLEntry \<Rightarrow> ACLEntry option" where
  "dec_acl_field kv e =
     (if EqualFold (fst kv) ''Subject'' then map_option (\<lambda>s. e\<lparr>acl_Subject := s\<rparr>) (dec_string (snd kv) (acl_Subject e))
      else if EqualFold (fst kv) ''Allow'' then map_option (\<lambda>b. e\<lparr>acl_Allow := b\<rparr>) (dec_bool (snd kv) (acl_Allow e))
      else Some e)"

fun dec_acl :: "json \<Rightarrow> ACLEntry option" where
  "dec_acl (JObj kvs) = dec_fold dec_acl_field kvs \<lparr>acl_Subject = [], acl_Allow = False\<rparr>"
| "dec_acl JNull = Some \<lparr>acl_Subject = [], acl_Allow = False\<rparr>"
| "dec_acl _ = None"

fun dec_acls :: "json \<Rightarrow> ACLEntry list option" where
  "dec_acls JNull = Some []"
| "dec_acls (JArr js) = dec_list dec_acl js"
| "dec_acls _ = None"

definition dec_Device_field :: "string \<times> json \<Rightarrow> Device \<Rightarrow> Device option" where
  "dec_Device_field kv d =
     (let k = fst kv; v = snd kv in
      if EqualFold k ''ID'' then map_option (\<lambda>s. d\<lparr>dev_ID := s\<rparr>) (dec_string v (dev_ID d))
      else if EqualFold k ''Name'' then map_option (\<lambda>s. d\<lparr>dev_Name := s\<rparr>) (dec_string v (dev_Name d))
      else if EqualFold k ''Capability'' then map_option (\<lambda>s. d\<lparr>dev_Capability := s\<rparr>) (dec_string v (dev_Capability d))
      else if EqualFold k ''Transport'' then map_option (\<lambda>s. d\<lparr>dev_Transport := s\<rparr>) (dec_string v (dev_Transport d))
      else if EqualFold k ''Status'' then
        map_option (\<lambda>n. d\<lparr>dev_Status := int_status n\<rparr>) (dec_int v (status_int (dev_Status d)))
      else if EqualFold k ''LastSeen'' then map_option (\<lambda>t. d\<lparr>dev_LastSeen := t\<rparr>) (dec_time v (dev_LastSeen d))
      else if EqualFold k ''Labels'' then map_option (\<lambda>m. d\<lparr>dev_Labels := m\<rparr>) (dec_string_map v (dev_Labels d))
      else if EqualFold k ''ACL'' then map_option (\<lambda>a. d\<lparr>dev_ACL := a\<rparr>) (dec_acls v)
      else Some d)"

fun unmarshal_Device :: "json \<Rightarrow> Device option" where
  "unmarshal_Device (JObj kvs) = dec_fold dec_Device_field kvs zero_Device"
| "unmarshal_Device JNull = Some zero_Device"
| "unmarshal_Device _ = None"

section \<open>The bbolt registry\<close>

text \<open>
  A bucket of \<open>go.etcd.io/bbolt\<close> with JSON documents as values. \<open>bk_items\<close> is the order in
  which \<open>ForEach\<close> visits it. A write transaction (\<open>db.Update\<close>) keeps its changes when its
  function returns nil and rolls all of them back otherwise.
\<close>

record 'b bucket_ops =
  bk_Get :: "'b \<Rightarrow> string \<Rightarrow> json option"
  bk_Put :: "'b \<Rightarrow> string \<Rightarrow> json \<Rightarrow> fault + 'b"
  bk_Delete :: "'b \<Rightarrow> string \<Rightarrow> fault + 'b"
  bk_items :: "'b \<Rightarrow> (string \<times> json) list"
  bk_NextSequence :: "'b \<Rightarrow> fault + (nat \<times> 'b)"

definition db_Update :: "'b \<Rightarrow> ('b \<Rightarrow> fault + ('b \<times> 'a)) \<Rightarrow> 'b \<times> (fault + 'a)" where
  "db_Update b tx = (case tx b of Inl e \<Rightarrow> (b, Inl e) | Inr (b', a) \<Rightarrow> (b', Inr a))"

definition err_of :: "'b \<times> (fault + unit) \<Rightarrow> 'b \<times> fault option" where
  "err_of r = (fst r, case snd r of Inl e \<Rightarrow> Some e | Inr _ \<Rightarrow> None)"

definition bolt_store :: "'b bucket_ops \<Rightarrow> 'b \<Rightarrow> string \<Rightarrow> Device \<Rightarrow> fault + 'b" where
  "bolt_store B b i d = (case marshal_Device d of None \<Rightarrow> Inl opaque_fault | Some j \<Rightarrow> bk_Put B b i j)"

definition bolt_Register_tx :: "'b bucket_ops \<Rightarrow> Device \<Rightarrow> 'b \<Rightarrow> fault + ('b \<times> Device)" where
  "bolt_Register_tx B d b =
     (case (if dev_ID d = [] then
              (case bk_NextSequence B b of
                 Inl e \<Rightarrow> Inl e
               | Inr (n, b') \<Rightarrow> Inr (b', d\<lparr>dev_ID := gen_id n\<rparr>))
            else Inr (b, d)) of
        Inl e \<Rightarrow> Inl e
      | Inr (b1, d1) \<Rightarrow>
          if bk_Get B b1 (dev_ID d1) \<noteq> None then Inl ErrAlreadyExists
          else let d2 = init_device d1
               in map_sum id (\<lambda>b2. (b2, d2)) (bolt_store B b1 (dev_ID d2) d2))"

definition bolt_Register :: "'b bucket_ops \<Rightarrow> 'b \<Rightarrow> Device \<Rightarrow> 'b \<times> (fault + Device)" where
  "bolt_Register B b d = db_Update b (bolt_Register_tx B d)"

definition bolt_Get :: "'b bucket_ops \<Rightarrow> 'b \<Rightarrow> string \<Rightarrow> fault + Device" where
  "bolt_Get B b i =
     (case bk_Get B b i of
        None \<Rightarrow> Inl ErrNotFound
      | Some j \<Rightarrow> (case unmarshal_Device j of None \<Rightarrow> Inl opaque_fault | Some d \<Rightarrow> Inr d))"

fun bolt_each :: "ListFilter \<Rightarrow> (string \<times> json) list \<Rightarrow> fault + Device list" where
  "bolt_each f [] = Inr []"
| "bolt_each f ((k, j) # kvs) =
     (case unmarshal_Device j of
        None \<Rightarrow> Inl opaque_fault
      | Some d \<Rightarrow> map_sum id (\<lambda>ds. if matchesFilter d f then d # ds else ds) (bolt_each f kvs))"

definition bolt_List :: "'b bucket_ops \<Rightarrow> 'b \<Rightarrow> ListFilter \<Rightarrow> fault + Device list" where
  "bolt_List B b f = bolt_each f (bk_items B b)"

definition bolt_Delete :: "'b bucket_ops \<Rightarrow> 'b \<Rightarrow> string \<Rightarrow> 'b \<times> fault option" where
  "bolt_Delete B b i =
     err_of (db_Update b (\<lambda>b. if bk_Get B b i = None then Inl ErrNotFound
       else map_sum id (\<lambda>b'. (b', ())) (bk_Delete B b i)))"

text \<open>The read-modify-write transaction of \<open>UpdateStatus\<close> and \<open>UpdateACL\<close>.\<close>

definition bolt_modify :: "'b bucket_ops \<Rightarrow> 'b \<Rightarrow> string \<Rightarrow> (Device \<Rightarrow> Device) \<Rightarrow> 'b \<times> fault option" where
  "bolt_modify B b i g =
     err_of (db_Update b (\<lambda>b.
       case bk_Get B b i of
         None \<Rightarrow> Inl ErrNotFound
       | Some j \<Rightarrow>
           (case unmarshal_Device j of
              None \<Rightarrow> Inl opaque_fault
            | Some d \<Rightarrow> map_sum id (\<lambda>b'. (b', ())) (bolt_store B b i (g d)))))"

definition bolt_UpdateStatus :: "'b bucket_ops \<Rightarrow> 'b \<Rightarrow> string \<Rightarrow> DeviceStatus \<Rightarrow> time \<Rightarrow> 'b \<times> fault option" where
  "bolt_UpdateStatus B b i st t = bolt_modify B b i (\<lambda>d. d\<lparr>dev_Status := st, dev_LastSeen := t\<rparr>)"

definition bolt_UpdateACL :: "'b bucket_ops \<Rightarrow> 'b \<Rightarrow> string \<Rightarrow> ACLEntry list \<Rightarrow> 'b \<times> fault option" where
  "bolt_UpdateACL B b i acl = bolt_modify B b i (\<lambda>d. d\<lparr>dev_ACL := acl\<rparr>)"

definition bolt_ops :: "'b bucket_ops \<Rightarrow> 'b registry_ops" where
  "bolt_ops B = \<lparr>rg_Register = bolt_Register B, rg_Get = bolt_Get B, rg_List = bolt_List B, rg_Delete = bolt_Delete B,
     rg_UpdateStatus = bolt_UpdateStatus B, rg_UpdateACL = bolt_UpdateACL B\<rparr>"

section \<open>The stored form reads back\<close>

definition device_ok :: "Device \<Rightarrow> bool" where
  "device_ok d \<longleftrightarrow> json_time_ok (dev_LastSeen d) \<and> (case dev_Labels d of None \<Rightarrow> True | Some m \<Rightarrow> gm_ok m)"

lemma int_status_int [simp]: "int_status (status_int s) = s"
  by (cases s) (simp_all add: int_status_def)

lemma status_int_range [simp]: "int64_range (status_int s)"
  by (cases s) (simp_all add: int64_range_def)

lemma dec_acl_enc [simp]: "dec_acl (enc_acl e) = Some e"
  by (simp add: enc_acl_def dec_acl_field_def EqualFold_def ToLower_def to_lower_def)

lemma dec_acls_enc: "dec_acls (if a = [] then JNull else JArr (map enc_acl a)) = Some a"
  using dec_list_map [of a dec_acl enc_acl "\<lambda>e. e"] by simp

lemma unmarshal_marshal:
  assumes "device_ok d" and "marshal_Device d = Some j"
  shows "unmarshal_Device j = Some d"
proof -
  have "dec_string_map (enc_string_map (dev_Labels d)) None = Some (dev_Labels d)"
    using assms(1) by (intro dec_enc_string_map) (auto simp: device_ok_def split: option.splits)
  with assms dec_acls_enc [of "dev_ACL d"] show ?thesis
    by (auto simp: marshal_Device_def zero_Device_def dec_Device_field_def Let_def EqualFold_def ToLower_def to_lower_def
        split: if_splits)
qed

section \<open>The contract\<close>

text \<open>
  \<open>devs s\<close> is the table of devices a state stands for, \<open>inv\<close> its invariant and \<open>storable\<close> the
  devices the implementation can hold. A failed operation leaves the table alone.
\<close>

definition wf_labels :: "Device \<Rightarrow> bool" where
  "wf_labels d \<longleftrightarrow> (case dev_Labels d of None \<Rightarrow> True | Some m \<Rightarrow> gm_ok m)"

definition modified :: "(Device \<Rightarrow> bool) \<Rightarrow> (string \<rightharpoonup> Device) \<Rightarrow> string \<Rightarrow> (Device \<Rightarrow> Device) \<Rightarrow>
    (string \<rightharpoonup> Device) \<Rightarrow> fault option \<Rightarrow> bool" where
  "modified storable m i g m' e \<longleftrightarrow>
     (case m i of
        None \<Rightarrow> e = Some ErrNotFound \<and> m' = m
      | Some d \<Rightarrow> if storable (g d) then e = None \<and> m' = m(i \<mapsto> g d) else e \<noteq> None \<and> m' = m)"

definition registered :: "(Device \<Rightarrow> bool) \<Rightarrow> (string \<rightharpoonup> Device) \<Rightarrow> Device \<Rightarrow>
    (string \<rightharpoonup> Device) \<Rightarrow> fault + Device \<Rightarrow> bool" where
  "registered storable m d m' r \<longleftrightarrow>
     (case m (dev_ID d) of
        Some _ \<Rightarrow> r = Inl ErrAlreadyExists \<and> m' = m
      | None \<Rightarrow>
          if storable (init_device d) then r = Inr (init_device d) \<and> m' = m(dev_ID d \<mapsto> init_device d)
          else (\<exists>e. r = Inl e) \<and> m' = m)"

locale registry_contract =
  fixes R :: "'s registry_ops" and devs :: "'s \<Rightarrow> string \<rightharpoonup> Device" and inv :: "'s \<Rightarrow> bool"
    and storable :: "Device \<Rightarrow> bool"
  assumes get_law: "inv s \<Longrightarrow> rg_Get R s i = (case devs s i of None \<Rightarrow> Inl ErrNotFound | Some d \<Rightarrow> Inr d)"
    and list_law: "inv s \<Longrightarrow> \<exists>ds. rg_List R s f = Inr ds \<and> distinct (map dev_ID ds) \<and>
          set ds = {d \<in> ran (devs s). matchesFilter d f}"
    and own_id: "inv s \<Longrightarrow> devs s i = Some d \<Longrightarrow> dev_ID d = i \<and> wf_labels d"
    and delete_law: "inv s \<Longrightarrow> rg_Delete R s i = (s', e) \<Longrightarrow>
          inv s' \<and> devs s' = (devs s)(i := None) \<and> e = (if devs s i = None then Some ErrNotFound else None)"
    and status_law: "inv s \<Longrightarrow> rg_UpdateStatus R s i st t = (s', e) \<Longrightarrow>
          inv s' \<and> modified storable (devs s) i (\<lambda>d. d\<lparr>dev_Status := st, dev_LastSeen := t\<rparr>) (devs s') e"
    and acl_law: "inv s \<Longrightarrow> rg_UpdateACL R s i acl = (s', e) \<Longrightarrow>
          inv s' \<and> modified storable (devs s) i (\<lambda>d. d\<lparr>dev_ACL := acl\<rparr>) (devs s') e"
    and register_law: "inv s \<Longrightarrow> wf_labels d \<Longrightarrow> dev_ID d \<noteq> [] \<Longrightarrow> rg_Register R s d = (s', r) \<Longrightarrow>
          inv s' \<and> registered storable (devs s) d (devs s') r"
    and register_auto: "inv s \<Longrightarrow> wf_labels d \<Longrightarrow> dev_ID d = [] \<Longrightarrow> rg_Register R s d = (s', r) \<Longrightarrow>
          inv s' \<and> (\<exists>n. registered storable (devs s) (d\<lparr>dev_ID := gen_id n\<rparr>) (devs s') r)"
begin

lemma list_online:
  assumes "inv s"
  obtains ds where "rg_List R s (zero_ListFilter\<lparr>lf_Online := Some True\<rparr>) = Inr ds" and "distinct (map dev_ID ds)"
    and "\<And>d. d \<in> set ds \<longleftrightarrow> devs s (dev_ID d) = Some d \<and> dev_Status d = DeviceStatusOnline"
proof -
  obtain ds where ds: "rg_List R s (zero_ListFilter\<lparr>lf_Online := Some True\<rparr>) = Inr ds" "distinct (map dev_ID ds)"
    "set ds = {d \<in> ran (devs s). matchesFilter d (zero_ListFilter\<lparr>lf_Online := Some True\<rparr>)}"
    using list_law [OF assms] by blast
  moreover have "d \<in> ran (devs s) \<longleftrightarrow> devs s (dev_ID d) = Some d" for d
    using own_id [OF assms] by (auto simp: ran_def)
  ultimately show ?thesis
    by (intro that [of ds]) (auto simp: matchesFilter_def zero_ListFilter_def)
qed

end

text \<open>What the table itself does on each operation with an explicit ID: the abstract registry.\<close>

datatype reg_op =
    OpRegister Device | OpGet string | OpList ListFilter | OpDelete string
  | OpStatus string DeviceStatus time | OpACL string "ACLEntry list"

datatype reg_resp = RDev "fault + Device" | RList "fault + Device set" | RErr "fault option"

fun reg_do :: "'s registry_ops \<Rightarrow> 's \<Rightarrow> reg_op \<Rightarrow> 's \<times> reg_resp" where
  "reg_do R s (OpRegister d) = map_prod id RDev (rg_Register R s d)"
| "reg_do R s (OpGet i) = (s, RDev (rg_Get R s i))"
| "reg_do R s (OpList f) = (s, RList (map_sum id set (rg_List R s f)))"
| "reg_do R s (OpDelete i) = map_prod id RErr (rg_Delete R s i)"
| "reg_do R s (OpStatus i st t) = map_prod id RErr (rg_UpdateStatus R s i st t)"
| "reg_do R s (OpACL i acl) = map_prod id RErr (rg_UpdateACL R s i acl)"

fun reg_run :: "'s registry_ops \<Rightarrow> 's \<Rightarrow> reg_op list \<Rightarrow> reg_resp list" where
  "reg_run R s [] = []"
| "reg_run R s (op # ops) = (case reg_do R s op of (s', r) \<Rightarrow> r # reg_run R s' ops)"

definition upd_at :: "(string \<rightharpoonup> Device) \<Rightarrow> string \<Rightarrow> (Device \<Rightarrow> Device) \<Rightarrow> (string \<rightharpoonup> Device) \<times> reg_resp" where
  "upd_at m i g = (case m i of None \<Rightarrow> (m, RErr (Some ErrNotFound)) | Some d \<Rightarrow> (m(i \<mapsto> g d), RErr None))"

fun table_do :: "(string \<rightharpoonup> Device) \<Rightarrow> reg_op \<Rightarrow> (string \<rightharpoonup> Device) \<times> reg_resp" where
  "table_do m (OpRegister d) =
     (if m (dev_ID d) \<noteq> None then (m, RDev (Inl ErrAlreadyExists))
      else (m(dev_ID d \<mapsto> init_device d), RDev (Inr (init_device d))))"
| "table_do m (OpGet i) = (m, RDev (case m i of None \<Rightarrow> Inl ErrNotFound | Some d \<Rightarrow> Inr d))"
| "table_do m (OpList f) = (m, RList (Inr {d \<in> ran m. matchesFilter d f}))"
| "table_do m (OpDelete i) = (m(i := None), RErr (if m i = None then Some ErrNotFound else None))"
| "table_do m (OpStatus i st t) = upd_at m i (\<lambda>d. d\<lparr>dev_Status := st, dev_LastSeen := t\<rparr>)"
| "table_do m (OpACL i acl) = upd_at m i (\<lambda>d. d\<lparr>dev_ACL := acl\<rparr>)"

fun table_run :: "(string \<rightharpoonup> Device) \<Rightarrow> reg_op list \<Rightarrow> reg_resp list" where
  "table_run m [] = []"
| "table_run m (op # ops) = (case table_do m op of (m', r) \<Rightarrow> r # table_run m' ops)"

text \<open>The operations the refinement speaks of: explicit IDs, and every device they leave storable.\<close>

definition op_fits :: "(Device \<Rightarrow> bool) \<Rightarrow> (string \<rightharpoonup> Device) \<Rightarrow> reg_op \<Rightarrow> bool" where
  "op_fits storable m op \<longleftrightarrow>
     (case op of
        OpRegister d \<Rightarrow> dev_ID d \<noteq> [] \<and> wf_labels d \<and> storable (init_device d)
      | OpStatus i st t \<Rightarrow> (case m i of None \<Rightarrow> True | Some d \<Rightarrow> storable (d\<lparr>dev_Status := st, dev_LastSeen := t\<rparr>))
      | OpACL i acl \<Rightarrow> (case m i of None \<Rightarrow> True | Some d \<Rightarrow> storable (d\<lparr>dev_ACL := acl\<rparr>))
      | _ \<Rightarrow> True)"

fun ops_fit :: "(Device \<Rightarrow> bool) \<Rightarrow> (string \<rightharpoonup> Device) \<Rightarrow> reg_op list \<Rightarrow> bool" where
  "ops_fit storable m [] = True"
| "ops_fit storable m (op # ops) = (op_fits storable m op \<and> ops_fit storable (fst (table_do m op)) ops)"

lemma ops_fit_mono: "ops_fit P m ops \<Longrightarrow> (\<And>d. P d \<Longrightarrow> Q d) \<Longrightarrow> ops_fit Q m ops"
  by (induction ops arbitrary: m) (auto simp: op_fits_def split: reg_op.splits option.splits)

context registry_contract
begin

lemma reg_do_table:
  assumes "inv s" and "op_fits storable (devs s) op" and "reg_do R s op = (s', r)"
  shows "inv s' \<and> table_do (devs s) op = (devs s', r)"
proof (cases op)
  case (OpRegister d)
  then obtain r' where "rg_Register R s d = (s', r')" and "r = RDev r'"
    using assms(3) by (cases "rg_Register R s d") auto
  with register_law [OF assms(1), of d] assms(2) OpRegister show ?thesis
    by (auto simp: registered_def op_fits_def split: option.splits)
next
  case (OpGet i)
  with assms get_law show ?thesis by auto
next
  case (OpList f)
  with assms list_law [OF assms(1), of f] show ?thesis by auto
next
  case (OpDelete i)
  then obtain e where "rg_Delete R s i = (s', e)" and "r = RErr e"
    using assms(3) by (cases "rg_Delete R s i") auto
  with delete_law [OF assms(1)] OpDelete show ?thesis by auto
next
  case (OpStatus i st t)
  then obtain e where "rg_UpdateStatus R s i st t = (s', e)" and "r = RErr e"
    using assms(3) by (cases "rg_UpdateStatus R s i st t") auto
  with status_law [OF assms(1), of i st t] assms(2) OpStatus show ?thesis
    by (auto simp: modified_def op_fits_def upd_at_def split: option.splits)
next
  case (OpACL i acl)
  then obtain e where "rg_UpdateACL R s i acl = (s', e)" and "r = RErr e"
    using assms(3) by (cases "rg_UpdateACL R s i acl") auto
  with acl_law [OF assms(1), of i acl] assms(2) OpACL show ?thesis
    by (auto simp: modified_def op_fits_def upd_at_def split: option.splits)
qed

lemma reg_run_table:
  assumes "inv s" and "ops_fit storable (devs s) ops"
  shows "reg_run R s ops = table_run (devs s) ops"
  using assms
proof (induction ops arbitrary: s)
  case (Cons op ops)
  obtain s' r where do: "reg_do R s op = (s', r)" by (cases "reg_do R s op")
  have "inv s' \<and> table_do (devs s) op = (devs s', r)"
    using Cons.prems do by (intro reg_do_table) auto
  with Cons do show ?case by auto
qed simp

end

section \<open>Both registries meet the contract\<close>

definition mr_inv :: "MemoryRegistry \<Rightarrow> bool" where
  "mr_inv r \<longleftrightarrow> gm_ok (mr_devices r) \<and> (\<forall>i d. gm_get (mr_devices r) i = Some d \<longrightarrow> dev_ID d = i \<and> wf_labels d)"

lemma init_device_fields [simp]:
  "dev_ID (init_device d) = dev_ID d" "dev_LastSeen (init_device d) = dev_LastSeen d"
  "wf_labels d \<Longrightarrow> wf_labels (init_device d)" "dev_Status (init_device d) = DeviceStatusUnknown"
  by (auto simp: init_device_def wf_labels_def Let_def split: option.splits)

lemma wf_labels_update [simp]:
  "wf_labels (d\<lparr>dev_Status := st\<rparr>) = wf_labels d" "wf_labels (d\<lparr>dev_LastSeen := t\<rparr>) = wf_labels d"
  "wf_labels (d\<lparr>dev_ACL := a\<rparr>) = wf_labels d" "wf_labels (d\<lparr>dev_ID := i\<rparr>) = wf_labels d"
  by (simp_all add: wf_labels_def)

lemma gm_distinct_ids:
  "gm_ok m \<Longrightarrow> (\<And>i d. gm_get m i = Some d \<Longrightarrow> dev_ID d = i) \<Longrightarrow> distinct (map dev_ID (map snd m))"
proof -
  assume ok: "gm_ok m" and id: "\<And>i d. gm_get m i = Some d \<Longrightarrow> dev_ID d = i"
  have "map dev_ID (map snd m) = map fst m"
    using gm_in_iff [OF ok] id by auto
  with ok show ?thesis by (simp only: gm_ok_def)
qed

lemma mr_List_law:
  assumes "mr_inv s"
  shows "\<exists>ds. mr_List s f = Inr ds \<and> distinct (map dev_ID ds) \<and> set ds = {d \<in> ran (gm_get (mr_devices s)). matchesFilter d f}"
proof -
  have "distinct (map dev_ID (map snd (mr_devices s)))"
    using assms by (intro gm_distinct_ids) (auto simp: mr_inv_def)
  then have "distinct (map dev_ID (filter (\<lambda>d. matchesFilter d f) (map snd (mr_devices s))))"
    by (rule distinct_map_filter)
  moreover have "set (map snd (mr_devices s)) = ran (gm_get (mr_devices s))"
    using assms gm_snd_set [of "mr_devices s"] by (simp add: mr_inv_def)
  ultimately show ?thesis by (auto simp: mr_List_def)
qed

interpretation mr: registry_contract mr_ops "\<lambda>r. gm_get (mr_devices r)" mr_inv "\<lambda>_. True"
proof (unfold_locales, goal_cases)
  case (2 s f)
  then show ?case by (simp add: mr_ops_def mr_List_law)
next
  case (8 s d s' r)
  then show ?case
    by (auto simp: mr_ops_def mr_Register_def Let_def mr_inv_def registered_def split: option.splits if_splits
        intro!: exI [of _ "Suc (mr_nextID s)"])
qed (auto simp: mr_ops_def mr_Get_def mr_Delete_def mr_UpdateStatus_def mr_UpdateACL_def mr_Register_def Let_def mr_inv_def
    modified_def registered_def split: option.splits if_splits)

text \<open>
  What bbolt documents of a bucket: a put stores and a delete removes one key, keys must be
  between 1 and 32768 bytes long and values must fit, \<open>ForEach\<close> visits every pair, and
  \<open>NextSequence\<close> counts up.
\<close>

definition valid_key :: "string \<Rightarrow> bool" where
  "valid_key k \<longleftrightarrow> k \<noteq> [] \<and> length k \<le> 32768"

locale bucket =
  fixes B :: "'b bucket_ops" and sq :: "'b \<Rightarrow> nat" and fits :: "json \<Rightarrow> bool"
  assumes put_fails: "\<not> (valid_key k \<and> fits j) \<Longrightarrow> \<exists>e. bk_Put B b k j = Inl e"
    and put_law: "valid_key k \<Longrightarrow> fits j \<Longrightarrow>
          \<exists>b'. bk_Put B b k j = Inr b' \<and> bk_Get B b' = (bk_Get B b)(k \<mapsto> j) \<and> sq b' = sq b"
    and delete_law: "\<exists>b'. bk_Delete B b k = Inr b' \<and> bk_Get B b' = (bk_Get B b)(k := None) \<and> sq b' = sq b"
    and items_law: "gm_ok (bk_items B b) \<and> gm_get (bk_items B b) = bk_Get B b"
    and sequence_law: "\<exists>b'. bk_NextSequence B b = Inr (Suc (sq b), b') \<and> bk_Get B b' = bk_Get B b \<and> sq b' = Suc (sq b)"

definition bolt_devs :: "'b bucket_ops \<Rightarrow> 'b \<Rightarrow> string \<rightharpoonup> Device" where
  "bolt_devs B b i = (case bk_Get B b i of None \<Rightarrow> None | Some j \<Rightarrow> unmarshal_Device j)"

definition bolt_inv :: "'b bucket_ops \<Rightarrow> 'b \<Rightarrow> bool" where
  "bolt_inv B b \<longleftrightarrow> (\<forall>i j. bk_Get B b i = Some j \<longrightarrow>
     (\<exists>d. marshal_Device d = Some j \<and> unmarshal_Device j = Some d \<and> wf_labels d \<and> dev_ID d = i))"

definition bolt_storable :: "(json \<Rightarrow> bool) \<Rightarrow> Device \<Rightarrow> bool" where
  "bolt_storable fits d \<longleftrightarrow> valid_key (dev_ID d) \<and> (case marshal_Device d of None \<Rightarrow> False | Some j \<Rightarrow> fits j)"

lemma marshal_reads_back:
  assumes "marshal_Device d = Some j" and "wf_labels d"
  shows "unmarshal_Device j = Some d"
proof (rule unmarshal_marshal [OF _ assms(1)])
  show "device_ok d"
    using assms by (auto simp: device_ok_def marshal_Device_def wf_labels_def split: if_splits)
qed

context bucket
begin

lemma bolt_store_cases:
  assumes "wf_labels d" and "dev_ID d = i"
  shows "bolt_storable fits d \<Longrightarrow> bolt_inv B b \<Longrightarrow> \<exists>b'. bolt_store B b i d = Inr b' \<and> bolt_inv B b' \<and>
      bolt_devs B b' = (bolt_devs B b)(i \<mapsto> d) \<and> sq b' = sq b"
    and "\<not> bolt_storable fits d \<Longrightarrow> \<exists>e. bolt_store B b i d = Inl e"
proof -
  assume st: "bolt_storable fits d" and inv: "bolt_inv B b"
  then obtain j where j: "marshal_Device d = Some j" "valid_key i" "fits j"
    using assms(2) by (auto simp: bolt_storable_def split: option.splits)
  obtain b' where b': "bk_Put B b i j = Inr b'" "bk_Get B b' = (bk_Get B b)(i \<mapsto> j)" "sq b' = sq b"
    using put_law [OF j(2,3)] by blast
  note reads = marshal_reads_back [OF j(1) assms(1)]
  have "bolt_inv B b'"
    using inv j(1) reads assms b'(2) unfolding bolt_inv_def by auto
  moreover have "bolt_devs B b' = (bolt_devs B b)(i \<mapsto> d)"
    using reads b'(2) by (auto simp: bolt_devs_def fun_eq_iff)
  ultimately show "\<exists>b'. bolt_store B b i d = Inr b' \<and> bolt_inv B b' \<and>
      bolt_devs B b' = (bolt_devs B b)(i \<mapsto> d) \<and> sq b' = sq b"
    using j(1) b' by (auto simp: bolt_store_def)
next
  assume "\<not> bolt_storable fits d"
  then show "\<exists>e. bolt_store B b i d = Inl e"
    using put_fails [of i _ b] assms(2) by (auto simp: bolt_store_def bolt_storable_def split: option.splits)
qed

lemma bolt_invE:
  assumes "bolt_inv B b" and "bk_Get B b i = Some j"
  obtains d where "unmarshal_Device j = Some d" and "bolt_devs B b i = Some d" and "wf_labels d" and "dev_ID d = i"
  using assms by (auto simp: bolt_inv_def bolt_devs_def)

lemma bolt_devs_Some:
  assumes "bolt_inv B b" and "bolt_devs B b i = Some d"
  shows "\<exists>j. bk_Get B b i = Some j \<and> unmarshal_Device j = Some d \<and> wf_labels d \<and> dev_ID d = i"
  using assms bolt_invE [OF assms(1)] by (force simp: bolt_devs_def split: option.splits)

lemma bolt_each_law:
  assumes "\<And>k j. (k, j) \<in> set kvs \<Longrightarrow> \<exists>d. unmarshal_Device j = Some d \<and> dev_ID d = k" and "distinct (map fst kvs)"
  shows "\<exists>ds. bolt_each f kvs = Inr ds \<and> distinct (map dev_ID ds) \<and> set (map dev_ID ds) \<subseteq> set (map fst kvs) \<and>
     set ds = {d. matchesFilter d f \<and> (\<exists>k j. (k, j) \<in> set kvs \<and> unmarshal_Device j = Some d)}"
  using assms
proof (induction kvs)
  case (Cons kv kvs)
  obtain k j where kv: "kv = (k, j)" by (cases kv)
  obtain d where d: "unmarshal_Device j = Some d" "dev_ID d = k"
    using Cons.prems(1) [of k j] kv by auto
  obtain ds where "bolt_each f kvs = Inr ds" "distinct (map dev_ID ds)" "set (map dev_ID ds) \<subseteq> set (map fst kvs)"
     "set ds = {d. matchesFilter d f \<and> (\<exists>k j. (k, j) \<in> set kvs \<and> unmarshal_Device j = Some d)}"
    using Cons.IH Cons.prems by auto
  with d kv Cons.prems(2) show ?case by auto
qed simp

lemma bolt_modify_law:
  assumes "bolt_inv B b" and "bolt_modify B b i g = (b', e)" and "\<And>d. dev_ID (g d) = dev_ID d \<and> wf_labels (g d) = wf_labels d"
  shows "bolt_inv B b' \<and> modified (bolt_storable fits) (bolt_devs B b) i g (bolt_devs B b') e"
proof (cases "bk_Get B b i")
  case None
  with assms show ?thesis by (auto simp: bolt_modify_def db_Update_def err_of_def modified_def bolt_devs_def)
next
  case (Some j)
  then obtain d where d: "unmarshal_Device j = Some d" "bolt_devs B b i = Some d" "wf_labels d" "dev_ID d = i"
    using assms(1) by (auto elim: bolt_invE)
  with bolt_store_cases [of "g d" i b] assms Some show ?thesis
    by (cases "bolt_storable fits (g d)") (auto simp: bolt_modify_def db_Update_def err_of_def modified_def)
qed

lemma bolt_Register_law:
  assumes "bolt_inv B b" and "wf_labels d" and "bolt_inv B b1" and "bolt_devs B b1 = bolt_devs B b"
    and "db_Update b (\<lambda>_. if bk_Get B b1 (dev_ID d) \<noteq> None then Inl ErrAlreadyExists
          else map_sum id (\<lambda>b2. (b2, init_device d)) (bolt_store B b1 (dev_ID d) (init_device d))) = (b', r)"
  shows "bolt_inv B b' \<and> registered (bolt_storable fits) (bolt_devs B b) d (bolt_devs B b') r"
proof (cases "bk_Get B b1 (dev_ID d)")
  case None
  then have "bolt_devs B b (dev_ID d) = None"
    by (simp add: bolt_devs_def flip: assms(4))
  with None assms bolt_store_cases [of "init_device d" "dev_ID d" b1] show ?thesis
    by (cases "bolt_storable fits (init_device d)") (auto simp: db_Update_def registered_def)
next
  case (Some j)
  obtain d' where "bolt_devs B b (dev_ID d) = Some d'"
    using bolt_invE [OF assms(3) Some] assms(4) by auto
  with Some assms show ?thesis by (auto simp: db_Update_def registered_def)
qed

end

sublocale bucket \<subseteq> bolt: registry_contract "bolt_ops B" "bolt_devs B" "bolt_inv B" "bolt_storable fits"
proof (unfold_locales, goal_cases)
  case (1 s i)
  then show ?case by (auto simp: bolt_ops_def bolt_Get_def bolt_devs_def elim: bolt_invE split: option.splits)
next
  case (2 s f)
  have "\<exists>d. unmarshal_Device j = Some d \<and> dev_ID d = k" if "(k, j) \<in> set (bk_items B s)" for k j
    using that items_law [of s] gm_in_iff [of "bk_items B s" k j] bolt_invE [OF 2] by metis
  moreover have "(\<exists>k j. (k, j) \<in> set (bk_items B s) \<and> unmarshal_Device j = Some d) \<longleftrightarrow> d \<in> ran (bolt_devs B s)" for d
    using items_law [of s] gm_in_iff [of "bk_items B s"] by (fastforce simp: ran_def bolt_devs_def split: option.splits)
  ultimately show ?case
    using bolt_each_law [of "bk_items B s" f] items_law [of s] by (auto simp: bolt_ops_def bolt_List_def gm_ok_def)
next
  case (3 s i d)
  then show ?case using bolt_devs_Some by blast
next
  case (4 s i s' e)
  obtain b' where b': "bk_Delete B s i = Inr b'" "bk_Get B b' = (bk_Get B s)(i := None)"
    using delete_law by blast
  then have "bolt_inv B b'" "bolt_devs B b' = (bolt_devs B s)(i := None)"
    using 4(1) by (auto simp: bolt_inv_def bolt_devs_def)
  moreover have "bolt_devs B s i = None \<longleftrightarrow> bk_Get B s i = None"
    by (cases "bk_Get B s i") (auto simp: bolt_devs_def elim: bolt_invE [OF 4(1)])
  ultimately show ?case
    using 4 b'(1) by (auto simp: bolt_ops_def bolt_Delete_def db_Update_def err_of_def split: if_splits)
next
  case (5 s i st t s' e)
  then show ?case by (intro bolt_modify_law) (simp_all add: bolt_ops_def bolt_UpdateStatus_def)
next
  case (6 s i acl s' e)
  then show ?case by (intro bolt_modify_law) (simp_all add: bolt_ops_def bolt_UpdateACL_def)
next
  case (7 s d s' r)
  then show ?case
    using bolt_Register_law [of s d s s' r]
    by (auto simp: bolt_ops_def bolt_Register_def bolt_Register_tx_def db_Update_def Let_def cong: if_cong)
next
  case (8 s d s' r)
  obtain b1 where b1: "bk_NextSequence B s = Inr (Suc (sq s), b1)" "bk_Get B b1 = bk_Get B s"
    using sequence_law by blast
  then have same: "bolt_inv B b1" "bolt_devs B b1 = bolt_devs B s"
    using 8(1) by (auto simp: bolt_inv_def bolt_devs_def fun_eq_iff)
  show ?case
    using bolt_Register_law [of s "d\<lparr>dev_ID := gen_id (Suc (sq s))\<rparr>" b1 s' r] 8 same b1(1)
    by (auto simp: bolt_ops_def bolt_Register_def bolt_Register_tx_def db_Update_def Let_def cong: if_cong)
qed

context bucket
begin

lemma bolt_contract: "registry_contract (bolt_ops B) (bolt_devs B) (bolt_inv B) (bolt_storable fits)"
  by (rule bolt.registry_contract_axioms)

lemma bolt_run_table:
  "bolt_inv B b \<Longrightarrow> ops_fit (bolt_storable fits) (bolt_devs B b) ops \<Longrightarrow> reg_run (bolt_ops B) b ops = table_run (bolt_devs B b) ops"
  by (rule bolt.reg_run_table)

end

text \<open>A bucket that keeps its documents in an association list: the laws can be met.\<close>

record ref_bucket =
  rb_items :: "(string, json) gomap"
  rb_seq :: nat

definition ref_bucket_ops :: "ref_bucket bucket_ops" where
  "ref_bucket_ops = \<lparr>bk_Get = (\<lambda>b k. gm_get (rb_items b) k),
     bk_Put = (\<lambda>b k j. if valid_key k then Inr (b\<lparr>rb_items := gm_put k j (rb_items b)\<rparr>) else Inl opaque_fault),
     bk_Delete = (\<lambda>b k. Inr (b\<lparr>rb_items := gm_del k (rb_items b)\<rparr>)),
     bk_items = (\<lambda>b. AList.clearjunk (rb_items b)),
     bk_NextSequence = (\<lambda>b. Inr (Suc (rb_seq b), b\<lparr>rb_seq := Suc (rb_seq b)\<rparr>))\<rparr>"

definition ref_bucket_empty :: ref_bucket where
  "ref_bucket_empty = \<lparr>rb_items = [], rb_seq = 0\<rparr>"

interpretation refb: bucket ref_bucket_ops rb_seq "\<lambda>_. True"
  by unfold_locales (auto simp: ref_bucket_ops_def gm_ok_def map_of_clearjunk fun_eq_iff)

section \<open>Generated IDs\<close>

definition dec_value :: "string \<Rightarrow> nat" where
  "dec_value s = foldl (\<lambda>a c. 10 * a + (of_char c - 48)) 0 s"

lemma dec_value_snoc: "dec_value (s @ [c]) = 10 * dec_value s + (of_char c - 48)"
  by (simp add: dec_value_def)

lemma digit_char: "n < 10 \<Longrightarrow> of_char (char_of (48 + n) :: char) - 48 = (n :: nat)"
  by simp

lemma dec_value_digits: "dec_value (dec_digits n) = n"
proof (induction n rule: dec_digits.induct)
  case (1 n)
  show ?case
  proof (cases "n < 10")
    case True
    then show ?thesis
      by (subst dec_digits.simps) (simp add: dec_value_def digit_char)
  next
    case False
    with 1 show ?thesis
      by (subst dec_digits.simps) (simp add: dec_value_snoc digit_char)
  qed
qed

lemma dec_value_pad: "dec_value (pad5 s) = dec_value s"
proof -
  have "foldl (\<lambda>a c. 10 * a + (of_char c - 48)) 0 (replicate k CHR ''0'') = (0 :: nat)" for k
    by (induction k) auto
  then show ?thesis by (simp add: dec_value_def pad5_def)
qed

lemma gen_id_inj: "gen_id m = gen_id n \<longleftrightarrow> m = n"
  unfolding gen_id_def by (metis append_eq_append_conv dec_value_digits dec_value_pad)

lemma gen_id_nonempty [simp]: "gen_id n \<noteq> []"
  by (simp add: gen_id_def)

text \<open>Repeating an auto-ID registration that failed.\<close>

lemma mr_Register_auto:
  assumes "dev_ID d = []"
  shows "mr_Register r d =
     (let i = gen_id (Suc (mr_nextID r)); r1 = r\<lparr>mr_nextID := Suc (mr_nextID r)\<rparr>; d2 = init_device (d\<lparr>dev_ID := i\<rparr>) in
      if gm_get (mr_devices r) i \<noteq> None then (r1, Inl ErrAlreadyExists)
      else (r1\<lparr>mr_devices := gm_put i d2 (mr_devices r)\<rparr>, Inr d2))"
  using assms by (simp add: mr_Register_def Let_def)

fun mr_retry :: "MemoryRegistry \<Rightarrow> Device \<Rightarrow> nat \<Rightarrow> (fault + Device) list" where
  "mr_retry r d 0 = []"
| "mr_retry r d (Suc n) = (case mr_Register r d of (r', res) \<Rightarrow> res # mr_retry r' d n)"

lemma mr_retry_fails:
  assumes "dev_ID d = []" and "\<forall>x \<in> set (mr_retry r d n). \<exists>e. x = Inl e"
  shows "gen_id ` {mr_nextID r <.. mr_nextID r + n} \<subseteq> dom (gm_get (mr_devices r))"
  using assms(2)
proof (induction n arbitrary: r)
  case (Suc n)
  let ?r = "r\<lparr>mr_nextID := Suc (mr_nextID r)\<rparr>"
  have first: "gm_get (mr_devices r) (gen_id (Suc (mr_nextID r))) \<noteq> None"
    and rest: "\<forall>x \<in> set (mr_retry ?r d n). \<exists>e. x = Inl e"
    using Suc.prems by (auto simp: mr_Register_auto [OF assms(1)] Let_def split: if_splits)
  have "{mr_nextID r <.. mr_nextID r + Suc n} = insert (Suc (mr_nextID r)) {mr_nextID ?r <.. mr_nextID ?r + n}"
    by auto
  with first Suc.IH [OF rest] show ?case by auto
qed simp

section \<open>Properties\<close>

text \<open>C7. The bbolt registry and the in-memory one answer every run of operations with
  explicit device IDs alike, starting empty, as long as the devices can be stored (their
  last-seen time marshals, the ID is a valid key and the document fits): the persistent
  registry refines the in-memory one.\<close>

theorem registries_agree:
  assumes "bucket B sq fits" and "bk_Get B b = Map.empty" and "ops_fit (bolt_storable fits) Map.empty ops"
  shows "reg_run (bolt_ops B) b ops = reg_run mr_ops NewMemoryRegistry ops"
proof -
  have e: "bolt_devs B b = Map.empty" and i: "bolt_inv B b"
    using assms(2) by (auto simp: bolt_devs_def bolt_inv_def)
  have "reg_run (bolt_ops B) b ops = table_run Map.empty ops"
    using bucket.bolt_run_table [OF assms(1) i] assms(3) by (simp add: e)
  moreover have "reg_run mr_ops NewMemoryRegistry ops = table_run (gm_get (mr_devices NewMemoryRegistry)) ops"
    using assms(3) by (intro mr.reg_run_table) (auto simp: NewMemoryRegistry_def mr_inv_def elim: ops_fit_mono)
  ultimately show ?thesis by (simp add: NewMemoryRegistry_def)
qed

definition dev1 :: Device where
  "dev1 = zero_Device\<lparr>dev_ID := ''d1'', dev_Transport := ''mqtt'', dev_Labels := Some [(''site'', ''lab'')]\<rparr>"

definition reg_demo :: "reg_op list" where
  "reg_demo = [OpRegister dev1, OpStatus ''d1'' DeviceStatusOnline 5, OpRegister dev1, OpGet ''d1'', OpDelete ''d1'', OpGet ''d1'']"

theorem registries_agree_witness:
  "reg_run (bolt_ops ref_bucket_ops) ref_bucket_empty reg_demo = reg_run mr_ops NewMemoryRegistry reg_demo"
proof (rule registries_agree [OF refb.bucket_axioms])
  show "bk_Get ref_bucket_ops ref_bucket_empty = Map.empty"
    by (simp add: ref_bucket_ops_def ref_bucket_empty_def fun_eq_iff)
  show "ops_fit (bolt_storable (\<lambda>_. True)) Map.empty reg_demo"
    by (simp add: reg_demo_def op_fits_def dev1_def zero_Device_def wf_labels_def gm_ok_def bolt_storable_def valid_key_def
        init_device_def marshal_Device_def json_time_ok_def year_ns_def second_def)
qed

text \<open>A device stored by the bbolt registry reads back unchanged: marshalling and
  unmarshalling are inverse on every device whose last-seen time marshals.\<close>

theorem device_json_roundtrip:
  assumes "device_ok d"
  shows "\<exists>j. marshal_Device d = Some j \<and> unmarshal_Device j = Some d"
  using unmarshal_marshal [OF assms] assms by (auto simp: marshal_Device_def device_ok_def)

theorem device_json_roundtrip_witness:
  "device_ok dev1 \<and> (\<exists>j. marshal_Device dev1 = Some j \<and> unmarshal_Device j = Some dev1)"
proof -
  have "device_ok dev1"
    by (simp add: dev1_def zero_Device_def device_ok_def json_time_ok_def year_ns_def second_def gm_ok_def)
  with device_json_roundtrip [OF this] show ?thesis by blast
qed

text \<open>An auto-ID registration in the in-memory registry makes progress: with k devices
  registered, k + 1 attempts cannot all fail, and one that succeeds gets an ID no device had.\<close>

theorem auto_id_progress:
  assumes "mr_inv r" and "dev_ID d = []"
  shows "\<exists>d' \<in> set (mr_retry r d (Suc (length (mr_devices r)))). \<exists>x. d' = Inr x"
proof (rule ccontr)
  let ?n = "Suc (length (mr_devices r))"
  assume "\<not> ?thesis"
  then have "\<forall>x \<in> set (mr_retry r d ?n). \<exists>e. x = Inl e"
    by (metis sum.exhaust)
  then have sub: "gen_id ` {mr_nextID r <.. mr_nextID r + ?n} \<subseteq> dom (gm_get (mr_devices r))"
    by (rule mr_retry_fails [OF assms(2)])
  have "card (gen_id ` {mr_nextID r <.. mr_nextID r + ?n}) = ?n"
    by (subst card_image) (auto simp: inj_on_def gen_id_inj)
  moreover have "card (dom (gm_get (mr_devices r))) \<le> length (mr_devices r)"
    by (metis card_length dom_map_of_conv_image_fst length_map set_map)
  ultimately show False
    using card_mono [OF _ sub] by (simp add: finite_dom_map_of)
qed

theorem auto_id_progress_witness:
  "\<exists>d' \<in> set (mr_retry NewMemoryRegistry zero_Device 1). \<exists>x. d' = Inr x"
proof -
  have "mr_inv NewMemoryRegistry" and "dev_ID zero_Device = []"
    by (simp_all add: mr_inv_def NewMemoryRegistry_def zero_Device_def)
  from auto_id_progress [OF this] show ?thesis by (simp add: NewMemoryRegistry_def)
qed

text \<open>C39. The bbolt registry has no such progress: when a device with the next generated ID
  exists already, the failed transaction rolls the sequence back, so every further auto-ID
  registration fails in the same way and leaves the bucket as it was.\<close>

theorem bolt_auto_id_stuck:
  assumes "bucket B sq fits" and "dev_ID d = []" and "bk_Get B b (gen_id (Suc (sq b))) \<noteq> None"
  shows "((\<lambda>b. fst (bolt_Register B b d)) ^^ n) b = b \<and>
     bolt_Register B b d = (b, Inl ErrAlreadyExists)"
proof -
  obtain b' where "bk_NextSequence B b = Inr (Suc (sq b), b')" and "bk_Get B b' = bk_Get B b"
    using bucket.sequence_law [OF assms(1)] by blast
  with assms(2,3) have reg: "bolt_Register B b d = (b, Inl ErrAlreadyExists)"
    by (simp add: bolt_Register_def db_Update_def bolt_Register_tx_def)
  then have "((\<lambda>b. fst (bolt_Register B b d)) ^^ n) b = b"
    by (induction n) auto
  with reg show ?thesis by blast
qed

theorem bolt_auto_id_stuck_witness:
  "bolt_Register ref_bucket_ops \<lparr>rb_items = [(gen_id 1, JNull)], rb_seq = 0\<rparr> zero_Device =
     (\<lparr>rb_items = [(gen_id 1, JNull)], rb_seq = 0\<rparr>, Inl ErrAlreadyExists)"
proof -
  have "dev_ID zero_Device = []" by (simp add: zero_Device_def)
  moreover have "bk_Get ref_bucket_ops \<lparr>rb_items = [(gen_id 1, JNull)], rb_seq = 0\<rparr>
      (gen_id (Suc (rb_seq \<lparr>rb_items = [(gen_id 1, JNull)], rb_seq = 0\<rparr>))) \<noteq> None"
    by (simp add: ref_bucket_ops_def)
  ultimately show ?thesis
    using bolt_auto_id_stuck [OF refb.bucket_axioms] by blast
qed

end
