(* ===== verification/Heartbeat.thy ===== *)
theory Heartbeat
  imports Registry Broker
begin

text \<open>
  Device liveness (\<open>internal/heartbeat/monitor.go\<close>): \<open>Touch\<close> marks a device alive, \<open>Sweep\<close>
  declares devices offline that have been silent for the timeout, and each transition is
  published through the broker and reported to the status callback. The monitor works on
  any registry: its operations are an argument, and the lemmas are proved once in the context
  of \<open>registry_contract\<close>. A panic of the broker is the absence of a result; the lemmas show
  that it does not happen.
\<close>

section \<open>The monitor\<close>

definition DefaultInterval :: duration where
  "DefaultInterval = 30 * second"

definition DefaultTimeout :: duration where
  "DefaultTimeout = 90 * second"

record Monitor =
  mon_interval :: duration
  mon_timeout :: duration
  mon_notify :: bool                     \<comment> \<open>\<open>onStatusChange\<close> is set\<close>

definition NewMonitor :: "duration \<Rightarrow> duration \<Rightarrow> bool \<Rightarrow> Monitor" where
  "NewMonitor interval timeout notify =
     \<lparr>mon_interval = (if interval \<le> 0 then DefaultInterval else interval),
      mon_timeout = (if timeout \<le> 0 then DefaultTimeout else timeout),
      mon_notify = notify\<rparr>"

text \<open>The registry, the broker, and the calls of \<open>onStatusChange\<close> so far.\<close>

record 's hb_world =
  hw_reg :: 's
  hw_broker :: Broker
  hw_calls :: "(string \<times> bool) list"

definition hb_emit :: "Monitor \<Rightarrow> string \<Rightarrow> DeviceStatus \<Rightarrow> time \<Rightarrow> 's hb_world \<Rightarrow> 's hb_world option" where
  "hb_emit m deviceID s t w =
     (case br_Publish (hw_broker w) (status_event deviceID s t) of
        None \<Rightarrow> None
      | Some b \<Rightarrow> Some (w\<lparr>hw_broker := b,
          hw_calls := hw_calls w @ (if mon_notify m then [(deviceID, s = DeviceStatusOnline)] else [])\<rparr>))"

definition hb_Touch :: "'s registry_ops \<Rightarrow> Monitor \<Rightarrow> time \<Rightarrow> string \<Rightarrow> 's hb_world \<Rightarrow> ('s hb_world \<times> fault option) option" where
  "hb_Touch R m now deviceID w =
     (case rg_Get R (hw_reg w) deviceID of
        Inl e \<Rightarrow> Some (w, Some e)
      | Inr d \<Rightarrow>
          (let wasOnline = (dev_Status d = DeviceStatusOnline) in
           case rg_UpdateStatus R (hw_reg w) deviceID DeviceStatusOnline now of
             (s', Some e) \<Rightarrow> Some (w\<lparr>hw_reg := s'\<rparr>, Some e)
           | (s', None) \<Rightarrow>
               if \<not> wasOnline
               then map_option (\<lambda>w'. (w', None)) (hb_emit m deviceID DeviceStatusOnline now (w\<lparr>hw_reg := s'\<rparr>))
               else Some (w\<lparr>hw_reg := s'\<rparr>, None)))"

fun hb_sweep_loop :: "'s registry_ops \<Rightarrow> Monitor \<Rightarrow> time \<Rightarrow> Device list \<Rightarrow> 's hb_world \<Rightarrow> 's hb_world option" where
  "hb_sweep_loop R m now [] w = Some w"
| "hb_sweep_loop R m now (d # ds) w =
     (if time_Sub now (dev_LastSeen d) < mon_timeout m then hb_sweep_loop R m now ds w
      else case rg_UpdateStatus R (hw_reg w) (dev_ID d) DeviceStatusOffline (dev_LastSeen d) of
             (s', Some e) \<Rightarrow> hb_sweep_loop R m now ds (w\<lparr>hw_reg := s'\<rparr>)
           | (s', None) \<Rightarrow>
               (case hb_emit m (dev_ID d) DeviceStatusOffline now (w\<lparr>hw_reg := s'\<rparr>) of
                  None \<Rightarrow> None
                | Some w' \<Rightarrow> hb_sweep_loop R m now ds w'))"

definition hb_Sweep :: "'s registry_ops \<Rightarrow> Monitor \<Rightarrow> time \<Rightarrow> 's hb_world \<Rightarrow> ('s hb_world \<times> fault option) option" where
  "hb_Sweep R m now w =
     (case rg_List R (hw_reg w) (zero_ListFilter\<lparr>lf_Online := Some True\<rparr>) of
        Inl e \<Rightarrow> Some (w, Some e)
      | Inr devices \<Rightarrow> map_option (\<lambda>w'. (w', None)) (hb_sweep_loop R m now devices w))"

text \<open>\<open>time.NewTicker\<close> panics on a non-positive interval; \<open>Run\<close> then sweeps at every tick.\<close>

fun hb_ticks :: "'s registry_ops \<Rightarrow> Monitor \<Rightarrow> time list \<Rightarrow> 's hb_world \<Rightarrow> 's hb_world option" where
  "hb_ticks R m [] w = Some w"
| "hb_ticks R m (t # ts) w = (case hb_Sweep R m t w of None \<Rightarrow> None | Some (w', _) \<Rightarrow> hb_ticks R m ts w')"

definition hb_Run :: "'s registry_ops \<Rightarrow> Monitor \<Rightarrow> time list \<Rightarrow> 's hb_world \<Rightarrow> 's hb_world option" where
  "hb_Run R m ticks w = (if mon_interval m \<le> 0 then None else hb_ticks R m ticks w)"

section \<open>What the monitor does\<close>

definition stale :: "Monitor \<Rightarrow> time \<Rightarrow> Device \<Rightarrow> bool" where
  "stale m now d \<longleftrightarrow> dev_Status d = DeviceStatusOnline \<and> mon_timeout m \<le> time_Sub now (dev_LastSeen d)"

definition gone :: "Device \<Rightarrow> Device" where
  "gone d = d\<lparr>dev_Status := DeviceStatusOffline, dev_LastSeen := dev_LastSeen d\<rparr>"

lemma gone_gone [simp]: "gone (gone d) = gone d"
  by (simp add: gone_def)

text \<open>Publishing a run of events.\<close>

fun br_Publish_all :: "Broker \<Rightarrow> PropertyUpdate list \<Rightarrow> Broker option" where
  "br_Publish_all b [] = Some b"
| "br_Publish_all b (u # us) = (case br_Publish b u of None \<Rightarrow> None | Some b' \<Rightarrow> br_Publish_all b' us)"

lemma br_inv_Publish_all: "br_inv b \<Longrightarrow> \<exists>b'. br_Publish_all b us = Some b' \<and> br_inv b'"
proof (induction us arbitrary: b)
  case (Cons u us)
  obtain b' where "br_Publish b u = Some b'" using br_Publish_eq [OF Cons.prems] by blast
  with Cons show ?case by (simp add: br_inv_Publish)
qed simp

lemma hb_emit_ok:
  assumes "br_inv (hw_broker w)"
  obtains b where "br_Publish (hw_broker w) (status_event i s t) = Some b" and "br_inv b"
    and "hb_emit m i s t w = Some (w\<lparr>hw_broker := b,
        hw_calls := hw_calls w @ (if mon_notify m then [(i, s = DeviceStatusOnline)] else [])\<rparr>)"
proof -
  obtain b where b: "br_Publish (hw_broker w) (status_event i s t) = Some b"
    using br_Publish_eq [OF assms] by blast
  with br_inv_Publish [OF assms b] that [of b] show ?thesis by (simp add: hb_emit_def)
qed

context registry_contract
begin

text \<open>The sweep over a list of devices as the registry returned them.\<close>

lemma sweep_loop:
  assumes "inv (hw_reg w)" and "br_inv (hw_broker w)" and "distinct (map dev_ID ds)"
    and "\<And>d. d \<in> set ds \<Longrightarrow> devs (hw_reg w) (dev_ID d) = Some d \<and> dev_Status d = DeviceStatusOnline"
  shows "\<exists>w' off. hb_sweep_loop R m now ds w = Some w' \<and> inv (hw_reg w') \<and>
     off = filter (\<lambda>d. stale m now d \<and> storable (gone d)) ds \<and>
     devs (hw_reg w') = (\<lambda>i. if i \<in> dev_ID ` set off then map_option gone (devs (hw_reg w) i) else devs (hw_reg w) i) \<and>
     br_Publish_all (hw_broker w) (map (\<lambda>d. status_event (dev_ID d) DeviceStatusOffline now) off) = Some (hw_broker w') \<and>
     hw_calls w' = hw_calls w @ (if mon_notify m then map (\<lambda>d. (dev_ID d, False)) off else [])"
  using assms
proof (induction ds arbitrary: w)
  case (Cons d ds)
  have d: "devs (hw_reg w) (dev_ID d) = Some d" "dev_Status d = DeviceStatusOnline"
    using Cons.prems(4) by auto
  have other: "d' \<in> set ds \<Longrightarrow> dev_ID d' \<noteq> dev_ID d" for d'
    using Cons.prems(3) by (auto simp: image_iff)
  show ?case
  proof (cases "stale m now d")
    case False
    then have "time_Sub now (dev_LastSeen d) < mon_timeout m"
      using d(2) by (simp add: stale_def)
    with False Cons.IH [of w] Cons.prems show ?thesis by auto
  next
    case True
    then have late: "\<not> time_Sub now (dev_LastSeen d) < mon_timeout m" by (simp add: stale_def)
    obtain s' e where u: "rg_UpdateStatus R (hw_reg w) (dev_ID d) DeviceStatusOffline (dev_LastSeen d) = (s', e)"
      by fastforce
    note law = status_law [OF Cons.prems(1) u]
    show ?thesis
    proof (cases "storable (gone d)")
      case False
      then have e: "e \<noteq> None" "devs s' = devs (hw_reg w)" "inv s'"
        using law d(1) by (auto simp: modified_def gone_def)
      with Cons.IH [of "w\<lparr>hw_reg := s'\<rparr>"] Cons.prems False late u show ?thesis by (auto cong: if_cong)
    next
      case st: True
      then have e: "e = None" "devs s' = (devs (hw_reg w))(dev_ID d \<mapsto> gone d)" "inv s'"
        using law d(1) by (auto simp: modified_def gone_def)
      obtain b where b: "br_Publish (hw_broker w) (status_event (dev_ID d) DeviceStatusOffline now) = Some b" "br_inv b"
        and emit: "hb_emit m (dev_ID d) DeviceStatusOffline now (w\<lparr>hw_reg := s'\<rparr>) = Some (w\<lparr>hw_reg := s', hw_broker := b,
          hw_calls := hw_calls w @ (if mon_notify m then [(dev_ID d, False)] else [])\<rparr>)"
        using Cons.prems(2) by (auto intro: hb_emit_ok [of "w\<lparr>hw_reg := s'\<rparr>" "dev_ID d" DeviceStatusOffline now m])
      let ?w = "w\<lparr>hw_reg := s', hw_broker := b,
          hw_calls := hw_calls w @ (if mon_notify m then [(dev_ID d, False)] else [])\<rparr>"
      obtain w' where w': "hb_sweep_loop R m now ds ?w = Some w'" "inv (hw_reg w')"
        "devs (hw_reg w') = (\<lambda>i. if i \<in> dev_ID ` set (filter (\<lambda>d. stale m now d \<and> storable (gone d)) ds)
           then map_option gone (devs s' i) else devs s' i)"
        "br_Publish_all b (map (\<lambda>d. status_event (dev_ID d) DeviceStatusOffline now)
           (filter (\<lambda>d. stale m now d \<and> storable (gone d)) ds)) = Some (hw_broker w')"
        "hw_calls w' = hw_calls ?w @ (if mon_notify m then map (\<lambda>d. (dev_ID d, False))
           (filter (\<lambda>d. stale m now d \<and> storable (gone d)) ds) else [])"
        using Cons.IH [of ?w] Cons.prems e b(2) other by (auto cong: if_cong)
      have "devs (hw_reg w') = (\<lambda>i. if i \<in> dev_ID ` set (filter (\<lambda>d. stale m now d \<and> storable (gone d)) (d # ds))
           then map_option gone (devs (hw_reg w) i) else devs (hw_reg w) i)"
        using w'(3) e(2) other d(1) True st by (auto simp: fun_eq_iff)
      with w' b late u e(1) emit True st show ?thesis by auto
    qed
  qed
qed simp

lemma sweep:
  assumes "inv (hw_reg w)" and "br_inv (hw_broker w)"
  shows "\<exists>w' off. hb_Sweep R m now w = Some (w', None) \<and> inv (hw_reg w') \<and> br_inv (hw_broker w') \<and>
     distinct (map dev_ID off) \<and>
     (\<forall>d. d \<in> set off \<longleftrightarrow> devs (hw_reg w) (dev_ID d) = Some d \<and> stale m now d \<and> storable (gone d)) \<and>
     (\<forall>i. devs (hw_reg w') i = (case devs (hw_reg w) i of None \<Rightarrow> None
        | Some d \<Rightarrow> Some (if stale m now d \<and> storable (gone d) then gone d else d))) \<and>
     br_Publish_all (hw_broker w) (map (\<lambda>d. status_event (dev_ID d) DeviceStatusOffline now) off) = Some (hw_broker w') \<and>
     hw_calls w' = hw_calls w @ (if mon_notify m then map (\<lambda>d. (dev_ID d, False)) off else [])"
proof -
  obtain ds where ds: "rg_List R (hw_reg w) (zero_ListFilter\<lparr>lf_Online := Some True\<rparr>) = Inr ds" "distinct (map dev_ID ds)"
    "\<And>d. d \<in> set ds \<longleftrightarrow> devs (hw_reg w) (dev_ID d) = Some d \<and> dev_Status d = DeviceStatusOnline"
    using list_online [OF assms(1)] by metis
  let ?off = "filter (\<lambda>d. stale m now d \<and> storable (gone d)) ds"
  obtain w' where w': "hb_sweep_loop R m now ds w = Some w'" "inv (hw_reg w')"
    "devs (hw_reg w') = (\<lambda>i. if i \<in> dev_ID ` set ?off then map_option gone (devs (hw_reg w) i) else devs (hw_reg w) i)"
    "br_Publish_all (hw_broker w) (map (\<lambda>d. status_event (dev_ID d) DeviceStatusOffline now) ?off) = Some (hw_broker w')"
    "hw_calls w' = hw_calls w @ (if mon_notify m then map (\<lambda>d. (dev_ID d, False)) ?off else [])"
    using sweep_loop [OF assms ds(2), of m now] ds(3) by auto
  have off: "d \<in> set ?off \<longleftrightarrow> devs (hw_reg w) (dev_ID d) = Some d \<and> stale m now d \<and> storable (gone d)" for d
    using ds(3) by (auto simp: stale_def)
  have mem: "i \<in> dev_ID ` set ?off \<longleftrightarrow> (\<exists>d. devs (hw_reg w) i = Some d \<and> stale m now d \<and> storable (gone d))" for i
  proof
    assume "i \<in> dev_ID ` set ?off"
    then obtain d where "d \<in> set ?off" and "i = dev_ID d" by blast
    with off [of d] show "\<exists>d. devs (hw_reg w) i = Some d \<and> stale m now d \<and> storable (gone d)" by blast
  next
    assume "\<exists>d. devs (hw_reg w) i = Some d \<and> stale m now d \<and> storable (gone d)"
    then obtain d where d: "devs (hw_reg w) i = Some d" "stale m now d \<and> storable (gone d)" by blast
    then have "dev_ID d = i" using own_id [OF assms(1)] by blast
    with off [of d] d show "i \<in> dev_ID ` set ?off" by blast
  qed
  have upd: "devs (hw_reg w') i = (case devs (hw_reg w) i of None \<Rightarrow> None
        | Some d \<Rightarrow> Some (if stale m now d \<and> storable (gone d) then gone d else d))" for i
    using w'(3) mem by (auto split: option.splits)
  have br: "br_inv (hw_broker w')"
    using br_inv_Publish_all [OF assms(2)] w'(4) by (metis option.inject)
  have dist: "distinct (map dev_ID ?off)"
    using ds(2) by (rule distinct_map_filter)
  have sw: "hb_Sweep R m now w = Some (w', None)"
    by (simp add: hb_Sweep_def ds(1) w'(1))
  show ?thesis
    by (intro exI [of _ w'] exI [of _ ?off] conjI allI) (fact sw w'(2) br dist off upd w'(4,5))+
qed

lemma touch:
  assumes "inv (hw_reg w)" and "br_inv (hw_broker w)" and "devs (hw_reg w) i = Some d"
    and "storable (d\<lparr>dev_Status := DeviceStatusOnline, dev_LastSeen := now\<rparr>)"
  shows "\<exists>w'. hb_Touch R m now i w = Some (w', None) \<and> inv (hw_reg w') \<and> br_inv (hw_broker w') \<and>
     devs (hw_reg w') = (devs (hw_reg w))(i \<mapsto> d\<lparr>dev_Status := DeviceStatusOnline, dev_LastSeen := now\<rparr>) \<and>
     (if dev_Status d = DeviceStatusOnline then hw_broker w' = hw_broker w \<and> hw_calls w' = hw_calls w
      else br_Publish (hw_broker w) (status_event i DeviceStatusOnline now) = Some (hw_broker w') \<and>
        hw_calls w' = hw_calls w @ (if mon_notify m then [(i, True)] else []))"
proof -
  obtain s' e where u: "rg_UpdateStatus R (hw_reg w) i DeviceStatusOnline now = (s', e)"
    by fastforce
  have e: "e = None" "inv s'" "devs s' = (devs (hw_reg w))(i \<mapsto> d\<lparr>dev_Status := DeviceStatusOnline, dev_LastSeen := now\<rparr>)"
    using status_law [OF assms(1) u] assms(3,4) by (auto simp: modified_def)
  have g: "rg_Get R (hw_reg w) i = Inr d"
    using get_law [OF assms(1)] assms(3) by simp
  obtain b where b: "br_Publish (hw_broker w) (status_event i DeviceStatusOnline now) = Some b" "br_inv b"
    and emit: "hb_emit m i DeviceStatusOnline now (w\<lparr>hw_reg := s'\<rparr>) = Some (w\<lparr>hw_reg := s', hw_broker := b,
       hw_calls := hw_calls w @ (if mon_notify m then [(i, True)] else [])\<rparr>)"
    using assms(2) by (auto intro: hb_emit_ok [of "w\<lparr>hw_reg := s'\<rparr>" i DeviceStatusOnline now m])
  show ?thesis
    using e g u b emit assms(2) by (cases "dev_Status d = DeviceStatusOnline") (auto simp: hb_Touch_def)
qed

end

section \<open>Properties\<close>

text \<open>C20. \<open>Sweep\<close> never panics or fails on a registry that keeps its contract: it turns
  offline exactly the online devices that have been silent for the timeout (and whose offline
  record can be stored), keeps their last-seen time, changes nothing else, and publishes
  exactly one offline event for each of them and makes one callback.\<close>

theorem sweep_exact:
  assumes "registry_contract R devs I storable" and "I (hw_reg w)" and "br_inv (hw_broker w)"
  shows "\<exists>w' off. hb_Sweep R m now w = Some (w', None) \<and> distinct (map dev_ID off) \<and>
     (\<forall>d. d \<in> set off \<longleftrightarrow> devs (hw_reg w) (dev_ID d) = Some d \<and> stale m now d \<and> storable (gone d)) \<and>
     (\<forall>i. devs (hw_reg w') i = (case devs (hw_reg w) i of None \<Rightarrow> None
        | Some d \<Rightarrow> Some (if stale m now d \<and> storable (gone d) then gone d else d))) \<and>
     br_Publish_all (hw_broker w) (map (\<lambda>d. status_event (dev_ID d) DeviceStatusOffline now) off) = Some (hw_broker w') \<and>
     hw_calls w' = hw_calls w @ (if mon_notify m then map (\<lambda>d. (dev_ID d, False)) off else [])"
  using registry_contract.sweep [OF assms] by blast

definition hb_demo :: "MemoryRegistry hb_world" where
  "hb_demo = \<lparr>hw_reg = \<lparr>mr_devices = [(''a'', zero_Device\<lparr>dev_ID := ''a'', dev_Status := DeviceStatusOnline, dev_LastSeen := 10\<rparr>),
       (''b'', zero_Device\<lparr>dev_ID := ''b'', dev_Status := DeviceStatusOnline, dev_LastSeen := 100\<rparr>)], mr_nextID = 0\<rparr>,
     hw_broker = NewBroker, hw_calls = []\<rparr>"

definition mon_demo :: Monitor where
  "mon_demo = NewMonitor 30 90 True"

lemma hb_demo_inv: "mr_inv (hw_reg hb_demo)" "br_inv (hw_broker hb_demo)"
  by (simp_all add: hb_demo_def mr_inv_def gm_ok_def zero_Device_def wf_labels_def br_inv_New)

theorem sweep_exact_witness:
  "\<exists>w' (off :: Device list). hb_Sweep mr_ops mon_demo 120 hb_demo = Some (w', None) \<and> distinct (map dev_ID off) \<and>
     hw_calls w' = hw_calls hb_demo @ map (\<lambda>d. (dev_ID d, False)) off"
proof -
  have n: "mon_notify mon_demo" by (simp add: mon_demo_def NewMonitor_def)
  from sweep_exact [OF mr.registry_contract_axioms hb_demo_inv, of mon_demo 120] show ?thesis
    unfolding if_P [OF n] by blast
qed

text \<open>\<open>Touch\<close> on a registered device records it as online and seen now, and publishes an
  online event and makes a callback exactly when it was not online before; no other device changes.\<close>

theorem touch_marks_online:
  assumes "registry_contract R devs I storable" and "I (hw_reg w)" and "br_inv (hw_broker w)"
    and "devs (hw_reg w) i = Some d" and "storable (d\<lparr>dev_Status := DeviceStatusOnline, dev_LastSeen := now\<rparr>)"
  shows "\<exists>w'. hb_Touch R m now i w = Some (w', None) \<and>
     devs (hw_reg w') = (devs (hw_reg w))(i \<mapsto> d\<lparr>dev_Status := DeviceStatusOnline, dev_LastSeen := now\<rparr>) \<and>
     (if dev_Status d = DeviceStatusOnline then hw_broker w' = hw_broker w \<and> hw_calls w' = hw_calls w
      else br_Publish (hw_broker w) (status_event i DeviceStatusOnline now) = Some (hw_broker w') \<and>
        hw_calls w' = hw_calls w @ (if mon_notify m then [(i, True)] else []))"
  using registry_contract.touch [OF assms] by blast

theorem touch_marks_online_witness:
  "\<exists>w' d. gm_get (mr_devices (hw_reg hb_demo)) ''a'' = Some d \<and>
     hb_Touch mr_ops mon_demo 130 ''a'' hb_demo = Some (w', None) \<and>
     gm_get (mr_devices (hw_reg w')) ''a'' = Some (d\<lparr>dev_Status := DeviceStatusOnline, dev_LastSeen := 130\<rparr>)"
proof -
  obtain d where d: "gm_get (mr_devices (hw_reg hb_demo)) ''a'' = Some d"
    by (simp add: hb_demo_def)
  from touch_marks_online [OF mr.registry_contract_axioms hb_demo_inv d, where now = 130 and m = mon_demo] d show ?thesis by auto
qed

text \<open>C19. A device touched at some time stays online through every later sweep made less than
  the timeout after the touch, and \<open>Run\<close> never panics for a monitor made by \<open>NewMonitor\<close>,
  whatever interval and timeout were configured.\<close>

theorem touched_stays_online:
  assumes "registry_contract R devs I storable" and "I (hw_reg w)" and "br_inv (hw_broker w)"
    and "devs (hw_reg w) i = Some d" and "dev_Status d = DeviceStatusOnline"
    and "\<And>t. t \<in> set ticks \<Longrightarrow> time_Sub t (dev_LastSeen d) < mon_timeout (NewMonitor iv to notify)"
  shows "\<exists>w'. hb_Run R (NewMonitor iv to notify) ticks w = Some w' \<and> devs (hw_reg w') i = Some d"
proof -
  let ?m = "NewMonitor iv to notify"
  have "\<exists>w'. hb_ticks R ?m ticks w = Some w' \<and> devs (hw_reg w') i = Some d"
    using assms(2-4,6)
  proof (induction ticks arbitrary: w)
    case (Cons t ts)
    obtain w' where w': "hb_Sweep R ?m t w = Some (w', None)" "I (hw_reg w')" "br_inv (hw_broker w')"
      "devs (hw_reg w') i = (case devs (hw_reg w) i of None \<Rightarrow> None
        | Some d \<Rightarrow> Some (if stale ?m t d \<and> storable (gone d) then gone d else d))"
      using registry_contract.sweep [OF assms(1) Cons.prems(1,2), of ?m t] by blast
    have "\<not> stale ?m t d" using Cons.prems(4) [of t] by (simp add: stale_def)
    with w' Cons.prems have "devs (hw_reg w') i = Some d" by simp
    with Cons.IH [OF w'(2,3)] w'(1) Cons.prems(4) show ?case by simp
  qed simp
  moreover have "0 < mon_interval ?m"
    by (simp add: NewMonitor_def DefaultInterval_def second_def)
  ultimately show ?thesis by (simp add: hb_Run_def)
qed

theorem touched_stays_online_witness:
  "\<exists>w'. hb_Run mr_ops (NewMonitor (- 5) 90 True) [120, 150, 180] hb_demo = Some w' \<and>
     gm_get (mr_devices (hw_reg w')) ''b'' = gm_get (mr_devices (hw_reg hb_demo)) ''b''"
proof -
  obtain d where d: "gm_get (mr_devices (hw_reg hb_demo)) ''b'' = Some d" "dev_Status d = DeviceStatusOnline" "dev_LastSeen d = 100"
    by (simp add: hb_demo_def zero_Device_def)
  have "\<And>t. t \<in> set [120, 150, 180] \<Longrightarrow> time_Sub t (dev_LastSeen d) < mon_timeout (NewMonitor (- 5) 90 True)"
    unfolding d(3) by (auto simp: NewMonitor_def time_Sub_def minDuration_def maxDuration_def)
  from touched_stays_online [OF mr.registry_contract_axioms hb_demo_inv d(1,2), of "[120, 150, 180]" "- 5" 90 True, OF this] d(1) show ?thesis by simp
qed

end
