(* ===== verification/Auth.thy ===== *)
theory Auth
  imports Registry
begin

text \<open>
  Authentication and authorization (\<open>internal/auth\<close>): the RBAC matrix with per-device ACL
  override (\<open>rbac.go\<close>), API keys (\<open>apikey.go\<close>), mTLS identities (\<open>mtls.go\<close>), JWT bearer tokens
  (\<open>jwt.go\<close>) and the order in which the interceptor tries them (\<open>interceptor.go\<close>). The bucket of
  the key store, bcrypt and the JWT library are third-party code and arguments of the
  definitions; the JWKS endpoint's response and the clock are inputs.
\<close>

section \<open>RBAC and ACL\<close>

type_synonym Role = string

definition RoleAdmin :: Role where "RoleAdmin = ''admin''"
definition RoleOperator :: Role where "RoleOperator = ''operator''"
definition RoleReader :: Role where "RoleReader = ''reader''"
definition RoleDevice :: Role where "RoleDevice = ''device''"

lemmas role_defs = RoleAdmin_def RoleOperator_def RoleReader_def RoleDevice_def

record Identity =
  id_Subject :: string
  id_Role :: Role
  id_DeviceID :: string

datatype Operation =
    OpRegisterDevice | OpGetDevice | OpListDevices | OpDeleteDevice | OpGetProperty | OpSetProperty
  | OpSendCommand | OpSubscribe | OpStreamCommands | OpPublishSchema | OpGetSchema | OpListSchemas

datatype permission = deny | allow | ownOnly

text \<open>A row of the matrix; a role that is not in it has the zero value \<open>deny\<close>.\<close>

definition row :: "permission \<Rightarrow> permission \<Rightarrow> permission \<Rightarrow> permission \<Rightarrow> (Role, permission) gomap" where
  "row a p r d = [(RoleAdmin, a), (RoleOperator, p), (RoleReader, r), (RoleDevice, d)]"

fun rbac :: "Operation \<Rightarrow> (Role, permission) gomap" where
  "rbac OpRegisterDevice = row allow allow deny allow"
| "rbac OpGetDevice = row allow allow allow ownOnly"
| "rbac OpListDevices = row allow allow allow deny"
| "rbac OpDeleteDevice = row allow allow deny deny"
| "rbac OpGetProperty = row allow allow allow ownOnly"
| "rbac OpSetProperty = row allow allow deny ownOnly"
| "rbac OpSendCommand = row allow allow deny ownOnly"
| "rbac OpSubscribe = row allow allow allow ownOnly"
| "rbac OpStreamCommands = row allow allow deny ownOnly"
| "rbac OpPublishSchema = row allow allow deny deny"
| "rbac OpGetSchema = row allow allow allow deny"
| "rbac OpListSchemas = row allow allow allow deny"

definition rbacAllows :: "Identity \<Rightarrow> Operation \<Rightarrow> string \<Rightarrow> bool" where
  "rbacAllows i op deviceID =
     (case (case gm_get (rbac op) (id_Role i) of None \<Rightarrow> deny | Some p \<Rightarrow> p) of
        allow \<Rightarrow> True
      | ownOnly \<Rightarrow> deviceID \<noteq> [] \<and> id_DeviceID i = deviceID
      | deny \<Rightarrow> False)"

fun Authorize :: "Identity \<Rightarrow> Operation \<Rightarrow> string \<Rightarrow> ACLEntry list \<Rightarrow> code option" where
  "Authorize i op deviceID [] = (if rbacAllows i op deviceID then None else Some CodePermissionDenied)"
| "Authorize i op deviceID (entry # acl) =
     (if acl_Subject entry \<noteq> id_Subject i then Authorize i op deviceID acl
      else if acl_Allow entry then None else Some CodePermissionDenied)"

section \<open>mTLS\<close>

text \<open>The peer of a connection: none, one without TLS, or the common names of its certificates.\<close>

datatype peer = NoPeer | PeerPlain | PeerTLS "string list"

definition IdentityFromPeerCert :: "string \<Rightarrow> Identity" where
  "IdentityFromPeerCert cn = \<lparr>id_Subject = cn, id_Role = RoleDevice, id_DeviceID = cn\<rparr>"

fun IdentityFromContext :: "peer \<Rightarrow> Identity option" where
  "IdentityFromContext NoPeer = None"
| "IdentityFromContext PeerPlain = None"
| "IdentityFromContext (PeerTLS []) = None"
| "IdentityFromContext (PeerTLS (cn # cns)) = Some (IdentityFromPeerCert cn)"

section \<open>API keys\<close>

record apiKeyRecord =
  ak_Subject :: string
  ak_Role :: Role
  ak_HashedKey :: "byte list option"

definition marshal_apiKey :: "apiKeyRecord \<Rightarrow> json" where
  "marshal_apiKey r = JObj [(''Subject'', JStr (ak_Subject r)), (''Role'', JStr (ak_Role r)),
     (''HashedKey'', enc_bytes (ak_HashedKey r))]"

definition dec_apiKey_field :: "string \<times> json \<Rightarrow> apiKeyRecord \<Rightarrow> apiKeyRecord option" where
  "dec_apiKey_field kv r =
     (if EqualFold (fst kv) ''Subject'' then map_option (\<lambda>s. r\<lparr>ak_Subject := s\<rparr>) (dec_string (snd kv) (ak_Subject r))
      else if EqualFold (fst kv) ''Role'' then map_option (\<lambda>s. r\<lparr>ak_Role := s\<rparr>) (dec_string (snd kv) (ak_Role r))
      else if EqualFold (fst kv) ''HashedKey''
        then map_option (\<lambda>b. r\<lparr>ak_HashedKey := b\<rparr>) (dec_bytes (snd kv) (ak_HashedKey r))
      else Some r)"

fun unmarshal_apiKey :: "json \<Rightarrow> apiKeyRecord option" where
  "unmarshal_apiKey (JObj kvs) = dec_fold dec_apiKey_field kvs \<lparr>ak_Subject = [], ak_Role = [], ak_HashedKey = None\<rparr>"
| "unmarshal_apiKey JNull = Some \<lparr>ak_Subject = [], ak_Role = [], ak_HashedKey = None\<rparr>"
| "unmarshal_apiKey _ = None"

text \<open>\<open>gen\<close> is \<open>bcrypt.GenerateFromPassword\<close> at the fixed cost (None when it fails), \<open>verify\<close> is
  \<open>bcrypt.CompareHashAndPassword\<close> without an error.\<close>

definition ak_Put :: "'b bucket_ops \<Rightarrow> (string \<Rightarrow> byte list option) \<Rightarrow> 'b \<Rightarrow> string \<Rightarrow> Role \<Rightarrow> string \<Rightarrow> 'b \<times> fault option" where
  "ak_Put B gen b subject role rawKey =
     (case gen rawKey of
        None \<Rightarrow> (b, Some opaque_fault)
      | Some h \<Rightarrow>
          err_of (db_Update b (\<lambda>b. map_sum id (\<lambda>b'. (b', ()))
            (bk_Put B b subject (marshal_apiKey \<lparr>ak_Subject = subject, ak_Role = role, ak_HashedKey = Some h\<rparr>)))))"

definition ak_Has :: "'b bucket_ops \<Rightarrow> 'b \<Rightarrow> string \<Rightarrow> bool" where
  "ak_Has B b subject \<longleftrightarrow> bk_Get B b subject \<noteq> None"

fun ak_scan :: "(byte list option \<Rightarrow> string \<Rightarrow> bool) \<Rightarrow> string \<Rightarrow> (string \<times> json) list \<Rightarrow> apiKeyRecord option \<Rightarrow>
    fault + apiKeyRecord option" where
  "ak_scan verify rawKey [] found = Inr found"
| "ak_scan verify rawKey ((k, j) # kvs) found =
     (if found \<noteq> None then ak_scan verify rawKey kvs found
      else case unmarshal_apiKey j of
             None \<Rightarrow> Inl opaque_fault
           | Some r \<Rightarrow> ak_scan verify rawKey kvs (if verify (ak_HashedKey r) rawKey then Some r else None))"

definition ak_Authenticate ::
    "'b bucket_ops \<Rightarrow> (byte list option \<Rightarrow> string \<Rightarrow> bool) \<Rightarrow> 'b \<Rightarrow> string \<Rightarrow> fault + Identity" where
  "ak_Authenticate B verify b rawKey =
     (case ak_scan verify rawKey (bk_items B b) None of
        Inl e \<Rightarrow> Inl e
      | Inr None \<Rightarrow> Inl (Fault [KeyNotFoundE])
      | Inr (Some r) \<Rightarrow> Inr \<lparr>id_Subject = ak_Subject r, id_Role = ak_Role r, id_DeviceID = []\<rparr>)"

section \<open>JWT\<close>

definition jwksMaxStaleness :: duration where
  "jwksMaxStaleness = 5 * 60 * second"

record jwk =
  jwk_Kty :: string
  jwk_Kid :: string
  jwk_N :: string
  jwk_E :: string

record rsaKey =
  rsa_N :: nat
  rsa_E :: int64

text \<open>\<open>base64.RawURLEncoding.DecodeString\<close>: carriage returns and line feeds are skipped, there
  is no padding, and the unused low bits of a last partial group are dropped.\<close>

definition b64url_digit :: "char \<Rightarrow> nat option" where
  "b64url_digit c =
     (let n = (of_char c :: nat) in
      if 65 \<le> n \<and> n \<le> 90 then Some (n - 65)
      else if 97 \<le> n \<and> n \<le> 122 then Some (n - 71)
      else if 48 \<le> n \<and> n \<le> 57 then Some (n + 4)
      else if c = CHR ''-'' then Some 62
      else if c = CHR ''_'' then Some 63
      else None)"

fun b64_groups :: "nat list \<Rightarrow> nat list option" where
  "b64_groups (a # b # c # d # ds) =
     (let v = ((a * 64 + b) * 64 + c) * 64 + d in
      map_option (\<lambda>bs. (v div 65536) # (v div 256 mod 256) # (v mod 256) # bs) (b64_groups ds))"
| "b64_groups [a, b, c] = (let v = (a * 64 + b) * 64 + c in Some [v div 1024, v div 4 mod 256])"
| "b64_groups [a, b] = Some [(a * 64 + b) div 16]"
| "b64_groups [a] = None"
| "b64_groups [] = Some []"

definition RawURLDecode :: "string \<Rightarrow> nat list option" where
  "RawURLDecode s =
     (let cs = filter (\<lambda>c. c \<noteq> CHR 0x0D \<and> c \<noteq> CHR 0x0A) s in
      if \<exists>c \<in> set cs. b64url_digit c = None then None
      else b64_groups (map (\<lambda>c. the (b64url_digit c)) cs))"

definition SetBytes :: "nat list \<Rightarrow> nat" where
  "SetBytes bs = foldl (\<lambda>a b. 256 * a + b) 0 bs"

definition rsaPublicKeyFromJWK :: "jwk \<Rightarrow> rsaKey option" where
  "rsaPublicKeyFromJWK k =
     (case RawURLDecode (jwk_N k) of
        None \<Rightarrow> None
      | Some nBytes \<Rightarrow>
          (case RawURLDecode (jwk_E k) of
             None \<Rightarrow> None
           | Some eBytes \<Rightarrow> Some \<lparr>rsa_N = SetBytes nBytes, rsa_E = of_nat (SetBytes eBytes)\<rparr>))"

definition dec_jwk_field :: "string \<times> json \<Rightarrow> jwk \<Rightarrow> jwk option" where
  "dec_jwk_field kv k =
     (if EqualFold (fst kv) ''kty'' then map_option (\<lambda>s. k\<lparr>jwk_Kty := s\<rparr>) (dec_string (snd kv) (jwk_Kty k))
      else if EqualFold (fst kv) ''kid'' then map_option (\<lambda>s. k\<lparr>jwk_Kid := s\<rparr>) (dec_string (snd kv) (jwk_Kid k))
      else if EqualFold (fst kv) ''n'' then map_option (\<lambda>s. k\<lparr>jwk_N := s\<rparr>) (dec_string (snd kv) (jwk_N k))
      else if EqualFold (fst kv) ''e'' then map_option (\<lambda>s. k\<lparr>jwk_E := s\<rparr>) (dec_string (snd kv) (jwk_E k))
      else Some k)"

definition zero_jwk :: jwk where
  "zero_jwk = \<lparr>jwk_Kty = [], jwk_Kid = [], jwk_N = [], jwk_E = []\<rparr>"

fun dec_jwk :: "json \<Rightarrow> jwk option" where
  "dec_jwk (JObj kvs) = dec_fold dec_jwk_field kvs zero_jwk"
| "dec_jwk JNull = Some zero_jwk"
| "dec_jwk _ = None"

fun dec_jwks_field :: "string \<times> json \<Rightarrow> jwk list \<Rightarrow> jwk list option" where
  "dec_jwks_field (k, v) old =
     (if EqualFold k ''keys''
      then (case v of JNull \<Rightarrow> Some [] | JArr js \<Rightarrow> dec_list dec_jwk js | _ \<Rightarrow> None)
      else Some old)"

fun dec_jwks :: "json \<Rightarrow> jwk list option" where
  "dec_jwks (JObj kvs) = dec_fold dec_jwks_field kvs []"
| "dec_jwks JNull = Some []"
| "dec_jwks _ = None"

fun jwks_keys :: "jwk list \<Rightarrow> (string, rsaKey) gomap \<Rightarrow> (string, rsaKey) gomap option" where
  "jwks_keys [] keys = Some keys"
| "jwks_keys (k # ks) keys =
     (if jwk_Kty k \<noteq> ''RSA'' then jwks_keys ks keys
      else case rsaPublicKeyFromJWK k of
             None \<Rightarrow> None
           | Some key \<Rightarrow> jwks_keys ks (gm_put (jwk_Kid k) key keys))"

record JWTValidator =
  jv_audience :: string
  jv_issuer :: string
  jv_keys :: "(string, rsaKey) gomap"
  jv_lastFetched :: time

text \<open>What the JWKS endpoint answered: nothing, or a status and a body (None when it is not JSON).\<close>

datatype jwks_reply = Unreachable | Reply int "json option"

definition jv_refresh :: "JWTValidator \<Rightarrow> jwks_reply \<Rightarrow> time \<Rightarrow> JWTValidator \<times> fault option" where
  "jv_refresh v reply now =
     (case reply of
        Unreachable \<Rightarrow> (v, Some opaque_fault)
      | Reply st body \<Rightarrow>
          if st \<noteq> 200 then (v, Some opaque_fault)
          else case (case body of None \<Rightarrow> None | Some j \<Rightarrow> dec_jwks j) of
                 None \<Rightarrow> (v, Some opaque_fault)
               | Some ks \<Rightarrow>
                   (case jwks_keys ks [] of
                      None \<Rightarrow> (v, Some opaque_fault)
                    | Some keys \<Rightarrow>
                        if keys = [] then (v, Some opaque_fault)
                        else (v\<lparr>jv_keys := keys, jv_lastFetched := now\<rparr>, None)))"

definition NewJWTValidator :: "string \<Rightarrow> string \<Rightarrow> jwks_reply \<Rightarrow> time \<Rightarrow> fault + JWTValidator" where
  "NewJWTValidator audience issuer reply now =
     (case jv_refresh \<lparr>jv_audience = audience, jv_issuer = issuer, jv_keys = [], jv_lastFetched = 0\<rparr> reply now of
        (v, None) \<Rightarrow> Inr v
      | (v, Some e) \<Rightarrow> Inl e)"

definition parseRole :: "string \<Rightarrow> Role option" where
  "parseRole s = (if s \<in> set [RoleAdmin, RoleOperator, RoleReader, RoleDevice] then Some s else None)"

text \<open>\<open>parse\<close> is \<open>jwt.Parse\<close> with the key function, the valid methods, the audience and the
  issuer; it gives the string-valued claims of a valid token.\<close>

type_synonym jwt_parse = "string \<Rightarrow> (string \<Rightarrow> rsaKey option) \<Rightarrow> string list \<Rightarrow> string \<Rightarrow> string \<Rightarrow> (string \<rightharpoonup> string) option"

definition jwt_methods :: "string list" where
  "jwt_methods = [''RS256'', ''RS384'', ''RS512'']"

definition jv_Validate ::
    "jwt_parse \<Rightarrow> JWTValidator \<Rightarrow> jwks_reply \<Rightarrow> time \<Rightarrow> time \<Rightarrow> string \<Rightarrow> JWTValidator \<times> (code + Identity)" where
  "jv_Validate parse v reply now now' rawToken =
     (case jv_refresh v reply now of (v', refreshErr) \<Rightarrow>
        (v', if refreshErr \<noteq> None \<and> time_Sub now' (jv_lastFetched v') > jwksMaxStaleness then Inl CodeUnavailable
             else case parse rawToken (gm_get (jv_keys v')) jwt_methods (jv_audience v') (jv_issuer v') of
                    None \<Rightarrow> Inl CodeUnauthenticated
                  | Some claims \<Rightarrow>
                      Inr \<lparr>id_Subject = (case claims ''sub'' of None \<Rightarrow> [] | Some s \<Rightarrow> s),
                           id_Role = (case claims ''role'' of None \<Rightarrow> RoleReader
                              | Some r \<Rightarrow> (case parseRole r of None \<Rightarrow> RoleReader | Some p \<Rightarrow> p)),
                           id_DeviceID = []\<rparr>))"

section \<open>The interceptor\<close>

text \<open>
  \<open>apikeys\<close> is the key store's \<open>Authenticate\<close> (None when the gateway has no key store) and
  \<open>jwt\<close> is \<open>Validate\<close> at the time of the call (None when no JWKS URL is configured).
\<close>

definition authenticate_jwt :: "(string \<Rightarrow> code + Identity) option \<Rightarrow> (string \<Rightarrow> string list) \<Rightarrow> code + Identity" where
  "authenticate_jwt jwt md =
     (case (jwt, md ''authorization'') of
        (Some validate, h # hs) \<Rightarrow>
          if HasPrefix h ''Bearer '' then validate (TrimPrefix h ''Bearer '') else Inl CodeUnauthenticated
      | _ \<Rightarrow> Inl CodeUnauthenticated)"

definition authenticate ::
    "(string \<Rightarrow> fault + Identity) option \<Rightarrow> (string \<Rightarrow> code + Identity) option \<Rightarrow> peer \<Rightarrow> (string \<Rightarrow> string list) \<Rightarrow>
     code + Identity" where
  "authenticate apikeys jwt p md =
     (case IdentityFromContext p of
        Some i \<Rightarrow> Inr i
      | None \<Rightarrow>
          (case (apikeys, md ''x-api-key'') of
             (Some auth, k # ks) \<Rightarrow>
               if k \<noteq> [] then (case auth k of Inl e \<Rightarrow> Inl CodeUnauthenticated | Inr i \<Rightarrow> Inr i)
               else authenticate_jwt jwt md
           | _ \<Rightarrow> authenticate_jwt jwt md))"

definition UnaryInterceptor :: "code + Identity \<Rightarrow> (Identity \<Rightarrow> code + 'r) \<Rightarrow> code + 'r" where
  "UnaryInterceptor auth handler = (case auth of Inl c \<Rightarrow> Inl c | Inr i \<Rightarrow> handler i)"

section \<open>Authorization facts\<close>

lemma Authorize_acl:
  "Authorize i op d acl =
     (case find (\<lambda>e. acl_Subject e = id_Subject i) acl of
        Some e \<Rightarrow> if acl_Allow e then None else Some CodePermissionDenied
      | None \<Rightarrow> if rbacAllows i op d then None else Some CodePermissionDenied)"
  by (induction acl) auto

lemma rbac_device: "rbacAllows i op d \<Longrightarrow> id_Role i = RoleDevice \<Longrightarrow>
    op = OpRegisterDevice \<or> (d \<noteq> [] \<and> id_DeviceID i = d \<and>
      op \<in> {OpGetDevice, OpGetProperty, OpSetProperty, OpSendCommand, OpSubscribe, OpStreamCommands})"
  by (cases op) (auto simp: rbacAllows_def row_def role_defs split: if_splits)

lemma rbac_reader: "id_Role i = RoleReader \<Longrightarrow>
    rbacAllows i op d \<longleftrightarrow> op \<in> {OpGetDevice, OpListDevices, OpGetProperty, OpSubscribe, OpGetSchema, OpListSchemas}"
  by (cases op) (auto simp: rbacAllows_def row_def role_defs)

lemma rbac_unknown: "id_Role i \<notin> {RoleAdmin, RoleOperator, RoleReader, RoleDevice} \<Longrightarrow> \<not> rbacAllows i op d"
  by (cases op) (auto simp: rbacAllows_def row_def)

lemma rbac_admin: "id_Role i \<in> {RoleAdmin, RoleOperator} \<Longrightarrow> rbacAllows i op d"
  by (cases op) (auto simp: rbacAllows_def row_def role_defs)

section \<open>The key store\<close>

text \<open>
  What bcrypt documents: a password longer than 72 bytes is refused, and a hash verifies
  exactly the password it was made from (for passwords bcrypt can tell apart: at most 72 bytes
  and without the NUL byte its key schedule uses as a terminator).
\<close>

definition plain_key :: "string \<Rightarrow> bool" where
  "plain_key k \<longleftrightarrow> length k \<le> 72 \<and> CHR 0x00 \<notin> set k"

locale bcrypt =
  fixes gen :: "string \<Rightarrow> byte list option" and verify :: "byte list option \<Rightarrow> string \<Rightarrow> bool"
  assumes too_long: "gen k = None \<longleftrightarrow> 72 < length k"
    and verifies: "gen k = Some h \<Longrightarrow> plain_key k \<Longrightarrow> plain_key k' \<Longrightarrow> verify (Some h) k' \<longleftrightarrow> k' = k"

text \<open>The table of a store: for each subject its role and the key its hash was made from.\<close>

fun ak_entry :: "(string \<Rightarrow> byte list option) \<Rightarrow> string \<Rightarrow> (Role \<times> string) option \<Rightarrow> json option \<Rightarrow> bool" where
  "ak_entry gen s None j = (j = None)"
| "ak_entry gen s (Some (role, k)) j = (plain_key k \<and> (\<exists>h. gen k = Some h \<and>
     j = Some (marshal_apiKey \<lparr>ak_Subject = s, ak_Role = role, ak_HashedKey = Some h\<rparr>)))"

definition ak_table :: "'b bucket_ops \<Rightarrow> (string \<Rightarrow> byte list option) \<Rightarrow> 'b \<Rightarrow> (string \<rightharpoonup> Role \<times> string) \<Rightarrow> bool" where
  "ak_table B gen b T \<longleftrightarrow> (\<forall>s. ak_entry gen s (T s) (bk_Get B b s))"

lemma unmarshal_marshal_apiKey: "unmarshal_apiKey (marshal_apiKey r) = Some r"
  by (cases "ak_HashedKey r")
    (auto simp: marshal_apiKey_def dec_apiKey_field_def EqualFold_def ToLower_def to_lower_def enc_bytes_def)

lemma ak_scan_find:
  assumes "\<And>k j. (k, j) \<in> set kvs \<Longrightarrow> \<exists>r. j = marshal_apiKey r"
  shows "ak_scan verify key kvs None =
     Inr (find (\<lambda>r. verify (ak_HashedKey r) key) (map (\<lambda>(k, j). the (unmarshal_apiKey j)) kvs))"
  using assms
proof (induction kvs)
  case (Cons kv kvs)
  obtain k j where kv: "kv = (k, j)" by (cases kv)
  then obtain r where j: "j = marshal_apiKey r" using Cons.prems [of k j] by auto
  have "ak_scan verify key kvs (Some r) = Inr (Some r)"
    by (induction kvs) auto
  moreover have "ak_scan verify key kvs None =
      Inr (find (\<lambda>r. verify (ak_HashedKey r) key) (map (\<lambda>(k, j). the (unmarshal_apiKey j)) kvs))"
    using Cons.prems by (intro Cons.IH) auto
  ultimately show ?case using kv j by (simp add: unmarshal_marshal_apiKey)
qed simp

locale key_store = bucket B sq fits + bcrypt gen verify
  for B :: "'b bucket_ops" and sq fits gen verify
begin

lemma Put_table:
  assumes "ak_table B gen b T" and "plain_key k" and "valid_key s"
    and "\<And>h. gen k = Some h \<Longrightarrow> fits (marshal_apiKey \<lparr>ak_Subject = s, ak_Role = role, ak_HashedKey = Some h\<rparr>)"
  shows "\<exists>b'. ak_Put B gen b s role k = (b', None) \<and> ak_table B gen b' (T(s \<mapsto> (role, k)))"
proof -
  obtain h where h: "gen k = Some h" using too_long assms(2) by (cases "gen k") (auto simp: plain_key_def)
  obtain b' where b': "bk_Put B b s (marshal_apiKey \<lparr>ak_Subject = s, ak_Role = role, ak_HashedKey = Some h\<rparr>) = Inr b'"
    "bk_Get B b' = (bk_Get B b)(s \<mapsto> marshal_apiKey \<lparr>ak_Subject = s, ak_Role = role, ak_HashedKey = Some h\<rparr>)"
    using put_law [OF assms(3) assms(4) [OF h]] by blast
  have "ak_table B gen b' (T(s \<mapsto> (role, k)))"
    using assms(1,2) h b'(2) by (auto simp: ak_table_def)
  with h b'(1) show ?thesis by (auto simp: ak_Put_def db_Update_def err_of_def)
qed

lemma Authenticate_table:
  assumes "ak_table B gen b T" and "plain_key k"
  shows "ak_Authenticate B verify b k = Inr i \<Longrightarrow>
      T (id_Subject i) = Some (id_Role i, k) \<and> id_DeviceID i = []"
    and "T s = Some (role, k) \<Longrightarrow> \<exists>i. ak_Authenticate B verify b k = Inr i"
proof -
  let ?items = "bk_items B b"
  have mem: "(s, j) \<in> set ?items \<longleftrightarrow> bk_Get B b s = Some j" for s j
    using items_law [of b] gm_in_iff [of ?items s j] by simp
  have rec: "(s, j) \<in> set ?items \<Longrightarrow> \<exists>role k' h. T s = Some (role, k') \<and> plain_key k' \<and> gen k' = Some h \<and>
      j = marshal_apiKey \<lparr>ak_Subject = s, ak_Role = role, ak_HashedKey = Some h\<rparr>" for s j
    using assms(1) unfolding mem ak_table_def by (cases "T s") (auto dest!: spec [of _ s])
  have scan: "ak_scan verify k ?items None =
      Inr (find (\<lambda>r. verify (ak_HashedKey r) k) (map (\<lambda>(k, j). the (unmarshal_apiKey j)) ?items))"
    using rec by (intro ak_scan_find) blast
  { assume "ak_Authenticate B verify b k = Inr i"
    then obtain r where r: "r \<in> set (map (\<lambda>(k, j). the (unmarshal_apiKey j)) ?items)" "verify (ak_HashedKey r) k"
      and i: "i = \<lparr>id_Subject = ak_Subject r, id_Role = ak_Role r, id_DeviceID = []\<rparr>"
      unfolding ak_Authenticate_def scan by (auto dest: find_SomeD split: option.splits)
    then obtain s j where "(s, j) \<in> set ?items" "r = the (unmarshal_apiKey j)" by auto
    with rec obtain role k' h where "T s = Some (role, k')" "plain_key k'" "gen k' = Some h"
      "r = \<lparr>ak_Subject = s, ak_Role = role, ak_HashedKey = Some h\<rparr>"
      by (metis option.sel unmarshal_marshal_apiKey)
    with r(2) verifies [of k' h k] assms(2) i show "T (id_Subject i) = Some (id_Role i, k) \<and> id_DeviceID i = []"
      by auto }
  { assume "T s = Some (role, k)"
    then obtain h where h: "gen k = Some h"
      "bk_Get B b s = Some (marshal_apiKey \<lparr>ak_Subject = s, ak_Role = role, ak_HashedKey = Some h\<rparr>)"
      using assms(1) unfolding ak_table_def by (metis ak_entry.simps(2))
    let ?r = "\<lparr>ak_Subject = s, ak_Role = role, ak_HashedKey = Some h\<rparr>"
    have "?r \<in> set (map (\<lambda>(k, j). the (unmarshal_apiKey j)) ?items)"
      using h(2) mem [of s] unmarshal_marshal_apiKey [of ?r] by (force simp: image_iff)
    moreover have "verify (ak_HashedKey ?r) k" using verifies [OF h(1) assms(2) assms(2)] by simp
    ultimately have "find (\<lambda>r. verify (ak_HashedKey r) k) (map (\<lambda>(k, j). the (unmarshal_apiKey j)) ?items) \<noteq> None"
      unfolding find_None_iff by blast
    then show "\<exists>i. ak_Authenticate B verify b k = Inr i"
      unfolding ak_Authenticate_def scan by auto }
qed

end

text \<open>A stand-in for bcrypt that keeps the key itself: the laws can be met.\<close>

definition ref_gen :: "string \<Rightarrow> byte list option" where
  "ref_gen k = (if 72 < length k then None else Some (str_bytes k))"

definition ref_verify :: "byte list option \<Rightarrow> string \<Rightarrow> bool" where
  "ref_verify h k \<longleftrightarrow> h = Some (str_bytes k)"

interpretation refk: key_store ref_bucket_ops rb_seq "\<lambda>_. True" ref_gen ref_verify
  by unfold_locales (auto simp: ref_gen_def ref_verify_def str_bytes_inj split: if_splits)

section \<open>Properties\<close>


definition acl_demo :: "ACLEntry list" where
  "acl_demo = [\<lparr>acl_Subject = ''bob'', acl_Allow = False\<rparr>]"



definition keys_demo :: ref_bucket where
  "keys_demo = \<lparr>rb_items = [(''op'', marshal_apiKey \<lparr>ak_Subject = ''op'', ak_Role = RoleOperator, ak_HashedKey = Some (str_bytes ''k1'')\<rparr>)],
     rb_seq = 0\<rparr>"


text \<open>A request authenticates by the first credential it presents, in the order client
  certificate, API key, bearer token: a certificate makes the caller the device of its common
  name, a wrong API key is never replaced by a good token, and a request without a
  credential is refused as unauthenticated.\<close>

theorem authenticate_order:
  "authenticate ak jwt (PeerTLS (cn # cns)) md = Inr \<lparr>id_Subject = cn, id_Role = RoleDevice, id_DeviceID = cn\<rparr> \<and>
   authenticate (Some (\<lambda>_. Inl e)) jwt PeerPlain (md(''x-api-key'' := (c # k) # ks)) = Inl CodeUnauthenticated \<and>
   authenticate None (Some val) PeerPlain (md(''authorization'' := (''Bearer '' @ t) # hs)) = val t \<and>
   authenticate (Some good) (Some val) PeerPlain (md(''x-api-key'' := [], ''authorization'' := (''Bearer '' @ t) # hs)) = val t \<and>
   authenticate ak jwt NoPeer (\<lambda>_. []) = Inl CodeUnauthenticated"
  by (auto simp: authenticate_def authenticate_jwt_def IdentityFromPeerCert_def TrimPrefix_def HasPrefix_def split: option.splits)


definition jwt_demo :: JWTValidator where
  "jwt_demo = \<lparr>jv_audience = ''udal'', jv_issuer = ''idp'', jv_keys = [(''k'', \<lparr>rsa_N = 35, rsa_E = 5\<rparr>)], jv_lastFetched = 1000\<rparr>"


end
