(* ===== verification/Capability_Schema.thy ===== *)
theory Capability_Schema
  imports Json
begin

text \<open>
  Capability schemas (\<open>internal/capability/schema.go\<close>, \<open>validate.go\<close>): the parsed form of a schema
  document, its decoding from JSON, the resolution of \<open>$ref\<close> chains and the validation of
  property values. A document is given as its JSON tree.
\<close>

section \<open>Data\<close>

datatype TypeDef = TypeDef
  (td_Type: string) (td_Ref: string) (td_Description: string) (td_Unit: string)
  (td_Min: "float64 option") (td_Max: "float64 option") (td_Default: "json option")
  (td_Values: "string list") (td_Items: "TypeDef option")
  (td_Properties: "(string \<times> TypeDef) list") (td_Required: "string list")

definition zero_TypeDef :: TypeDef where
  "zero_TypeDef = TypeDef [] [] [] [] None None None [] None [] []"

record PropertyDef =
  pd_TypeDef :: TypeDef
  pd_ReadOnly :: bool
  pd_WriteOnly :: bool

record ParamDef =
  pa_TypeDef :: TypeDef
  pa_Required :: bool

record CommandDef =
  cd_Description :: string
  cd_Params :: "(string, ParamDef) gomap"
  cd_Returns :: "TypeDef option"

record EventDef =
  ed_Description :: string
  ed_Payload :: "(string, TypeDef) gomap"

record Schema =
  sc_Name :: string
  sc_Version :: string
  sc_Description :: string
  sc_Raw :: json
  sc_PublishedAt :: time
  sc_Definitions :: "(string, TypeDef) gomap"
  sc_Properties :: "(string, PropertyDef) gomap"
  sc_Commands :: "(string, CommandDef) gomap"
  sc_Events :: "(string, EventDef) gomap"

section \<open>Decoding\<close>

text \<open>The raw struct of \<open>TypeDef.UnmarshalJSON\<close>; \<open>json.RawMessage\<close> fields keep the subtree.\<close>

record rawTypeDef =
  rt_Type :: string
  rt_Ref :: string
  rt_Description :: string
  rt_Unit :: string
  rt_Min :: "float64 option"
  rt_Max :: "float64 option"
  rt_Default :: "json option"
  rt_Values :: "string list"
  rt_Items :: "json option"
  rt_Properties :: "(string, json) gomap"
  rt_Required :: "json option"

definition zero_rawTypeDef :: rawTypeDef where
  "zero_rawTypeDef = \<lparr>rt_Type = [], rt_Ref = [], rt_Description = [], rt_Unit = [], rt_Min = None, rt_Max = None,
     rt_Default = None, rt_Values = [], rt_Items = None, rt_Properties = [], rt_Required = None\<rparr>"

fun dec_strings :: "json \<Rightarrow> string list \<Rightarrow> string list option" where
  "dec_strings JNull old = Some []"
| "dec_strings (JArr js) old = dec_list (\<lambda>j. dec_string j []) js"
| "dec_strings _ old = None"

text \<open>A \<open>map[string]json.RawMessage\<close>.\<close>

fun dec_raw_map :: "json \<Rightarrow> (string, json) gomap \<Rightarrow> (string, json) gomap option" where
  "dec_raw_map JNull old = Some []"
| "dec_raw_map (JObj kvs) old = Some (foldl (\<lambda>m (k, v). gm_put k v m) old kvs)"
| "dec_raw_map _ old = None"

definition dec_rawType_field :: "string \<times> json \<Rightarrow> rawTypeDef \<Rightarrow> rawTypeDef option" where
  "dec_rawType_field kv r =
     (let k = fst kv; v = snd kv in
      if EqualFold k ''type'' then map_option (\<lambda>s. r\<lparr>rt_Type := s\<rparr>) (dec_string v (rt_Type r))
      else if EqualFold k ''$ref'' then map_option (\<lambda>s. r\<lparr>rt_Ref := s\<rparr>) (dec_string v (rt_Ref r))
      else if EqualFold k ''description'' then map_option (\<lambda>s. r\<lparr>rt_Description := s\<rparr>) (dec_string v (rt_Description r))
      else if EqualFold k ''unit'' then map_option (\<lambda>s. r\<lparr>rt_Unit := s\<rparr>) (dec_string v (rt_Unit r))
      else if EqualFold k ''min'' then map_option (\<lambda>f. r\<lparr>rt_Min := f\<rparr>) (dec_ptr dec_float (FZero False) v (rt_Min r))
      else if EqualFold k ''max'' then map_option (\<lambda>f. r\<lparr>rt_Max := f\<rparr>) (dec_ptr dec_float (FZero False) v (rt_Max r))
      else if EqualFold k ''default'' then Some (r\<lparr>rt_Default := Some v\<rparr>)
      else if EqualFold k ''values'' then map_option (\<lambda>ss. r\<lparr>rt_Values := ss\<rparr>) (dec_strings v (rt_Values r))
      else if EqualFold k ''items'' then Some (r\<lparr>rt_Items := Some v\<rparr>)
      else if EqualFold k ''properties'' then map_option (\<lambda>m. r\<lparr>rt_Properties := m\<rparr>) (dec_raw_map v (rt_Properties r))
      else if EqualFold k ''required'' then Some (r\<lparr>rt_Required := Some v\<rparr>)
      else Some r)"

fun dec_rawType :: "json \<Rightarrow> rawTypeDef option" where
  "dec_rawType (JObj kvs) = dec_fold dec_rawType_field kvs zero_rawTypeDef"
| "dec_rawType JNull = Some zero_rawTypeDef"
| "dec_rawType _ = None"

text \<open>The subtrees the raw struct keeps are smaller than the document they come from.\<close>

definition raw_small :: "nat \<Rightarrow> rawTypeDef \<Rightarrow> bool" where
  "raw_small n r \<longleftrightarrow> (\<forall>j. rt_Items r = Some j \<longrightarrow> size j < n) \<and> (\<forall>k j. (k, j) \<in> set (rt_Properties r) \<longrightarrow> size j < n)"

lemma size_json_member: "(k, v) \<in> set kvs \<Longrightarrow> size v < size (JObj kvs)"
  by (induction kvs) (auto simp: less_Suc_eq trans_less_add1 trans_less_add2)

lemma set_gm_put: "set (gm_put k v m) \<subseteq> insert (k, v) (set m)"
  by (induction m) auto

lemma set_fold_put: "set (foldl (\<lambda>m (k, v). gm_put k v m) m kvs) \<subseteq> set m \<union> set kvs"
  using set_gm_put by (induction kvs arbitrary: m) (fastforce split: prod.splits)+

lemma dec_rawType_field_small:
  assumes "dec_rawType_field (k, v) r = Some r'" and "raw_small n r" and "size v < n"
  shows "raw_small n r'"
proof -
  have props: "raw_small n (r\<lparr>rt_Properties := m\<rparr>)" if "dec_raw_map v (rt_Properties r) = Some m" for m
  proof (cases v)
    case (JObj kvs)
    with that have "set m \<subseteq> set (rt_Properties r) \<union> set kvs" using set_fold_put by fastforce
    moreover have "(k, j) \<in> set kvs \<Longrightarrow> size j < n" for k j
      using size_json_member [of k j kvs] JObj assms(3) by simp
    ultimately show ?thesis using assms(2) by (auto simp: raw_small_def)
  qed (use that assms(2) in \<open>auto simp: raw_small_def\<close>)
  have "\<And>m. raw_small n (r\<lparr>rt_Type := m\<rparr>)" "\<And>m. raw_small n (r\<lparr>rt_Ref := m\<rparr>)" "\<And>m. raw_small n (r\<lparr>rt_Description := m\<rparr>)"
    "\<And>m. raw_small n (r\<lparr>rt_Unit := m\<rparr>)" "\<And>m. raw_small n (r\<lparr>rt_Min := m\<rparr>)" "\<And>m. raw_small n (r\<lparr>rt_Max := m\<rparr>)"
    "\<And>m. raw_small n (r\<lparr>rt_Default := m\<rparr>)" "\<And>m. raw_small n (r\<lparr>rt_Values := m\<rparr>)" "\<And>m. raw_small n (r\<lparr>rt_Required := m\<rparr>)"
    "raw_small n (r\<lparr>rt_Items := Some v\<rparr>)"
    using assms(2,3) by (auto simp: raw_small_def)
  with assms(1,2) props show ?thesis
    unfolding dec_rawType_field_def Let_def fst_conv snd_conv by (auto split: if_splits simp del: dec_raw_map.simps)
qed

lemma dec_rawType_small: "dec_rawType j = Some r \<Longrightarrow> raw_small (size j) r"
proof (cases j)
  case (JObj kvs)
  have "raw_small n r'" if "dec_fold dec_rawType_field xs r0 = Some r'" "raw_small n r0" "\<forall>(k, v) \<in> set xs. size v < n"
    for xs r0 r' n
    using that by (induction xs arbitrary: r0) (auto split: option.splits dest: dec_rawType_field_small)
  moreover have "raw_small (size j) zero_rawTypeDef" by (simp add: raw_small_def zero_rawTypeDef_def)
  moreover have "\<forall>(k, v) \<in> set kvs. size v < size j" using size_json_member JObj by auto
  ultimately show "dec_rawType j = Some r \<Longrightarrow> raw_small (size j) r" using JObj by auto
qed (auto simp: raw_small_def zero_rawTypeDef_def)

lemma dec_fold_cong [fundef_cong]:
  assumes "xs = ys" and "a = b" and "\<And>x c. x \<in> set ys \<Longrightarrow> f x c = g x c"
  shows "dec_fold f xs a = dec_fold g ys b"
  using assms by (induction xs arbitrary: a b ys) (auto split: option.splits)

function (sequential) parse_TypeDef :: "json \<Rightarrow> TypeDef option" where
  "parse_TypeDef j =
     (case dec_rawType j of
        None \<Rightarrow> None
      | Some raw \<Rightarrow>
          (case (if rt_Type raw = ''object'' then
                   (case rt_Required raw of None \<Rightarrow> Some [] | Some rj \<Rightarrow> dec_strings rj [])
                 else Some []) of
             None \<Rightarrow> None
           | Some required \<Rightarrow>
               (case (case rt_Items raw of None \<Rightarrow> Some None | Some ij \<Rightarrow> map_option Some (parse_TypeDef ij)) of
                  None \<Rightarrow> None
                | Some items \<Rightarrow>
                    map_option (\<lambda>props. TypeDef (rt_Type raw) (rt_Ref raw) (rt_Description raw) (rt_Unit raw) (rt_Min raw)
                        (rt_Max raw) (rt_Default raw) (rt_Values raw) items props required)
                      (dec_fold (\<lambda>(name, v) m. map_option (\<lambda>pt. gm_put name pt m) (parse_TypeDef v)) (rt_Properties raw) []))))"
  by pat_completeness auto
termination
proof (relation "measure size")
  show "wf (measure size)" by simp
next
  fix j raw a ij assume "dec_rawType j = Some raw" and "rt_Items raw = Some ij"
  then show "(ij, j) \<in> measure size" using dec_rawType_small by (auto simp: raw_small_def)
next
  fix j raw a b kv m name v
  assume "dec_rawType j = Some raw" and "kv \<in> set (rt_Properties raw)" and "(name, v) = kv"
  then show "(v, j) \<in> measure size" using dec_rawType_small by (auto simp: raw_small_def)
qed

declare parse_TypeDef.simps [simp del]

text \<open>The extra booleans of \<open>PropertyDef\<close> and \<open>ParamDef\<close>, decoded from the same document.\<close>

fun dec_flag_field :: "string \<Rightarrow> string \<times> json \<Rightarrow> bool \<Rightarrow> bool option" where
  "dec_flag_field name (k, v) b = (if EqualFold k name then dec_bool v b else Some b)"

fun dec_flag :: "string \<Rightarrow> json \<Rightarrow> bool option" where
  "dec_flag name (JObj kvs) = dec_fold (dec_flag_field name) kvs False"
| "dec_flag name JNull = Some False"
| "dec_flag name _ = None"

definition parse_PropertyDef :: "json \<Rightarrow> PropertyDef option" where
  "parse_PropertyDef j =
     (case (parse_TypeDef j, dec_flag ''readOnly'' j, dec_flag ''writeOnly'' j) of
        (Some t, Some r, Some w) \<Rightarrow> Some \<lparr>pd_TypeDef = t, pd_ReadOnly = r, pd_WriteOnly = w\<rparr>
      | _ \<Rightarrow> None)"

definition parse_ParamDef :: "json \<Rightarrow> ParamDef option" where
  "parse_ParamDef j =
     (case (parse_TypeDef j, dec_flag ''required'' j) of
        (Some t, Some r) \<Rightarrow> Some \<lparr>pa_TypeDef = t, pa_Required = r\<rparr>
      | _ \<Rightarrow> None)"

text \<open>A map whose values are decoded by \<open>f\<close>.\<close>

fun dec_map :: "(json \<Rightarrow> 'a option) \<Rightarrow> json \<Rightarrow> (string, 'a) gomap \<Rightarrow> (string, 'a) gomap option" where
  "dec_map f JNull old = Some []"
| "dec_map f (JObj kvs) old = dec_fold (\<lambda>(k, v) m. map_option (\<lambda>a. gm_put k a m) (f v)) kvs old"
| "dec_map f _ old = None"

definition dec_Command_field :: "string \<times> json \<Rightarrow> CommandDef \<Rightarrow> CommandDef option" where
  "dec_Command_field kv c =
     (if EqualFold (fst kv) ''Description'' then map_option (\<lambda>s. c\<lparr>cd_Description := s\<rparr>) (dec_string (snd kv) (cd_Description c))
      else if EqualFold (fst kv) ''Params''
        then map_option (\<lambda>m. c\<lparr>cd_Params := m\<rparr>) (dec_map parse_ParamDef (snd kv) (cd_Params c))
      else if EqualFold (fst kv) ''Returns''
        then map_option (\<lambda>t. c\<lparr>cd_Returns := t\<rparr>) (dec_ptr (\<lambda>j _. parse_TypeDef j) zero_TypeDef (snd kv) (cd_Returns c))
      else Some c)"

fun parse_CommandDef :: "json \<Rightarrow> CommandDef option" where
  "parse_CommandDef (JObj kvs) = dec_fold dec_Command_field kvs \<lparr>cd_Description = [], cd_Params = [], cd_Returns = None\<rparr>"
| "parse_CommandDef JNull = Some \<lparr>cd_Description = [], cd_Params = [], cd_Returns = None\<rparr>"
| "parse_CommandDef _ = None"

definition dec_Event_field :: "string \<times> json \<Rightarrow> EventDef \<Rightarrow> EventDef option" where
  "dec_Event_field kv e =
     (if EqualFold (fst kv) ''Description'' then map_option (\<lambda>s. e\<lparr>ed_Description := s\<rparr>) (dec_string (snd kv) (ed_Description e))
      else if EqualFold (fst kv) ''Payload''
        then map_option (\<lambda>m. e\<lparr>ed_Payload := m\<rparr>) (dec_map parse_TypeDef (snd kv) (ed_Payload e))
      else Some e)"

fun parse_EventDef :: "json \<Rightarrow> EventDef option" where
  "parse_EventDef (JObj kvs) = dec_fold dec_Event_field kvs \<lparr>ed_Description = [], ed_Payload = []\<rparr>"
| "parse_EventDef JNull = Some \<lparr>ed_Description = [], ed_Payload = []\<rparr>"
| "parse_EventDef _ = None"

definition dec_meta_field :: "string \<times> json \<Rightarrow> Schema \<Rightarrow> Schema option" where
  "dec_meta_field kv s =
     (if EqualFold (fst kv) ''name'' then map_option (\<lambda>x. s\<lparr>sc_Name := x\<rparr>) (dec_string (snd kv) (sc_Name s))
      else if EqualFold (fst kv) ''version'' then map_option (\<lambda>x. s\<lparr>sc_Version := x\<rparr>) (dec_string (snd kv) (sc_Version s))
      else if EqualFold (fst kv) ''description''
        then map_option (\<lambda>x. s\<lparr>sc_Description := x\<rparr>) (dec_string (snd kv) (sc_Description s))
      else Some s)"

definition dec_doc_field :: "string \<times> json \<Rightarrow> Schema \<Rightarrow> Schema option" where
  "dec_doc_field kv s =
     (let k = fst kv; v = snd kv in
      if EqualFold k ''metadata'' then (case v of JNull \<Rightarrow> Some s | JObj kvs \<Rightarrow> dec_fold dec_meta_field kvs s | _ \<Rightarrow> None)
      else if EqualFold k ''definitions''
        then map_option (\<lambda>m. s\<lparr>sc_Definitions := m\<rparr>) (dec_map parse_TypeDef v (sc_Definitions s))
      else if EqualFold k ''properties''
        then map_option (\<lambda>m. s\<lparr>sc_Properties := m\<rparr>) (dec_map parse_PropertyDef v (sc_Properties s))
      else if EqualFold k ''commands''
        then map_option (\<lambda>m. s\<lparr>sc_Commands := m\<rparr>) (dec_map parse_CommandDef v (sc_Commands s))
      else if EqualFold k ''events''
        then map_option (\<lambda>m. s\<lparr>sc_Events := m\<rparr>) (dec_map parse_EventDef v (sc_Events s))
      else Some s)"

definition empty_Schema :: "json \<Rightarrow> Schema" where
  "empty_Schema raw = \<lparr>sc_Name = [], sc_Version = [], sc_Description = [], sc_Raw = raw, sc_PublishedAt = 0,
     sc_Definitions = [], sc_Properties = [], sc_Commands = [], sc_Events = []\<rparr>"

definition Parse :: "json \<Rightarrow> Schema option" where
  "Parse raw =
     (case raw of
        JObj kvs \<Rightarrow> dec_fold dec_doc_field kvs (empty_Schema raw)
      | JNull \<Rightarrow> Some (empty_Schema raw)
      | _ \<Rightarrow> None)"

section \<open>Resolving references\<close>

definition ref_prefix :: string where
  "ref_prefix = ''#/definitions/''"

text \<open>
  The loop of \<open>ResolveType\<close>. Each round either ends it or adds a reference to a defined name
  to \<open>seen\<close>, so the number of definitions not yet seen decreases.
\<close>

function resolve_loop :: "(string, TypeDef) gomap \<Rightarrow> string list \<Rightarrow> TypeDef \<Rightarrow> fault + TypeDef" where
  "resolve_loop defs seen t =
     (if td_Ref t = [] then Inr t
      else if td_Ref t \<in> set seen then Inl opaque_fault
      else if \<not> HasPrefix (td_Ref t) ref_prefix then Inl opaque_fault
      else case gm_get defs (TrimPrefix (td_Ref t) ref_prefix) of
             None \<Rightarrow> Inl opaque_fault
           | Some resolved \<Rightarrow> resolve_loop defs (td_Ref t # seen) resolved)"
  by pat_completeness auto
termination
proof (relation "measure (\<lambda>(defs, seen, t). card {k \<in> fst ` set defs. ref_prefix @ k \<notin> set seen})")
  fix defs :: "(string, TypeDef) gomap" and seen t x2
  assume ref: "td_Ref t \<notin> set seen" "\<not> \<not> HasPrefix (td_Ref t) ref_prefix"
    and get: "gm_get defs (TrimPrefix (td_Ref t) ref_prefix) = Some x2"
  let ?k = "TrimPrefix (td_Ref t) ref_prefix"
  have eq: "td_Ref t = ref_prefix @ ?k"
    using ref(2) by (auto simp: TrimPrefix_def elim: HasPrefixE)
  have "?k \<in> fst ` set defs" using get by (metis domI dom_map_of_conv_image_fst)
  then have new: "?k \<in> {k \<in> fst ` set defs. ref_prefix @ k \<notin> set seen}"
    using eq ref(1) by simp
  have old: "?k \<notin> {k \<in> fst ` set defs. ref_prefix @ k \<notin> set (td_Ref t # seen)}"
    using eq by simp
  have sub: "{k \<in> fst ` set defs. ref_prefix @ k \<notin> set (td_Ref t # seen)} \<subseteq> {k \<in> fst ` set defs. ref_prefix @ k \<notin> set seen}"
    by auto
  have "card {k \<in> fst ` set defs. ref_prefix @ k \<notin> set (td_Ref t # seen)} < card {k \<in> fst ` set defs. ref_prefix @ k \<notin> set seen}"
  proof (rule psubset_card_mono)
    show "finite {k \<in> fst ` set defs. ref_prefix @ k \<notin> set seen}" by simp
    show "{k \<in> fst ` set defs. ref_prefix @ k \<notin> set (td_Ref t # seen)} \<subset> {k \<in> fst ` set defs. ref_prefix @ k \<notin> set seen}"
      using new old sub by blast
  qed
  then show "((defs, td_Ref t # seen, x2), (defs, seen, t)) \<in>
      measure (\<lambda>(defs, seen, t). card {k \<in> fst ` set defs. ref_prefix @ k \<notin> set seen})"
    by simp
qed simp

declare resolve_loop.simps [simp del]

definition ResolveType :: "Schema \<Rightarrow> TypeDef \<Rightarrow> fault + TypeDef" where
  "ResolveType s t = resolve_loop (sc_Definitions s) [] t"

section \<open>Validating values\<close>

abbreviation ErrInvalidPropertyValue :: fault where
  "ErrInvalidPropertyValue \<equiv> Fault [CapE CapErrInvalidPropertyValue]"

definition checkRange :: "TypeDef \<Rightarrow> float64 \<Rightarrow> fault option" where
  "checkRange t val =
     (if (case td_Min t of None \<Rightarrow> False | Some m \<Rightarrow> f_less val m) then Some ErrInvalidPropertyValue
      else if (case td_Max t of None \<Rightarrow> False | Some m \<Rightarrow> f_less m val) then Some ErrInvalidPropertyValue
      else None)"

fun containsString :: "string list \<Rightarrow> string \<Rightarrow> bool" where
  "containsString [] v = False"
| "containsString (x # xs) v = (x = v \<or> containsString xs v)"

definition validateValue :: "TypeDef \<Rightarrow> PropertyValue \<Rightarrow> fault option" where
  "validateValue t v =
     (if td_Type t = ''bool'' then (if pv_Bool v = None then Some ErrInvalidPropertyValue else None)
      else if td_Type t = ''int'' then
        (case pv_Int v of None \<Rightarrow> Some ErrInvalidPropertyValue | Some i \<Rightarrow> checkRange t (f_of_int (sint i)))
      else if td_Type t = ''float'' then
        (case pv_Float v of None \<Rightarrow> Some ErrInvalidPropertyValue | Some f \<Rightarrow> checkRange t f)
      else if td_Type t = ''string'' then (if pv_String v = None then Some ErrInvalidPropertyValue else None)
      else if td_Type t = ''bytes'' then (if pv_Bytes v = None then Some ErrInvalidPropertyValue else None)
      else if td_Type t = ''enum'' then
        (case pv_String v of
           None \<Rightarrow> Some ErrInvalidPropertyValue
         | Some x \<Rightarrow> if containsString (td_Values t) x then None else Some ErrInvalidPropertyValue)
      else if td_Type t = ''array'' \<or> td_Type t = ''object'' then None
      else Some opaque_fault)"

definition ValidateProperty :: "Schema \<Rightarrow> string \<Rightarrow> PropertyValue \<Rightarrow> fault option" where
  "ValidateProperty s path v =
     (case gm_get (sc_Properties s) path of
        None \<Rightarrow> Some (Fault [CapE CapErrPropertyNotDeclared])
      | Some def \<Rightarrow>
          (case ResolveType s (pd_TypeDef def) of
             Inl e \<Rightarrow> Some e
           | Inr resolved \<Rightarrow> validateValue resolved v))"

section \<open>Resolution follows the reference chain\<close>

definition ref_step :: "(string, TypeDef) gomap \<Rightarrow> TypeDef \<Rightarrow> TypeDef \<Rightarrow> bool" where
  "ref_step defs t u \<longleftrightarrow> td_Ref t \<noteq> [] \<and> HasPrefix (td_Ref t) ref_prefix \<and>
     gm_get defs (TrimPrefix (td_Ref t) ref_prefix) = Some u"

lemma ref_step_det: "ref_step defs t u \<Longrightarrow> ref_step defs t' u' \<Longrightarrow> td_Ref t = td_Ref t' \<Longrightarrow> u = u'"
  by (simp add: ref_step_def)

lemma ref_terminal: "td_Ref u = [] \<Longrightarrow> \<not> (ref_step defs ^^ Suc n) u w"
  by (metis ref_step_def relpowp_Suc_D2)

lemma ref_chain_length:
  "(ref_step defs ^^ m) t u \<Longrightarrow> (ref_step defs ^^ n) t u \<Longrightarrow> td_Ref u = [] \<Longrightarrow> m = n"
proof (induction m arbitrary: n t)
  case 0
  then show ?case using ref_terminal [where u = u and defs = defs] by (cases n) auto
next
  case (Suc m)
  obtain t' where t': "ref_step defs t t'" "(ref_step defs ^^ m) t' u"
    using Suc.prems(1) by (rule relpowp_Suc_E2)
  then obtain n' where n: "n = Suc n'"
    using Suc.prems(2,3) by (cases n) (auto simp: ref_step_def [of defs t])
  then obtain t'' where t'': "ref_step defs t t''" "(ref_step defs ^^ n') t'' u"
    using Suc.prems(2) by (metis relpowp_Suc_E2)
  have "t'' = t'" using ref_step_det t'(1) t''(1) by blast
  with t'' t'(2) Suc.IH Suc.prems(3) n show ?case by auto
qed

lemma resolve_loop_sound: "resolve_loop defs seen t = Inr u \<Longrightarrow> (ref_step defs)\<^sup>*\<^sup>* t u \<and> td_Ref u = []"
proof (induction defs seen t rule: resolve_loop.induct)
  case (1 defs seen t)
  show ?case
  proof (cases "td_Ref t = []")
    case True
    with 1(2) show ?thesis by (simp add: resolve_loop.simps)
  next
    case False
    with 1(2) obtain t' where t': "ref_step defs t t'" "td_Ref t \<notin> set seen" "resolve_loop defs (td_Ref t # seen) t' = Inr u"
      by (subst (asm) resolve_loop.simps) (auto simp: ref_step_def split: if_splits option.splits)
    then have "(ref_step defs)\<^sup>*\<^sup>* t' u \<and> td_Ref u = []"
      using 1(1) [of t'] False by (simp add: ref_step_def [of defs t])
    with t'(1) show ?thesis by (auto intro: converse_rtranclp_into_rtranclp)
  qed
qed

lemma resolve_loop_complete:
  "(ref_step defs ^^ n) t u \<Longrightarrow> td_Ref u = [] \<Longrightarrow>
     (\<And>k w. (ref_step defs ^^ k) t w \<Longrightarrow> td_Ref w \<notin> set seen) \<Longrightarrow> resolve_loop defs seen t = Inr u"
proof (induction n arbitrary: t seen)
  case 0
  then show ?case by (auto simp: resolve_loop.simps)
next
  case (Suc n)
  obtain t' where t': "ref_step defs t t'" "(ref_step defs ^^ n) t' u"
    using Suc.prems(1) by (rule relpowp_Suc_E2)
  have "td_Ref t \<notin> set seen" using Suc.prems(3) [of 0 t] by simp
  then have "resolve_loop defs seen t = resolve_loop defs (td_Ref t # seen) t'"
    using t'(1) by (subst resolve_loop.simps) (auto simp: ref_step_def)
  moreover have "resolve_loop defs (td_Ref t # seen) t' = Inr u"
  proof (rule Suc.IH [OF t'(2) Suc.prems(2)])
    fix k w assume w: "(ref_step defs ^^ k) t' w"
    have "td_Ref w \<notin> set seen"
      using Suc.prems(3) [of "Suc k" w] relpowp_Suc_I2 [of "ref_step defs", OF t'(1) w] by blast
    moreover have "td_Ref w \<noteq> td_Ref t"
    proof
      assume eq: "td_Ref w = td_Ref t"
      then have back_t': "ref_step defs w t'" using t'(1) by (simp add: ref_step_def)
      have "(ref_step defs ^^ (Suc k + n)) t' u"
        unfolding relpowp_add using relpowp_Suc_I [of k "ref_step defs", OF w back_t'] t'(2) by blast
      with ref_chain_length [OF t'(2) this Suc.prems(2)] show False by simp
    qed
    ultimately show "td_Ref w \<notin> set (td_Ref t # seen)" by simp
  qed
  ultimately show ?case by simp
qed

section \<open>Values that conform\<close>

lemma f_less_finite: "f_finite x \<Longrightarrow> f_finite y \<Longrightarrow> f_less x y \<longleftrightarrow> f_val x < f_val y"
  by (cases x; cases y) (auto simp: f_less_def)

lemma f_of_int_val: "\<bar>n\<bar> \<le> 2 ^ 53 \<Longrightarrow> f_finite (f_of_int n) \<and> f_val (f_of_int n) = of_int n"
  by (cases "n = 0") (simp_all add: f_of_int_exact f_of_int_def [of 0] frnd_def)

definition in_bounds :: "TypeDef \<Rightarrow> rat \<Rightarrow> bool" where
  "in_bounds t q \<longleftrightarrow> (\<forall>m. td_Min t = Some m \<longrightarrow> f_val m \<le> q) \<and> (\<forall>m. td_Max t = Some m \<longrightarrow> q \<le> f_val m)"

text \<open>What the capability schema promises of a value of a (resolved) type.\<close>

definition conforms :: "TypeDef \<Rightarrow> PropertyValue \<Rightarrow> bool" where
  "conforms t v \<longleftrightarrow>
     (td_Type t = ''bool'' \<and> pv_Bool v \<noteq> None) \<or>
     (td_Type t = ''int'' \<and> (\<exists>i. pv_Int v = Some i \<and> in_bounds t (of_int (sint i)))) \<or>
     (td_Type t = ''float'' \<and> (\<exists>f. pv_Float v = Some f \<and> in_bounds t (f_val f))) \<or>
     (td_Type t = ''string'' \<and> pv_String v \<noteq> None) \<or>
     (td_Type t = ''bytes'' \<and> pv_Bytes v \<noteq> None) \<or>
     (td_Type t = ''enum'' \<and> (\<exists>x. pv_String v = Some x \<and> x \<in> set (td_Values t))) \<or>
     td_Type t = ''array'' \<or> td_Type t = ''object''"

definition bounds_finite :: "TypeDef \<Rightarrow> bool" where
  "bounds_finite t \<longleftrightarrow> (\<forall>m. td_Min t = Some m \<or> td_Max t = Some m \<longrightarrow> f_finite m)"

lemma checkRange_bounds:
  "bounds_finite t \<Longrightarrow> f_finite f \<Longrightarrow> checkRange t f = None \<longleftrightarrow> in_bounds t (f_val f)"
  unfolding checkRange_def bounds_finite_def in_bounds_def
  by (auto simp: f_less_finite not_less split: option.splits if_splits)

lemma containsString_set: "containsString xs v \<longleftrightarrow> v \<in> set xs"
  by (induction xs) auto

lemma validateValue_conforms:
  assumes "bounds_finite t" and "\<And>i. pv_Int v = Some i \<Longrightarrow> \<bar>sint i\<bar> \<le> 2 ^ 53"
    and "\<And>f. pv_Float v = Some f \<Longrightarrow> f_finite f"
  shows "validateValue t v = None \<longleftrightarrow> conforms t v"
proof -
  have "checkRange t (f_of_int (sint i)) = None \<longleftrightarrow> in_bounds t (of_int (sint i))" if "pv_Int v = Some i" for i
    using checkRange_bounds [OF assms(1)] f_of_int_val [OF assms(2) [OF that]] by simp
  moreover have "checkRange t f = None \<longleftrightarrow> in_bounds t (f_val f)" if "pv_Float v = Some f" for f
    using checkRange_bounds [OF assms(1)] assms(3) [OF that] by simp
  ultimately show ?thesis
    by (auto simp: validateValue_def conforms_def containsString_set split: option.splits)
qed

section \<open>Properties\<close>

text \<open>C35. Resolving a type always ends, and gives a type exactly when following the
  references from it through the schema's definitions reaches a type that is not a
  reference: that type is the result. Cycles, dangling and foreign references are errors.\<close>

theorem resolve_follows_refs:
  "ResolveType s t = Inr u \<longleftrightarrow> (ref_step (sc_Definitions s))\<^sup>*\<^sup>* t u \<and> td_Ref u = []"
proof
  show "ResolveType s t = Inr u \<Longrightarrow> (ref_step (sc_Definitions s))\<^sup>*\<^sup>* t u \<and> td_Ref u = []"
    unfolding ResolveType_def by (rule resolve_loop_sound)
next
  assume "(ref_step (sc_Definitions s))\<^sup>*\<^sup>* t u \<and> td_Ref u = []"
  then obtain n where "(ref_step (sc_Definitions s) ^^ n) t u" and "td_Ref u = []"
    by (auto simp: rtranclp_power)
  then show "ResolveType s t = Inr u"
    unfolding ResolveType_def by (rule resolve_loop_complete) simp
qed

text \<open>C36. A write is accepted exactly when the property is declared, its type resolves and the
  value conforms to it: the right kind, within the declared bounds, one of an enum's values.
  (For integers of up to 53 bits and finite floats; the bounds of a parsed document are finite.)\<close>

theorem validate_iff_conforms:
  assumes "\<And>i. pv_Int v = Some i \<Longrightarrow> \<bar>sint i\<bar> \<le> 2 ^ 53" and "\<And>f. pv_Float v = Some f \<Longrightarrow> f_finite f"
    and "\<And>d t. gm_get (sc_Properties s) path = Some d \<Longrightarrow> ResolveType s (pd_TypeDef d) = Inr t \<Longrightarrow> bounds_finite t"
  shows "ValidateProperty s path v = None \<longleftrightarrow>
     (\<exists>d t. gm_get (sc_Properties s) path = Some d \<and> ResolveType s (pd_TypeDef d) = Inr t \<and> conforms t v)"
  using validateValue_conforms [OF _ assms(1,2)] assms(3)
  by (auto simp: ValidateProperty_def split: option.splits sum.splits)

definition int_type :: "int \<Rightarrow> int \<Rightarrow> TypeDef" where
  "int_type lo hi = TypeDef ''int'' [] [] [] (Some (f_of_int lo)) (Some (f_of_int hi)) None [] None [] []"

definition level_schema :: Schema where
  "level_schema = (empty_Schema JNull)\<lparr>sc_Properties :=
     [(''level'', \<lparr>pd_TypeDef = int_type 0 100, pd_ReadOnly = False, pd_WriteOnly = False\<rparr>)]\<rparr>"

lemma level_resolve: "ResolveType level_schema (int_type 0 100) = Inr (int_type 0 100)"
  by (simp add: ResolveType_def resolve_loop.simps int_type_def)

theorem validate_iff_conforms_witness:
  "ValidateProperty level_schema ''level'' (IntValue 40) = None \<longleftrightarrow>
     (\<exists>d t. gm_get (sc_Properties level_schema) ''level'' = Some d \<and> ResolveType level_schema (pd_TypeDef d) = Inr t \<and>
        conforms t (IntValue 40))"
proof (rule validate_iff_conforms)
  fix i assume "pv_Int (IntValue 40) = Some i"
  then show "\<bar>sint i\<bar> \<le> 2 ^ 53" by (auto simp: value_ctor_defs)
next
  fix f assume "pv_Float (IntValue 40) = Some f"
  then show "f_finite f" by (simp add: value_ctor_defs)
next
  fix d t assume "gm_get (sc_Properties level_schema) ''level'' = Some d" and "ResolveType level_schema (pd_TypeDef d) = Inr t"
  then have "t = int_type 0 100" using level_resolve by (auto simp: level_schema_def)
  then show "bounds_finite t"
    using f_of_int_val [of 0] f_of_int_val [of 100] by (auto simp: bounds_finite_def int_type_def)
qed

text \<open>The bound check goes through a double and tests for being out of range, so it lets
  two kinds of values past a declared bound: an integer beyond 53 bits that rounds to the
  bound, and NaN for every bounded float.\<close>

theorem bounds_let_past:
  "validateValue (int_type 0 (2 ^ 53)) (IntValue (2 ^ 53 + 1)) = None \<and>
   \<not> in_bounds (int_type 0 (2 ^ 53)) (of_int (sint (2 ^ 53 + 1 :: int64))) \<and>
   (td_Type t = ''float'' \<longrightarrow> validateValue t (FloatValue FNaN) = None)"
proof -
  note r = f_of_int_rounds f_of_int_exact [of 9007199254740992]
  have "validateValue (int_type 0 (2 ^ 53)) (IntValue (2 ^ 53 + 1)) = None"
    by (simp add: validateValue_def int_type_def value_ctor_defs checkRange_def r f_less_def)
  moreover have "\<not> in_bounds (int_type 0 (2 ^ 53)) (of_int (sint (2 ^ 53 + 1 :: int64)))"
    by (simp add: in_bounds_def int_type_def r)
  moreover have "td_Type t = ''float'' \<longrightarrow> validateValue t (FloatValue FNaN) = None"
    by (auto simp: validateValue_def value_ctor_defs checkRange_def f_less_def split: option.splits)
  ultimately show ?thesis by blast
qed

theorem bounds_let_past_witness:
  "td_Type (TypeDef ''float'' [] [] [] (Some (FZero False)) (Some (FFin 1)) None [] None [] []) = ''float'' \<and>
   validateValue (TypeDef ''float'' [] [] [] (Some (FZero False)) (Some (FFin 1)) None [] None [] []) (FloatValue FNaN) = None"
  using bounds_let_past [of "TypeDef ''float'' [] [] [] (Some (FZero False)) (Some (FFin 1)) None [] None [] []"] by simp

end
