(* ===== verification/Capability_Registry.thy ===== *)
theory Capability_Registry
  imports Capability_Schema Registry
begin

text \<open>
  The capability registry (\<open>internal/capability/registry.go\<close>, \<open>memory.go\<close>, \<open>bbolt.go\<close>,
  \<open>semver.go\<close>): publishing is validation against the meta-schema, parsing, an immutability check, a
  compatibility warning against the latest published version, and storing. The JSON-schema
  library is third-party code: whether a document conforms to the embedded meta-schema is an
  argument (\<open>conforms_meta\<close>). The locale \<open>schema_registry\<close> is the contract the services rely on.
\<close>

section \<open>Versions\<close>

record semver =
  sv_major :: int
  sv_minor :: int
  sv_patch :: int

text \<open>
  \<open>fmt.Sscanf(s, "%d.%d.%d", ...)\<close>: a \<open>%d\<close> skips blanks (a line feed is an error), takes an optional
  sign and the longest run of digits, and fails without a digit or outside 64 bits; input after the last
  directive is ignored.
\<close>

fun scan_blanks :: "string \<Rightarrow> string option" where
  "scan_blanks [] = Some []"
| "scan_blanks (c # cs) =
     (if c = CHR 0x0A then None
      else if is_space c then scan_blanks cs
      else Some (c # cs))"

definition is_digit :: "char \<Rightarrow> bool" where
  "is_digit c \<longleftrightarrow> 48 \<le> (of_char c :: nat) \<and> (of_char c :: nat) \<le> 57"

definition scan_int :: "string \<Rightarrow> (int \<times> string) option" where
  "scan_int s0 =
     (case scan_blanks s0 of
        None \<Rightarrow> None
      | Some s \<Rightarrow>
          (let neg = (s \<noteq> [] \<and> hd s = CHR ''-'');
               s1 = (if s \<noteq> [] \<and> (hd s = CHR ''-'' \<or> hd s = CHR ''+'') then tl s else s);
               ds = takeWhile is_digit s1;
               n = int (dec_value ds);
               v = (if neg then - n else n)
           in if ds = [] \<or> \<not> int64_range v then None else Some (v, dropWhile is_digit s1)))"

definition scan_dot :: "string \<Rightarrow> string option" where
  "scan_dot s = (case s of [] \<Rightarrow> None | c # cs \<Rightarrow> if c = CHR ''.'' then Some cs else None)"

definition parseSemver :: "string \<Rightarrow> semver option" where
  "parseSemver s =
     (case scan_int s of
        None \<Rightarrow> None
      | Some (a, s1) \<Rightarrow>
          (case Option.bind (scan_dot s1) scan_int of
             None \<Rightarrow> None
           | Some (b, s2) \<Rightarrow>
               (case Option.bind (scan_dot s2) scan_int of
                  None \<Rightarrow> None
                | Some (c, s3) \<Rightarrow> Some \<lparr>sv_major = a, sv_minor = b, sv_patch = c\<rparr>)))"

definition sv_less :: "semver \<Rightarrow> semver \<Rightarrow> bool" where
  "sv_less v u =
     (if sv_major v \<noteq> sv_major u then sv_major v < sv_major u
      else if sv_minor v \<noteq> sv_minor u then sv_minor v < sv_minor u
      else sv_patch v < sv_patch u)"

section \<open>Breaking changes\<close>

datatype issue =
    PropertyRemoved string
  | PropertyRetyped string string string
  | CommandRemoved string
  | ParamRemoved string string
  | ParamRetyped string string string string

definition prop_issues :: "Schema \<Rightarrow> string \<times> PropertyDef \<Rightarrow> issue list" where
  "prop_issues new p =
     (case gm_get (sc_Properties new) (fst p) of
        None \<Rightarrow> [PropertyRemoved (fst p)]
      | Some newProp \<Rightarrow>
          if td_Type (pd_TypeDef (snd p)) \<noteq> td_Type (pd_TypeDef newProp)
          then [PropertyRetyped (fst p) (td_Type (pd_TypeDef (snd p))) (td_Type (pd_TypeDef newProp))] else [])"

definition param_issues :: "string \<Rightarrow> CommandDef \<Rightarrow> string \<times> ParamDef \<Rightarrow> issue list" where
  "param_issues name newCmd p =
     (case gm_get (cd_Params newCmd) (fst p) of
        None \<Rightarrow> [ParamRemoved name (fst p)]
      | Some newParam \<Rightarrow>
          if td_Type (pa_TypeDef (snd p)) \<noteq> td_Type (pa_TypeDef newParam)
          then [ParamRetyped name (fst p) (td_Type (pa_TypeDef (snd p))) (td_Type (pa_TypeDef newParam))] else [])"

definition cmd_issues :: "Schema \<Rightarrow> string \<times> CommandDef \<Rightarrow> issue list" where
  "cmd_issues new c =
     (case gm_get (sc_Commands new) (fst c) of
        None \<Rightarrow> [CommandRemoved (fst c)]
      | Some newCmd \<Rightarrow> concat (map (param_issues (fst c) newCmd) (cd_Params (snd c))))"

definition detectBreakingChanges :: "Schema \<Rightarrow> Schema \<Rightarrow> issue list" where
  "detectBreakingChanges old new =
     concat (map (prop_issues new) (sc_Properties old)) @ concat (map (cmd_issues new) (sc_Commands old))"

text \<open>The warning that is logged, if one is: the schema's name, the two versions and the issues.\<close>

type_synonym warning = "string \<times> string \<times> string \<times> issue list"

definition warnIfBreaking :: "Schema \<Rightarrow> Schema \<Rightarrow> warning list" where
  "warnIfBreaking latest next =
     (case (parseSemver (sc_Version latest), parseSemver (sc_Version next)) of
        (Some l, Some n) \<Rightarrow>
          if sv_major l \<noteq> sv_major n \<or> \<not> sv_less l n then []
          else let issues = detectBreakingChanges latest next in
               if issues \<noteq> [] then [(sc_Name next, sc_Version latest, sc_Version next, issues)] else []
      | _ \<Rightarrow> [])"

section \<open>Publishing\<close>

definition publishKey :: "string \<Rightarrow> string \<Rightarrow> string" where
  "publishKey name version = name @ ''@'' @ version"

abbreviation ErrInvalidSchema :: fault where
  "ErrInvalidSchema \<equiv> Fault [CapE CapErrInvalidSchema]"

abbreviation ErrSchemaExists :: fault where
  "ErrSchemaExists \<equiv> Fault [CapE CapErrAlreadyExists]"

abbreviation ErrSchemaNotFound :: fault where
  "ErrSchemaNotFound \<equiv> Fault [CapE CapErrNotFound]"

text \<open>\<open>raw\<close> is None when the published bytes are not JSON.\<close>

definition validateAndParse :: "(json \<Rightarrow> bool) \<Rightarrow> json option \<Rightarrow> fault + Schema" where
  "validateAndParse conforms_meta raw =
     (case raw of
        None \<Rightarrow> Inl ErrInvalidSchema
      | Some doc \<Rightarrow>
          if \<not> conforms_meta doc then Inl ErrInvalidSchema
          else case Parse doc of
                 None \<Rightarrow> Inl ErrInvalidSchema
               | Some s \<Rightarrow> if sc_Name s = [] \<or> sc_Version s = [] then Inl ErrInvalidSchema else Inr s)"

text \<open>The scan for the latest version among the stored schemas of a name.\<close>

fun latest_scan :: "string \<Rightarrow> Schema list \<Rightarrow> (Schema \<times> semver) option \<Rightarrow> (Schema \<times> semver) option" where
  "latest_scan name [] best = best"
| "latest_scan name (s # ss) best =
     (if sc_Name s \<noteq> name then latest_scan name ss best
      else case parseSemver (sc_Version s) of
             None \<Rightarrow> latest_scan name ss best
           | Some v \<Rightarrow>
               latest_scan name ss
                 (case best of
                    None \<Rightarrow> Some (s, v)
                  | Some (b, bv) \<Rightarrow> if sv_less bv v then Some (s, v) else Some (b, bv)))"

definition latest :: "string \<Rightarrow> Schema list \<Rightarrow> Schema option" where
  "latest name ss = map_option fst (latest_scan name ss None)"

record CapMemory =
  cm_schemas :: "(string, Schema) gomap"

definition NewCapMemory :: CapMemory where
  "NewCapMemory = \<lparr>cm_schemas = []\<rparr>"

definition cm_Publish :: "(json \<Rightarrow> bool) \<Rightarrow> time \<Rightarrow> CapMemory \<Rightarrow> json option \<Rightarrow> CapMemory \<times> warning list \<times> (fault + Schema)" where
  "cm_Publish conforms_meta now r raw =
     (case validateAndParse conforms_meta raw of
        Inl e \<Rightarrow> (r, [], Inl e)
      | Inr s \<Rightarrow>
          (let key = publishKey (sc_Name s) (sc_Version s) in
           if gm_get (cm_schemas r) key \<noteq> None then (r, [], Inl ErrSchemaExists)
           else let warns = (case latest (sc_Name s) (map snd (cm_schemas r)) of None \<Rightarrow> [] | Some l \<Rightarrow> warnIfBreaking l s);
                    s' = s\<lparr>sc_PublishedAt := now\<rparr>
                in (r\<lparr>cm_schemas := gm_put key s' (cm_schemas r)\<rparr>, warns, Inr s')))"

definition cm_Get :: "CapMemory \<Rightarrow> string \<Rightarrow> string \<Rightarrow> fault + Schema" where
  "cm_Get r name version =
     (case gm_get (cm_schemas r) (publishKey name version) of None \<Rightarrow> Inl ErrSchemaNotFound | Some s \<Rightarrow> Inr s)"

definition cm_List :: "CapMemory \<Rightarrow> string \<Rightarrow> fault + Schema list" where
  "cm_List r name = Inr (filter (\<lambda>s. \<not> (name \<noteq> [] \<and> sc_Name s \<noteq> name)) (map snd (cm_schemas r)))"

section \<open>The bbolt registry\<close>

definition marshal_stored :: "time \<Rightarrow> json \<Rightarrow> json option" where
  "marshal_stored t raw = (if json_time_ok t then Some (JObj [(''published_at'', JTime t), (''raw'', raw)]) else None)"

fun dec_stored_field :: "string \<times> json \<Rightarrow> time \<times> json option \<Rightarrow> (time \<times> json option) option" where
  "dec_stored_field (k, v) (t, raw) =
     (if EqualFold k ''published_at'' then map_option (\<lambda>t'. (t', raw)) (dec_time v t)
      else if EqualFold k ''raw'' then Some (t, Some v)
      else Some (t, raw))"

fun dec_stored :: "json \<Rightarrow> (time \<times> json option) option" where
  "dec_stored (JObj kvs) = dec_fold dec_stored_field kvs (0, None)"
| "dec_stored JNull = Some (0, None)"
| "dec_stored _ = None"

definition decodeStoredSchema :: "json \<Rightarrow> fault + Schema" where
  "decodeStoredSchema v =
     (case dec_stored v of
        None \<Rightarrow> Inl opaque_fault
      | Some (t, raw) \<Rightarrow>
          (case Option.bind raw Parse of
             None \<Rightarrow> Inl opaque_fault
           | Some s \<Rightarrow> Inr (s\<lparr>sc_PublishedAt := t\<rparr>)))"

fun decode_all :: "(string \<times> json) list \<Rightarrow> fault + Schema list" where
  "decode_all [] = Inr []"
| "decode_all ((k, v) # kvs) =
     (case decodeStoredSchema v of
        Inl e \<Rightarrow> Inl e
      | Inr s \<Rightarrow> map_sum id (\<lambda>ss. s # ss) (decode_all kvs))"

definition latestInTx :: "'b bucket_ops \<Rightarrow> 'b \<Rightarrow> string \<Rightarrow> fault + Schema option" where
  "latestInTx B b name = map_sum id (latest name) (decode_all (bk_items B b))"

definition cb_Publish ::
    "'b bucket_ops \<Rightarrow> (json \<Rightarrow> bool) \<Rightarrow> time \<Rightarrow> 'b \<Rightarrow> json option \<Rightarrow> 'b \<times> warning list \<times> (fault + Schema)" where
  "cb_Publish B conforms_meta now b raw =
     (case validateAndParse conforms_meta raw of
        Inl e \<Rightarrow> (b, [], Inl e)
      | Inr s0 \<Rightarrow>
          (let s = s0\<lparr>sc_PublishedAt := now\<rparr> in
           case marshal_stored now (the raw) of
             None \<Rightarrow> (b, [], Inl opaque_fault)
           | Some stored \<Rightarrow>
               (let key = publishKey (sc_Name s) (sc_Version s) in
                if bk_Get B b key \<noteq> None then (b, [], Inl ErrSchemaExists)
                else case latestInTx B b (sc_Name s) of
                       Inl e \<Rightarrow> (b, [], Inl e)
                     | Inr l \<Rightarrow>
                         (let warns = (case l of None \<Rightarrow> [] | Some x \<Rightarrow> warnIfBreaking x s) in
                          case bk_Put B b key stored of
                            Inl e \<Rightarrow> (b, warns, Inl e)
                          | Inr b' \<Rightarrow> (b', warns, Inr s)))))"

definition cb_Get :: "'b bucket_ops \<Rightarrow> 'b \<Rightarrow> string \<Rightarrow> string \<Rightarrow> fault + Schema" where
  "cb_Get B b name version =
     (case bk_Get B b (publishKey name version) of None \<Rightarrow> Inl ErrSchemaNotFound | Some v \<Rightarrow> decodeStoredSchema v)"

definition cb_List :: "'b bucket_ops \<Rightarrow> 'b \<Rightarrow> string \<Rightarrow> fault + Schema list" where
  "cb_List B b name =
     map_sum id (filter (\<lambda>s. \<not> (name \<noteq> [] \<and> sc_Name s \<noteq> name))) (decode_all (bk_items B b))"

section \<open>The interface\<close>

record 's schema_ops =
  so_Publish :: "(json \<Rightarrow> bool) \<Rightarrow> time \<Rightarrow> 's \<Rightarrow> json option \<Rightarrow> 's \<times> warning list \<times> (fault + Schema)"
  so_Get :: "'s \<Rightarrow> string \<Rightarrow> string \<Rightarrow> fault + Schema"
  so_List :: "'s \<Rightarrow> string \<Rightarrow> fault + Schema list"

definition cm_ops :: "CapMemory schema_ops" where
  "cm_ops = \<lparr>so_Publish = cm_Publish, so_Get = cm_Get, so_List = cm_List\<rparr>"

definition cb_ops :: "'b bucket_ops \<Rightarrow> 'b schema_ops" where
  "cb_ops B = \<lparr>so_Publish = cb_Publish B, so_Get = cb_Get B, so_List = cb_List B\<rparr>"

section \<open>The contract\<close>

locale schema_registry =
  fixes S :: "'s schema_ops" and tab :: "'s \<Rightarrow> string \<rightharpoonup> Schema" and inv :: "'s \<Rightarrow> bool"
    and storable :: "time \<Rightarrow> json \<Rightarrow> Schema \<Rightarrow> bool"
  assumes so_get: "inv s \<Longrightarrow> so_Get S s n v =
        (case tab s (publishKey n v) of None \<Rightarrow> Inl ErrSchemaNotFound | Some x \<Rightarrow> Inr x)"
    and so_list: "inv s \<Longrightarrow> \<exists>xs. so_List S s n = Inr xs \<and> set xs = {x \<in> ran (tab s). n = [] \<or> sc_Name x = n}"
    and so_publish: "inv s \<Longrightarrow> so_Publish S meta now s raw = (s', ws, r) \<Longrightarrow> inv s' \<and>
        (case validateAndParse meta raw of
           Inl e \<Rightarrow> r = Inl e \<and> tab s' = tab s
         | Inr x \<Rightarrow>
             (let key = publishKey (sc_Name x) (sc_Version x); x' = x\<lparr>sc_PublishedAt := now\<rparr> in
              (case r of Inl e \<Rightarrow> tab s' = tab s | Inr y \<Rightarrow> y = x' \<and> tab s key = None \<and> tab s' = (tab s)(key \<mapsto> x')) \<and>
              (storable now (the raw) x \<longrightarrow> (if tab s key = None then r = Inr x' else r = Inl ErrSchemaExists))))"
begin

lemma publish_keeps:
  assumes "inv s" and "so_Publish S meta now s raw = (s', ws, r)" and "tab s k = Some x"
  shows "inv s' \<and> tab s' k = Some x"
  using so_publish [OF assms(1,2)] assms(3) by (auto simp: Let_def split: sum.splits)

end

text \<open>A run of publish calls, each at its own time.\<close>

fun publish_all :: "'s schema_ops \<Rightarrow> (json \<Rightarrow> bool) \<Rightarrow> 's \<Rightarrow> (time \<times> json option) list \<Rightarrow> 's" where
  "publish_all S meta s [] = s"
| "publish_all S meta s ((now, raw) # ps) = publish_all S meta (fst (so_Publish S meta now s raw)) ps"

context schema_registry
begin

lemma publish_all_keeps: "inv s \<Longrightarrow> tab s k = Some x \<Longrightarrow> inv (publish_all S meta s ps) \<and> tab (publish_all S meta s ps) k = Some x"
proof (induction ps arbitrary: s)
  case (Cons p ps)
  obtain now raw where p: "p = (now, raw)" by (cases p)
  obtain s' ws r where r: "so_Publish S meta now s raw = (s', ws, r)" by (metis prod_cases3)
  with publish_keeps [OF Cons.prems(1) r Cons.prems(2)] Cons.IH [of s'] p show ?case by simp
qed simp

end

lemma cm_Get_law: "cm_Get r n v = (case gm_get (cm_schemas r) (publishKey n v) of None \<Rightarrow> Inl ErrSchemaNotFound | Some x \<Rightarrow> Inr x)"
  by (simp add: cm_Get_def)

interpretation cm: schema_registry cm_ops "\<lambda>r. gm_get (cm_schemas r)" "\<lambda>r. gm_ok (cm_schemas r)" "\<lambda>_ _ _. True"
proof (unfold_locales, goal_cases)
  case (2 s n)
  have "set (map snd (cm_schemas s)) = ran (gm_get (cm_schemas s))"
    using gm_snd_set [OF 2] by simp
  then show ?case by (auto simp: cm_ops_def cm_List_def)
qed (auto simp: cm_ops_def cm_Get_def cm_Publish_def Let_def split: sum.splits if_splits)

text \<open>What a bucket of published schemas stands for.\<close>

definition cb_tab :: "'b bucket_ops \<Rightarrow> 'b \<Rightarrow> string \<rightharpoonup> Schema" where
  "cb_tab B b k = (case bk_Get B b k of None \<Rightarrow> None
     | Some v \<Rightarrow> (case decodeStoredSchema v of Inl e \<Rightarrow> None | Inr s \<Rightarrow> Some s))"

definition cb_inv :: "'b bucket_ops \<Rightarrow> 'b \<Rightarrow> bool" where
  "cb_inv B b \<longleftrightarrow> (\<forall>k v. bk_Get B b k = Some v \<longrightarrow> (\<exists>s. decodeStoredSchema v = Inr s))"

definition cb_storable :: "(json \<Rightarrow> bool) \<Rightarrow> time \<Rightarrow> json \<Rightarrow> Schema \<Rightarrow> bool" where
  "cb_storable fits now raw s \<longleftrightarrow> valid_key (publishKey (sc_Name s) (sc_Version s)) \<and>
     (\<exists>j. marshal_stored now raw = Some j \<and> fits j)"

lemma decode_marshal_stored:
  assumes "marshal_stored t raw = Some j" and "Parse raw = Some s"
  shows "decodeStoredSchema j = Inr (s\<lparr>sc_PublishedAt := t\<rparr>)"
proof -
  have "EqualFold ''raw'' ''raw'' \<and> \<not> EqualFold ''raw'' ''published_at'' \<and> EqualFold ''published_at'' ''published_at''"
    by (simp add: EqualFold_def ToLower_def)
  with assms show ?thesis
    by (auto simp: decodeStoredSchema_def marshal_stored_def split: if_splits)
qed

context bucket
begin

lemma decode_all_law:
  assumes "\<forall>kv \<in> set kvs. \<exists>s. decodeStoredSchema (snd kv) = Inr s"
  shows "\<exists>ss. decode_all kvs = Inr ss \<and> set ss = {s. \<exists>kv \<in> set kvs. decodeStoredSchema (snd kv) = Inr s}"
  using assms
proof (induction kvs)
  case (Cons kv kvs)
  obtain s where "decodeStoredSchema (snd kv) = Inr s" using Cons.prems by auto
  moreover obtain ss where "decode_all kvs = Inr ss" "set ss = {s. \<exists>kv \<in> set kvs. decodeStoredSchema (snd kv) = Inr s}"
    using Cons.IH Cons.prems by auto
  ultimately show ?case by (cases kv) auto
qed simp

lemma cb_items:
  assumes "cb_inv B b"
  shows "\<exists>ss. decode_all (bk_items B b) = Inr ss \<and> set ss = ran (cb_tab B b)"
proof -
  have mem: "(k, v) \<in> set (bk_items B b) \<longleftrightarrow> bk_Get B b k = Some v" for k v
    using items_law [of b] gm_in_iff [of "bk_items B b"] by auto
  have "\<forall>kv \<in> set (bk_items B b). \<exists>s. decodeStoredSchema (snd kv) = Inr s"
    using assms mem by (auto simp: cb_inv_def)
  then obtain ss where ss: "decode_all (bk_items B b) = Inr ss"
    "set ss = {s. \<exists>kv \<in> set (bk_items B b). decodeStoredSchema (snd kv) = Inr s}"
    using decode_all_law by blast
  moreover have "cb_tab B b k = Some s \<longleftrightarrow> (\<exists>v. bk_Get B b k = Some v \<and> decodeStoredSchema v = Inr s)" for k s
    by (auto simp: cb_tab_def split: option.splits sum.splits)
  then have "s \<in> ran (cb_tab B b) \<longleftrightarrow> (\<exists>k v. bk_Get B b k = Some v \<and> decodeStoredSchema v = Inr s)" for s
    by (simp add: ran_def)
  moreover have "(\<exists>kv \<in> set (bk_items B b). decodeStoredSchema (snd kv) = Inr x) \<longleftrightarrow>
      (\<exists>k v. bk_Get B b k = Some v \<and> decodeStoredSchema v = Inr x)" for x
    unfolding mem [symmetric] by (metis prod.collapse snd_conv)
  ultimately have "set ss = ran (cb_tab B b)" by blast
  with ss(1) show ?thesis by blast
qed

lemma cb_Publish_law:
  assumes "cb_inv B b" and "cb_Publish B meta now b raw = (b', ws, r)" and "validateAndParse meta raw = Inr x"
  shows "cb_inv B b' \<and>
     (let key = publishKey (sc_Name x) (sc_Version x); x' = x\<lparr>sc_PublishedAt := now\<rparr> in
      (case r of Inl e \<Rightarrow> cb_tab B b' = cb_tab B b
       | Inr y \<Rightarrow> y = x' \<and> cb_tab B b key = None \<and> cb_tab B b' = (cb_tab B b)(key \<mapsto> x')) \<and>
      (cb_storable fits now (the raw) x \<longrightarrow> (if cb_tab B b key = None then r = Inr x' else r = Inl ErrSchemaExists)))"
proof -
  let ?key = "publishKey (sc_Name x) (sc_Version x)"
  obtain doc where doc: "raw = Some doc" "Parse doc = Some x"
    using assms(3) by (auto simp: validateAndParse_def split: option.splits if_splits)
  note vp = assms(3) [unfolded doc(1)]
  have none: "cb_tab B b ?key = None \<longleftrightarrow> bk_Get B b ?key = None"
    using assms(1) by (auto simp: cb_tab_def cb_inv_def split: option.splits sum.splits) (metis Inl_Inr_False)
  obtain ss where ss: "decode_all (bk_items B b) = Inr ss" using cb_items [OF assms(1)] by blast
  show ?thesis
  proof (cases "\<exists>j. marshal_stored now doc = Some j \<and> bk_Get B b ?key = None")
    case False
    then have "b' = b \<and> (\<exists>e. r = Inl e \<and> (marshal_stored now doc \<noteq> None \<longrightarrow> e = ErrSchemaExists))"
      using assms(2) by (cases "marshal_stored now doc") (auto simp: cb_Publish_def vp doc(1) Let_def)
    with False assms(1) none doc(1) show ?thesis by (auto simp: Let_def cb_storable_def)
  next
    case True
    then obtain j where j: "marshal_stored now doc = Some j" "bk_Get B b ?key = None" by blast
    have pub: "cb_Publish B meta now b raw = (case bk_Put B b ?key j of
        Inl e \<Rightarrow> (b, case latest (sc_Name x) ss of None \<Rightarrow> [] | Some l \<Rightarrow> warnIfBreaking l (x\<lparr>sc_PublishedAt := now\<rparr>), Inl e)
      | Inr b' \<Rightarrow> (b', case latest (sc_Name x) ss of None \<Rightarrow> [] | Some l \<Rightarrow> warnIfBreaking l (x\<lparr>sc_PublishedAt := now\<rparr>),
          Inr (x\<lparr>sc_PublishedAt := now\<rparr>)))"
      by (simp add: cb_Publish_def vp doc(1) j ss latestInTx_def Let_def)
    note dec = decode_marshal_stored [OF j(1) doc(2)]
    show ?thesis
    proof (cases "valid_key ?key \<and> fits j")
      case True
      obtain b1 where b1: "bk_Put B b ?key j = Inr b1" "bk_Get B b1 = (bk_Get B b)(?key \<mapsto> j)"
        using put_law True by blast
      then have eqs: "b' = b1" "r = Inr (x\<lparr>sc_PublishedAt := now\<rparr>)" using assms(2) pub by auto
      have "cb_inv B b1" using assms(1) dec b1(2) by (auto simp: cb_inv_def)
      moreover have "cb_tab B b1 = (cb_tab B b)(?key \<mapsto> x\<lparr>sc_PublishedAt := now\<rparr>)"
        using dec b1(2) by (auto simp: cb_tab_def fun_eq_iff)
      ultimately show ?thesis using eqs none j(2) by (simp add: Let_def)
    next
      case False
      then obtain e where "bk_Put B b ?key j = Inl e" using put_fails by blast
      then have "b' = b" "r = Inl e" using assms(2) pub by auto
      with False assms(1) j(1) doc(1) show ?thesis by (auto simp: Let_def cb_storable_def)
    qed
  qed
qed

end

sublocale bucket \<subseteq> caps: schema_registry "cb_ops B" "cb_tab B" "cb_inv B" "cb_storable fits"
proof (unfold_locales, goal_cases)
  case (1 s n v)
  then show ?case
    by (auto simp: cb_ops_def cb_Get_def cb_tab_def cb_inv_def split: option.splits sum.splits) (metis Inl_Inr_False)
next
  case (2 s n)
  then show ?case using cb_items [OF 2] by (auto simp: cb_ops_def cb_List_def)
next
  case (3 s meta now raw s' ws r)
  then have pub: "cb_Publish B meta now s raw = (s', ws, r)" by (simp add: cb_ops_def)
  show ?case
  proof (cases "validateAndParse meta raw")
    case (Inl e)
    with pub 3(1) have "s' = s" "r = Inl e" by (auto simp: cb_Publish_def)
    with Inl 3(1) show ?thesis by simp
  next
    case (Inr x)
    from cb_Publish_law [OF 3(1) pub Inr] Inr show ?thesis by simp
  qed
qed

context bucket
begin

lemma caps_contract: "schema_registry (cb_ops B) (cb_tab B) (cb_inv B) (cb_storable fits)"
  by (rule caps.schema_registry_axioms)

end

section \<open>Versions are ordered\<close>

lemma sv_less_irrefl: "\<not> sv_less v v"
  by (simp add: sv_less_def)

lemma sv_less_trans: "sv_less u v \<Longrightarrow> sv_less v w \<Longrightarrow> sv_less u w"
  by (auto simp: sv_less_def split: if_splits)

lemma sv_less_linear: "sv_less u v \<or> u = v \<or> sv_less v u"
  by (cases u; cases v) (auto simp: sv_less_def)

text \<open>What the scan returns: the first of the parseable schemas of that name that none exceeds.\<close>

definition best_ok :: "string \<Rightarrow> Schema list \<Rightarrow> (Schema \<times> semver) option \<Rightarrow> bool" where
  "best_ok name ss best \<longleftrightarrow>
     (case best of
        None \<Rightarrow> \<forall>s \<in> set ss. sc_Name s = name \<longrightarrow> parseSemver (sc_Version s) = None
      | Some (b, bv) \<Rightarrow> b \<in> set ss \<and> sc_Name b = name \<and> parseSemver (sc_Version b) = Some bv \<and>
          (\<forall>s \<in> set ss. \<forall>v. sc_Name s = name \<longrightarrow> parseSemver (sc_Version s) = Some v \<longrightarrow> \<not> sv_less bv v))"

lemma best_ok_snoc:
  assumes "best_ok name ss best"
  shows "sc_Name s \<noteq> name \<or> parseSemver (sc_Version s) = None \<Longrightarrow> best_ok name (ss @ [s]) best"
    and "sc_Name s = name \<Longrightarrow> parseSemver (sc_Version s) = Some v \<Longrightarrow> best_ok name (ss @ [s])
      (case best of None \<Rightarrow> Some (s, v) | Some (b, bv) \<Rightarrow> if sv_less bv v then Some (s, v) else Some (b, bv))"
proof -
  show "sc_Name s \<noteq> name \<or> parseSemver (sc_Version s) = None \<Longrightarrow> best_ok name (ss @ [s]) best"
    using assms by (auto simp: best_ok_def split: option.splits)
  assume s: "sc_Name s = name" "parseSemver (sc_Version s) = Some v"
  show "best_ok name (ss @ [s]) (case best of None \<Rightarrow> Some (s, v) | Some (b, bv) \<Rightarrow> if sv_less bv v then Some (s, v) else Some (b, bv))"
  proof (cases best)
    case None
    with assms s show ?thesis by (auto simp: best_ok_def sv_less_irrefl)
  next
    case (Some p)
    obtain b bv where p: "p = (b, bv)" by (cases p)
    with Some assms have b: "b \<in> set ss" "sc_Name b = name" "parseSemver (sc_Version b) = Some bv"
      "\<And>x u. x \<in> set ss \<Longrightarrow> sc_Name x = name \<Longrightarrow> parseSemver (sc_Version x) = Some u \<Longrightarrow> \<not> sv_less bv u"
      by (auto simp: best_ok_def)
    show ?thesis
    proof (cases "sv_less bv v")
      case True
      then have "\<And>x u. x \<in> set ss \<Longrightarrow> sc_Name x = name \<Longrightarrow> parseSemver (sc_Version x) = Some u \<Longrightarrow> \<not> sv_less v u"
        using b(4) sv_less_trans by blast
      with True Some p s show ?thesis by (auto simp: best_ok_def sv_less_irrefl)
    next
      case False
      with Some p b s show ?thesis by (auto simp: best_ok_def)
    qed
  qed
qed

lemma latest_scan_ok: "best_ok name pre best \<Longrightarrow> best_ok name (pre @ ss) (latest_scan name ss best)"
proof (induction ss arbitrary: pre best)
  case (Cons s ss)
  show ?case
  proof (cases "sc_Name s = name \<and> parseSemver (sc_Version s) \<noteq> None")
    case True
    then obtain v where v: "parseSemver (sc_Version s) = Some v" by blast
    from Cons.IH [OF best_ok_snoc(2) [OF Cons.prems _ v]] True v show ?thesis by simp
  next
    case False
    then have "latest_scan name (s # ss) best = latest_scan name ss best" by auto
    with Cons.IH [OF best_ok_snoc(1) [OF Cons.prems, of s]] False show ?thesis by simp
  qed
qed simp

section \<open>Printed versions parse\<close>

lemma dec_digits_digits: "c \<in> set (dec_digits n) \<Longrightarrow> is_digit c"
proof (induction n rule: dec_digits.induct)
  case (1 n)
  have d: "m < 10 \<Longrightarrow> is_digit (char_of (48 + m))" for m :: nat
    by (simp add: is_digit_def)
  show ?case
  proof (cases "n < 10")
    case True
    with 1(2) d show ?thesis by (subst (asm) dec_digits.simps) auto
  next
    case False
    with 1 d [of "n mod 10"] show ?thesis by (subst (asm) (2) dec_digits.simps) auto
  qed
qed

lemma is_digit_not: "is_digit c \<Longrightarrow> c \<noteq> CHR ''.'' \<and> c \<noteq> CHR ''-'' \<and> c \<noteq> CHR ''+'' \<and> \<not> is_space c \<and> c \<noteq> CHR 0x0A"
  by (auto simp: is_digit_def is_space_def)

lemma scan_int_digits:
  assumes "n < 2 ^ 63" and "rest = [] \<or> \<not> is_digit (hd rest)"
  shows "scan_int (dec_digits n @ rest) = Some (int n, rest)"
proof -
  obtain c cs where cs: "dec_digits n = c # cs" using dec_digits_nonempty by (cases "dec_digits n") auto
  have dig: "is_digit x" if "x \<in> set (c # cs)" for x using dec_digits_digits [of x n] that cs by simp
  note c = is_digit_not [OF dig [of c]]
  have b: "scan_blanks (c # cs @ rest) = Some (c # cs @ rest)" using c by simp
  have tw: "takeWhile is_digit ((c # cs) @ rest) = c # cs" "dropWhile is_digit ((c # cs) @ rest) = rest"
    using dig assms(2) by (cases rest; auto simp: takeWhile_append dropWhile_append)+
  have "int64_range (int n)" using assms(1) by (simp add: int64_range_def)
  then show ?thesis
    using c b tw cs dec_value_digits [of n] by (simp add: scan_int_def Let_def)
qed

definition print_semver :: "nat \<Rightarrow> nat \<Rightarrow> nat \<Rightarrow> string" where
  "print_semver a b c = dec_digits a @ ''.'' @ dec_digits b @ ''.'' @ dec_digits c"

section \<open>Properties\<close>

text \<open>C34. Published schemas are immutable: whatever is published later, a schema that could be
  fetched once is fetched unchanged under its name and version. This holds for every registry
  that keeps the contract, the in-memory one and the one over a bbolt bucket.\<close>

theorem schemas_immutable:
  assumes "schema_registry S tab I storable" and "I s" and "so_Get S s name version = Inr x"
  shows "so_Get S (publish_all S meta s ps) name version = Inr x"
proof -
  have x: "tab s (publishKey name version) = Some x"
    using schema_registry.so_get [OF assms(1,2)] assms(3) by (auto split: option.splits)
  have "I (publish_all S meta s ps)" and "tab (publish_all S meta s ps) (publishKey name version) = Some x"
    using schema_registry.publish_all_keeps [OF assms(1,2) x] by auto
  then show ?thesis using schema_registry.so_get [OF assms(1)] by simp
qed

definition lamp_doc :: "string \<Rightarrow> json" where
  "lamp_doc v = JObj [(''metadata'', JObj [(''name'', JStr ''lamp''), (''version'', JStr v)])]"

lemma lamp_parse: "Parse (lamp_doc v) = Some ((empty_Schema (lamp_doc v))\<lparr>sc_Name := ''lamp'', sc_Version := v\<rparr>)"
  by (simp add: Parse_def lamp_doc_def dec_doc_field_def dec_meta_field_def empty_Schema_def EqualFold_def ToLower_def to_lower_def)

definition cap_demo :: CapMemory where
  "cap_demo = \<lparr>cm_schemas = [(''lamp@1.0.0'', (empty_Schema (lamp_doc ''1.0.0''))\<lparr>sc_Name := ''lamp'', sc_Version := ''1.0.0''\<rparr>)]\<rparr>"

lemma cap_demo_facts:
  "gm_ok (cm_schemas cap_demo)"
  "so_Get cm_ops cap_demo ''lamp'' ''1.0.0'' = Inr ((empty_Schema (lamp_doc ''1.0.0''))\<lparr>sc_Name := ''lamp'', sc_Version := ''1.0.0''\<rparr>)"
  by (simp_all add: cap_demo_def gm_ok_def cm_ops_def cm_Get_def publishKey_def)

theorem schemas_immutable_witness:
  "so_Get cm_ops (publish_all cm_ops (\<lambda>_. True) cap_demo [(7, Some (lamp_doc ''1.0.0'')), (8, Some (lamp_doc ''1.1.0''))]) ''lamp'' ''1.0.0''
     = Inr ((empty_Schema (lamp_doc ''1.0.0''))\<lparr>sc_Name := ''lamp'', sc_Version := ''1.0.0''\<rparr>)"
  by (rule schemas_immutable [OF cm.schema_registry_axioms cap_demo_facts])

text \<open>A valid document is published once: a first publication of its name and version
  stores it, stamped with the time, for \<open>Get\<close> to return; publishing any document of the same
  name and version again is refused as already existing and changes nothing; an invalid one is
  refused and changes nothing.\<close>

theorem publish_then_get:
  assumes "schema_registry S tab I storable" and "I s" and "so_Publish S meta now s raw = (s', ws, r)"
  shows "case validateAndParse meta raw of
      Inl e \<Rightarrow> r = Inl e \<and> tab s' = tab s
    | Inr x \<Rightarrow> storable now (the raw) x \<longrightarrow>
        (if tab s (publishKey (sc_Name x) (sc_Version x)) = None
         then r = Inr (x\<lparr>sc_PublishedAt := now\<rparr>) \<and> so_Get S s' (sc_Name x) (sc_Version x) = r
         else r = Inl ErrSchemaExists \<and> tab s' = tab s)"
  using schema_registry.so_publish [OF assms] schema_registry.so_get [OF assms(1), of s']
  by (auto simp: Let_def split: sum.splits)

theorem publish_then_get_witness:
  "\<exists>s' ws. so_Publish (cb_ops ref_bucket_ops) (\<lambda>_. True) 7 ref_bucket_empty (Some (lamp_doc ''1.0.0'')) = (s', ws, Inr
      ((empty_Schema (lamp_doc ''1.0.0''))\<lparr>sc_Name := ''lamp'', sc_Version := ''1.0.0'', sc_PublishedAt := 7\<rparr>)) \<and>
     so_Get (cb_ops ref_bucket_ops) s' ''lamp'' ''1.0.0'' = Inr
      ((empty_Schema (lamp_doc ''1.0.0''))\<lparr>sc_Name := ''lamp'', sc_Version := ''1.0.0'', sc_PublishedAt := 7\<rparr>)"
proof -
  obtain s' ws r where r: "so_Publish (cb_ops ref_bucket_ops) (\<lambda>_. True) 7 ref_bucket_empty (Some (lamp_doc ''1.0.0'')) = (s', ws, r)"
    by (metis prod_cases3)
  have inv: "cb_inv ref_bucket_ops ref_bucket_empty" and tab: "cb_tab ref_bucket_ops ref_bucket_empty k = None" for k
    by (simp_all add: cb_inv_def cb_tab_def ref_bucket_ops_def ref_bucket_empty_def)
  have val: "validateAndParse (\<lambda>_. True) (Some (lamp_doc ''1.0.0'')) =
      Inr ((empty_Schema (lamp_doc ''1.0.0''))\<lparr>sc_Name := ''lamp'', sc_Version := ''1.0.0''\<rparr>)"
    by (simp add: validateAndParse_def lamp_parse)
  have st: "cb_storable (\<lambda>_. True) 7 (lamp_doc ''1.0.0'') ((empty_Schema (lamp_doc ''1.0.0''))\<lparr>sc_Name := ''lamp'', sc_Version := ''1.0.0''\<rparr>)"
    by (simp add: cb_storable_def valid_key_def publishKey_def marshal_stored_def json_time_ok_def year_ns_def second_def)
  show ?thesis
    using publish_then_get [OF refb.caps_contract inv r] r tab val st by simp
qed

text \<open>The version a warning compares with is the latest: among the stored schemas of the
  name whose version parses, none is newer; there is none only if no version parses.\<close>

theorem latest_is_maximal:
  "case latest name ss of
     None \<Rightarrow> \<forall>s \<in> set ss. sc_Name s = name \<longrightarrow> parseSemver (sc_Version s) = None
   | Some l \<Rightarrow> l \<in> set ss \<and> sc_Name l = name \<and> (\<exists>lv. parseSemver (sc_Version l) = Some lv \<and>
       (\<forall>s \<in> set ss. \<forall>v. sc_Name s = name \<longrightarrow> parseSemver (sc_Version s) = Some v \<longrightarrow> v = lv \<or> sv_less v lv))"
proof -
  have "best_ok name [] None" by (simp add: best_ok_def)
  from latest_scan_ok [OF this, of ss] show ?thesis
    unfolding latest_def using sv_less_linear
    by (cases "latest_scan name ss None") (fastforce simp: best_ok_def)+
qed

theorem latest_is_maximal_witness:
  "\<exists>l lv. latest ''lamp'' (map snd (cm_schemas cap_demo)) = Some l \<and> parseSemver (sc_Version l) = Some lv \<and>
     (\<forall>s \<in> set (map snd (cm_schemas cap_demo)). \<forall>v. sc_Name s = ''lamp'' \<longrightarrow> parseSemver (sc_Version s) = Some v \<longrightarrow> v = lv \<or> sv_less v lv)"
proof -
  have "parseSemver ''1.0.0'' = Some \<lparr>sv_major = 1, sv_minor = 0, sv_patch = 0\<rparr>" by code_simp
  then have "\<exists>l. latest ''lamp'' (map snd (cm_schemas cap_demo)) = Some l"
    by (simp add: cap_demo_def latest_def)
  then obtain l where l: "latest ''lamp'' (map snd (cm_schemas cap_demo)) = Some l" ..
  with latest_is_maximal [where name = "''lamp''" and ss = "map snd (cm_schemas cap_demo)"] show ?thesis by auto
qed

text \<open>A printed version parses to its three numbers (whatever fits in 64 bits), and the
  comparison of versions is a strict linear order.\<close>

theorem semver_roundtrip:
  assumes "a < 2 ^ 63" and "b < 2 ^ 63" and "c < 2 ^ 63"
  shows "parseSemver (print_semver a b c) = Some \<lparr>sv_major = int a, sv_minor = int b, sv_patch = int c\<rparr>"
proof -
  have dot: "\<not> is_digit CHR ''.''" by (simp add: is_digit_def)
  have "scan_int (dec_digits a @ ''.'' @ dec_digits b @ ''.'' @ dec_digits c) = Some (int a, ''.'' @ dec_digits b @ ''.'' @ dec_digits c)"
    "scan_int (dec_digits b @ ''.'' @ dec_digits c) = Some (int b, ''.'' @ dec_digits c)"
    "scan_int (dec_digits c @ []) = Some (int c, [])"
    using assms dot by (intro scan_int_digits; simp)+
  then show ?thesis by (simp add: parseSemver_def print_semver_def scan_dot_def)
qed

theorem semver_roundtrip_witness:
  "parseSemver (print_semver 1 20 3) = Some \<lparr>sv_major = 1, sv_minor = 20, sv_patch = 3\<rparr>"
  using semver_roundtrip [of 1 20 3] by simp

text \<open>No issue is reported exactly when the new schema keeps every property and every
  command with every parameter, each with the type name it had.\<close>

theorem no_issue_iff_kept:
  "detectBreakingChanges old new = [] \<longleftrightarrow>
     (\<forall>(n, p) \<in> set (sc_Properties old). \<exists>q. gm_get (sc_Properties new) n = Some q \<and>
        td_Type (pd_TypeDef q) = td_Type (pd_TypeDef p)) \<and>
     (\<forall>(n, c) \<in> set (sc_Commands old). \<exists>d. gm_get (sc_Commands new) n = Some d \<and>
        (\<forall>(m, a) \<in> set (cd_Params c). \<exists>b. gm_get (cd_Params d) m = Some b \<and>
           td_Type (pa_TypeDef b) = td_Type (pa_TypeDef a)))"
proof -
  have "prop_issues new (n, p) = [] \<longleftrightarrow> (\<exists>q. gm_get (sc_Properties new) n = Some q \<and> td_Type (pd_TypeDef q) = td_Type (pd_TypeDef p))" for n p
    by (auto simp: prop_issues_def split: option.splits)
  moreover have "param_issues k d (n, p) = [] \<longleftrightarrow> (\<exists>q. gm_get (cd_Params d) n = Some q \<and> td_Type (pa_TypeDef q) = td_Type (pa_TypeDef p))" for k d n p
    by (auto simp: param_issues_def split: option.splits)
  then have "cmd_issues new (n, c) = [] \<longleftrightarrow> (\<exists>d. gm_get (sc_Commands new) n = Some d \<and>
        (\<forall>(m, a) \<in> set (cd_Params c). \<exists>b. gm_get (cd_Params d) m = Some b \<and> td_Type (pa_TypeDef b) = td_Type (pa_TypeDef a)))" for n c
    by (fastforce simp: cmd_issues_def split: option.splits)
  ultimately show ?thesis
    unfolding detectBreakingChanges_def by (fastforce simp: concat_eq_Nil_conv)
qed

theorem no_issue_iff_kept_witness:
  "detectBreakingChanges (empty_Schema JNull) level_schema = []"
  using no_issue_iff_kept [of "empty_Schema JNull" level_schema] by (simp add: empty_Schema_def)

end
