(* ===== verification/Mqtt_Protocol.thy ===== *)
theory Mqtt_Protocol
  imports Json
begin

text \<open>
  The MQTT adapter's protocol layer: topic names (\<open>internal/adapters/mqtt/topics.go\<close>), the JSON
  envelope of a property value (\<open>value.go\<close>) and the circuit breaker (\<open>circuitbreaker.go\<close>). Topic
  matching is the rule of the MQTT standard for \<open>#\<close> and \<open>+\<close>.
\<close>

section \<open>Topics\<close>

definition validTopicSegment :: "string \<Rightarrow> fault option" where
  "validTopicSegment s =
     (if \<exists>level \<in> set (Split1 CHR ''/'' s). level = ''+'' \<or> level = ''#'' then Some (Fault [MqttE ErrInvalidTopicSegment]) else None)"

definition topicProps :: "string \<Rightarrow> string \<Rightarrow> string" where
  "topicProps deviceID path = ''udal/'' @ deviceID @ ''/props/'' @ path"

definition topicPropsWildcard :: "string \<Rightarrow> string" where
  "topicPropsWildcard deviceID = ''udal/'' @ deviceID @ ''/props/#''"

definition topicGet :: "string \<Rightarrow> string \<Rightarrow> string" where
  "topicGet deviceID path = topicProps deviceID path @ ''/get''"

definition topicSet :: "string \<Rightarrow> string \<Rightarrow> string" where
  "topicSet deviceID path = topicProps deviceID path @ ''/set''"

definition topicSetAck :: "string \<Rightarrow> string \<Rightarrow> string" where
  "topicSetAck deviceID path = topicSet deviceID path @ ''/ack''"

definition topicStatus :: "string \<Rightarrow> string" where
  "topicStatus deviceID = ''udal/'' @ deviceID @ ''/status''"

text \<open>
  \<open>topic[len(prefix) : len(topic)-len(suffix)]\<close> panics when the prefix and the suffix overlap:
  the outer None is the panic, the inner one \<open>ok = false\<close>.
\<close>

definition parseStatusTopic :: "string \<Rightarrow> string option option" where
  "parseStatusTopic topic =
     (if \<not> HasPrefix topic ''udal/'' \<or> \<not> HasSuffix topic ''/status'' then Some None
      else if length topic - length ''/status'' < length ''udal/'' then None
      else let deviceID = drop (length ''udal/'') (take (length topic - length ''/status'') topic) in
           if deviceID = [] \<or> CHR ''/'' \<in> set deviceID then Some None else Some (Some deviceID))"

definition parsePropsTopicOrSetAck :: "string \<Rightarrow> (string \<times> string) option" where
  "parsePropsTopicOrSetAck topic =
     (if \<not> HasPrefix topic ''udal/'' then None
      else case Cut (drop (length ''udal/'') topic) ''/props/'' of
             (deviceID, rest, ok) \<Rightarrow> if \<not> ok \<or> deviceID = [] \<or> rest = [] then None else Some (deviceID, rest))"

definition reserved_rest :: "string \<Rightarrow> bool" where
  "reserved_rest rest \<longleftrightarrow> rest = ''get'' \<or> HasSuffix rest ''/get'' \<or> rest = ''set'' \<or> HasSuffix rest ''/set'' \<or>
     HasSuffix rest ''/set/ack''"

definition parsePropsTopic :: "string \<Rightarrow> (string \<times> string) option" where
  "parsePropsTopic topic =
     (case parsePropsTopicOrSetAck topic of
        None \<Rightarrow> None
      | Some (deviceID, rest) \<Rightarrow> if reserved_rest rest then None else Some (deviceID, rest))"

text \<open>A broker's matching of a topic against a subscription, level by level.\<close>

fun levels_match :: "string list \<Rightarrow> string list \<Rightarrow> bool" where
  "levels_match [] [] = True"
| "levels_match [f] [] = (f = ''#'')"
| "levels_match (f # fs) (t # ts) =
     (if f = ''#'' then fs = [] else (f = ''+'' \<or> f = t) \<and> levels_match fs ts)"
| "levels_match _ _ = False"

definition topic_matches :: "string \<Rightarrow> string \<Rightarrow> bool" where
  "topic_matches subscription topic \<longleftrightarrow> levels_match (Split1 CHR ''/'' subscription) (Split1 CHR ''/'' topic)"

section \<open>Values\<close>

record wireValue =
  w_Bool :: "bool option"
  w_Int :: "int64 option"
  w_Float :: "float64 option"
  w_String :: "string option"
  w_Bytes :: "byte list option"

definition opt_member :: "string \<Rightarrow> json option \<Rightarrow> (string \<times> json) list" where
  "opt_member k j = (case j of None \<Rightarrow> [] | Some v \<Rightarrow> [(k, v)])"

text \<open>\<open>json.Marshal\<close> with \<open>omitempty\<close>: nil pointers and empty slices are left out.\<close>

definition marshal_wire :: "wireValue \<Rightarrow> json option" where
  "marshal_wire w =
     (let members = \<lambda>fl.
        opt_member ''bool'' (map_option JBool (w_Bool w)) @
        opt_member ''int'' (map_option (\<lambda>i. JNum (NInt (sint i))) (w_Int w)) @
        opt_member ''float'' fl @
        opt_member ''string'' (map_option JStr (w_String w)) @
        opt_member ''bytes'' (case w_Bytes w of None \<Rightarrow> None | Some [] \<Rightarrow> None | Some (b # bs) \<Rightarrow> Some (JB64 (b # bs)))
      in case w_Float w of
           None \<Rightarrow> Some (JObj (members None))
         | Some f \<Rightarrow> (case enc_float f of None \<Rightarrow> None | Some j \<Rightarrow> Some (JObj (members (Some j)))))"

definition dec_int64 :: "json \<Rightarrow> int64 \<Rightarrow> int64 option" where
  "dec_int64 j old = map_option of_int (dec_int j (sint old))"

definition dec_wire_field :: "string \<times> json \<Rightarrow> wireValue \<Rightarrow> wireValue option" where
  "dec_wire_field kv w =
     (if EqualFold (fst kv) ''bool'' then map_option (\<lambda>x. w\<lparr>w_Bool := x\<rparr>) (dec_ptr dec_bool False (snd kv) (w_Bool w))
      else if EqualFold (fst kv) ''int'' then map_option (\<lambda>x. w\<lparr>w_Int := x\<rparr>) (dec_ptr dec_int64 0 (snd kv) (w_Int w))
      else if EqualFold (fst kv) ''float''
        then map_option (\<lambda>x. w\<lparr>w_Float := x\<rparr>) (dec_ptr dec_float (FZero False) (snd kv) (w_Float w))
      else if EqualFold (fst kv) ''string'' then map_option (\<lambda>x. w\<lparr>w_String := x\<rparr>) (dec_ptr dec_string [] (snd kv) (w_String w))
      else if EqualFold (fst kv) ''bytes'' then map_option (\<lambda>x. w\<lparr>w_Bytes := x\<rparr>) (dec_bytes (snd kv) (w_Bytes w))
      else Some w)"

definition zero_wire :: wireValue where
  "zero_wire = \<lparr>w_Bool = None, w_Int = None, w_Float = None, w_String = None, w_Bytes = None\<rparr>"

fun unmarshal_wire :: "json \<Rightarrow> wireValue option" where
  "unmarshal_wire (JObj kvs) = dec_fold dec_wire_field kvs zero_wire"
| "unmarshal_wire JNull = Some zero_wire"
| "unmarshal_wire _ = None"

definition encodeValue :: "PropertyValue \<Rightarrow> fault + json" where
  "encodeValue v =
     (case marshal_wire \<lparr>w_Bool = pv_Bool v, w_Int = pv_Int v, w_Float = pv_Float v, w_String = pv_String v, w_Bytes = pv_Bytes v\<rparr> of
        None \<Rightarrow> Inl opaque_fault
      | Some j \<Rightarrow> Inr j)"

text \<open>A payload that is not JSON is None.\<close>

definition decodeValue :: "json option \<Rightarrow> fault + PropertyValue" where
  "decodeValue payload =
     (case Option.bind payload unmarshal_wire of
        None \<Rightarrow> Inl opaque_fault
      | Some w \<Rightarrow> Inr \<lparr>pv_Bool = w_Bool w, pv_Int = w_Int w, pv_Float = w_Float w, pv_String = w_String w,
          pv_Bytes = w_Bytes w, pv_JSON = None\<rparr>)"

section \<open>The circuit breaker\<close>

definition circuitBreakerMaxErrors :: nat where
  "circuitBreakerMaxErrors = 5"

definition circuitBreakerOpenDuration :: duration where
  "circuitBreakerOpenDuration = 30 * second"

datatype circuitState = circuitClosed | circuitOpen | circuitHalfOpen

record circuitBreaker =
  cb_state :: circuitState
  cb_consecutiveErrs :: nat
  cb_openedAt :: time

definition newCircuitBreaker :: circuitBreaker where
  "newCircuitBreaker = \<lparr>cb_state = circuitClosed, cb_consecutiveErrs = 0, cb_openedAt = 0\<rparr>"

definition cb_isOpen :: "circuitBreaker \<Rightarrow> bool" where
  "cb_isOpen cb \<longleftrightarrow> cb_state cb = circuitOpen"

definition cb_allow :: "time \<Rightarrow> circuitBreaker \<Rightarrow> circuitBreaker \<times> fault option" where
  "cb_allow now cb =
     (case cb_state cb of
        circuitOpen \<Rightarrow>
          if time_Sub now (cb_openedAt cb) < circuitBreakerOpenDuration then (cb, Some (Fault [MqttE ErrCircuitOpen]))
          else (cb\<lparr>cb_state := circuitHalfOpen\<rparr>, None)
      | _ \<Rightarrow> (cb, None))"

definition cb_recordSuccess :: "circuitBreaker \<Rightarrow> circuitBreaker" where
  "cb_recordSuccess cb = cb\<lparr>cb_consecutiveErrs := 0, cb_state := circuitClosed\<rparr>"

definition cb_recordFailure :: "time \<Rightarrow> circuitBreaker \<Rightarrow> circuitBreaker" where
  "cb_recordFailure now cb =
     (if cb_state cb = circuitHalfOpen then cb\<lparr>cb_state := circuitOpen, cb_openedAt := now\<rparr>
      else let cb1 = cb\<lparr>cb_consecutiveErrs := Suc (cb_consecutiveErrs cb)\<rparr> in
           if circuitBreakerMaxErrors \<le> cb_consecutiveErrs cb1
           then cb1\<lparr>cb_state := circuitOpen, cb_openedAt := now\<rparr> else cb1)"

section \<open>Topics: facts\<close>

lemma Split1_slash_append: "Split1 CHR ''/'' (s @ CHR ''/'' # t) = Split1 CHR ''/'' s @ Split1 CHR ''/'' t"
  by (rule Split1_append_sep)

lemma levels_props: "Split1 CHR ''/'' (topicProps d p) = ''udal'' # Split1 CHR ''/'' d @ ''props'' # Split1 CHR ''/'' p"
proof -
  have "topicProps d p = ''udal'' @ CHR ''/'' # d @ CHR ''/'' # ''props'' @ CHR ''/'' # p"
    by (simp add: topicProps_def)
  then show ?thesis by (simp only: Split1_append_sep) simp
qed

lemma levels_wildcard: "Split1 CHR ''/'' (topicPropsWildcard d) = ''udal'' # Split1 CHR ''/'' d @ [''props'', ''#'']"
proof -
  have "topicPropsWildcard d = ''udal'' @ CHR ''/'' # d @ CHR ''/'' # ''props'' @ CHR ''/'' # ''#''"
    by (simp add: topicPropsWildcard_def)
  then show ?thesis by (simp only: Split1_append_sep) simp
qed

lemma parseProps_topic:
  assumes "CHR ''/'' \<notin> set d" and "d \<noteq> []" and "p \<noteq> []"
  shows "parsePropsTopicOrSetAck (topicProps d p) = Some (d, p)"
proof -
  have "Cut (d @ ''/props/'' @ p) ''/props/'' = (d, p, True)"
    using Cut_first [OF assms(1), of "''props/''" p] by simp
  then show ?thesis
    using assms(2,3) by (simp add: parsePropsTopicOrSetAck_def topicProps_def HasPrefix_def)
qed

lemma levels_match_append_lit:
  assumes "\<forall>l \<in> set fs. l \<noteq> ''+'' \<and> l \<noteq> ''#''" and "length fs = length ts"
  shows "levels_match (fs @ gs) (ts @ us) \<longleftrightarrow> fs = ts \<and> levels_match gs us"
  using assms(2,1) by (induction fs ts rule: list_induct2) auto

lemma count_slash_plain: "CHR ''/'' \<notin> set d \<Longrightarrow> count_list d CHR ''/'' = 0"
  by (simp add: count_list_0_iff)

lemma parseProps_status:
  assumes "CHR ''/'' \<notin> set d"
  shows "parsePropsTopicOrSetAck (topicStatus d) = None"
proof -
  obtain b a ok where cut: "Cut (d @ ''/status'') ''/props/'' = (b, a, ok)" by (metis prod_cases3)
  have "\<not> ok"
  proof
    assume ok
    then have "d @ ''/status'' = b @ ''/props/'' @ a" using cut by (intro Cut_True) simp
    then have "count_list (d @ ''/status'') CHR ''/'' = count_list (b @ ''/props/'' @ a) CHR ''/''" by simp
    then show False using count_slash_plain [OF assms] by (simp add: count_list_append)
  qed
  with cut show ?thesis
    by (simp add: parsePropsTopicOrSetAck_def topicStatus_def HasPrefix_def)
qed

lemma parseStatus_topic:
  assumes "CHR ''/'' \<notin> set d" and "d \<noteq> []"
  shows "parseStatusTopic (topicStatus d) = Some (Some d)"
  using assms by (simp add: parseStatusTopic_def topicStatus_def HasPrefix_def HasSuffix_def Let_def)

text \<open>The slice panics on the topic in which prefix and suffix share the slash.\<close>

lemma status_topic_overlap: "parseStatusTopic ''udal/status'' = None"
  by code_simp

lemma reserved_suffixes:
  "reserved_rest (p @ ''/get'')" "reserved_rest (p @ ''/set'')" "reserved_rest (p @ ''/set/ack'')"
  using HasSuffix_append by (auto simp: reserved_rest_def)

lemma wildcard_match:
  assumes "CHR ''/'' \<notin> set d" and "CHR ''/'' \<notin> set d'"
  shows "topic_matches (topicPropsWildcard d) (topicProps d' p) \<longleftrightarrow> d \<noteq> ''#'' \<and> (d = ''+'' \<or> d = d')"
  using Split1_nonempty [of "CHR ''/''" p] assms
  by (cases "Split1 CHR ''/'' p") (auto simp: topic_matches_def levels_props levels_wildcard Split1_notin)

lemma valid_plain: "CHR ''/'' \<notin> set d \<Longrightarrow> validTopicSegment d = None \<longleftrightarrow> d \<noteq> ''+'' \<and> d \<noteq> ''#''"
  by (auto simp: validTopicSegment_def Split1_notin)

section \<open>The circuit breaker: facts\<close>

lemma failures_below_limit:
  assumes "cb_state cb = circuitClosed" and "cb_consecutiveErrs cb + length ts < circuitBreakerMaxErrors"
  shows "foldl (\<lambda>cb t. cb_recordFailure t cb) cb ts = cb\<lparr>cb_consecutiveErrs := cb_consecutiveErrs cb + length ts\<rparr>"
  using assms
proof (induction ts arbitrary: cb)
  case (Cons t ts)
  then have "cb_recordFailure t cb = cb\<lparr>cb_consecutiveErrs := Suc (cb_consecutiveErrs cb)\<rparr>"
    by (simp add: cb_recordFailure_def Let_def)
  with Cons show ?case by simp
qed simp

lemma failures_reach_limit:
  assumes "cb_state cb = circuitClosed" and "cb_consecutiveErrs cb + length ts + 1 = circuitBreakerMaxErrors"
  shows "foldl (\<lambda>cb t. cb_recordFailure t cb) cb (ts @ [t]) =
     \<lparr>cb_state = circuitOpen, cb_consecutiveErrs = circuitBreakerMaxErrors, cb_openedAt = t\<rparr>"
proof -
  have "foldl (\<lambda>cb t. cb_recordFailure t cb) cb ts = cb\<lparr>cb_consecutiveErrs := cb_consecutiveErrs cb + length ts\<rparr>"
    using assms by (intro failures_below_limit) auto
  with assms show ?thesis by (simp add: cb_recordFailure_def Let_def)
qed

section \<open>Properties\<close>

text \<open>Topics parse back: for a device ID without a slash and a non-empty path that is not
  one of the reserved request forms, the value topic gives device and path; the get, set and
  acknowledge topics and the heartbeat topic never do, and the heartbeat topic gives its device.\<close>

theorem topics_parse_back:
  assumes "CHR ''/'' \<notin> set d" and "d \<noteq> []" and "p \<noteq> []"
  shows "parsePropsTopic (topicProps d p) = (if reserved_rest p then None else Some (d, p)) \<and>
     parsePropsTopic (topicGet d p) = None \<and> parsePropsTopic (topicSet d p) = None \<and>
     parsePropsTopic (topicSetAck d p) = None \<and>
     parsePropsTopic (topicStatus d) = None \<and> parseStatusTopic (topicStatus d) = Some (Some d)"
proof -
  have "topicGet d p = topicProps d (p @ ''/get'')" "topicSet d p = topicProps d (p @ ''/set'')"
    "topicSetAck d p = topicProps d (p @ ''/set/ack'')"
    by (simp_all add: topicGet_def topicSet_def topicSetAck_def topicProps_def)
  moreover have "parsePropsTopic (topicProps d q) = (if reserved_rest q then None else Some (d, q))" if "q \<noteq> []" for q
    using parseProps_topic [OF assms(1,2) that] by (simp add: parsePropsTopic_def)
  ultimately show ?thesis
    using assms parseProps_status parseStatus_topic reserved_suffixes by (simp add: parsePropsTopic_def)
qed

theorem topics_parse_back_witness:
  "parsePropsTopic (topicProps ''lamp-1'' ''state/on'') = Some (''lamp-1'', ''state/on'') \<and>
   parsePropsTopic (topicSetAck ''lamp-1'' ''state/on'') = None \<and> parseStatusTopic (topicStatus ''lamp-1'') = Some (Some ''lamp-1'')"
  using topics_parse_back [of "''lamp-1''" "''state/on''"] by (simp add: reserved_rest_def HasSuffix_def)

text \<open>A watch is confined to its device: the wildcard subscription of an accepted
  device ID matches the value topics of exactly that device (IDs without a slash), while the
  refused ID \<open>+\<close> would have matched those of every device.\<close>

theorem watch_confined:
  assumes "CHR ''/'' \<notin> set d" and "CHR ''/'' \<notin> set d'" and "validTopicSegment d = None"
  shows "(topic_matches (topicPropsWildcard d) (topicProps d' p) \<longleftrightarrow> d' = d) \<and>
     validTopicSegment ''+'' \<noteq> None \<and> topic_matches (topicPropsWildcard ''+'') (topicProps d' p)"
  using wildcard_match [OF assms(1,2)] wildcard_match [of "''+''", OF _ assms(2)] valid_plain [of d] valid_plain [of "''+''"] assms
  by auto

theorem watch_confined_witness:
  "\<not> topic_matches (topicPropsWildcard ''d1'') (topicProps ''d2'' ''x'') \<and> topic_matches (topicPropsWildcard ''d1'') (topicProps ''d1'' ''x'')"
  using watch_confined [of "''d1''" "''d2''" "''x''"] watch_confined [of "''d1''" "''d1''" "''x''"]
  by (simp add: validTopicSegment_def)

text \<open>A property value survives the wire: what \<open>encodeValue\<close> sends, \<open>decodeValue\<close> reads
  back, for every value without a JSON part; an empty byte string is the exception and comes
  back unset. Only NaN and the infinities do not encode.\<close>

theorem value_roundtrip:
  assumes "pv_JSON v = None"
  shows "(case encodeValue v of
      Inl e \<Rightarrow> \<exists>f. pv_Float v = Some f \<and> \<not> f_finite f
    | Inr j \<Rightarrow> decodeValue (Some j) = Inr (v\<lparr>pv_Bytes := (if pv_Bytes v = Some [] then None else pv_Bytes v)\<rparr>))"
proof -
  have int: "dec_int64 (JNum (NInt (sint i))) 0 = Some i" for i :: int64
    using sint_greater_eq [of i] sint_less [of i] by (simp add: dec_int64_def int64_range_def)
  have fin: "enc_float f = None \<longleftrightarrow> \<not> f_finite f" for f by (cases f) (auto simp: enc_float_def)
  have ptr: "dec_ptr dec_float (FZero False) j None = Some (Some f)" if "enc_float f = Some j" for f j
    using dec_enc_float [OF that] by (cases j) (use that in \<open>auto simp: enc_float_def split: float64.splits\<close>)
  show ?thesis
    using assms int fin
    by (cases v; cases "pv_Bool v"; cases "pv_Int v"; cases "pv_Float v"; cases "pv_String v"; cases "pv_Bytes v")
      (auto simp: encodeValue_def marshal_wire_def decodeValue_def opt_member_def dec_wire_field_def EqualFold_def ToLower_def
        to_lower_def zero_wire_def ptr Let_def split: option.splits list.splits)
qed

theorem value_roundtrip_witness:
  "(case encodeValue (IntValue (- 7)) of Inl e \<Rightarrow> False | Inr j \<Rightarrow> decodeValue (Some j) = Inr (IntValue (- 7)))"
proof -
  have "pv_JSON (IntValue (- 7)) = None" by (simp add: value_ctor_defs)
  from value_roundtrip [OF this] show ?thesis by (auto simp: value_ctor_defs split: sum.splits)
qed

text \<open>The circuit breaker opens on the fifth consecutive failure and not before; for
  thirty seconds it then refuses every request and does not change; after them it admits one,
  whose success closes it with a clean count and whose failure opens it again from that
  moment.\<close>

theorem breaker_cycle:
  assumes "cb_state cb = circuitClosed" and "cb_consecutiveErrs cb = 0" and "length ts = 4"
  shows "cb_allow now (foldl (\<lambda>cb t. cb_recordFailure t cb) cb ts) = (foldl (\<lambda>cb t. cb_recordFailure t cb) cb ts, None) \<and>
     (let opened = foldl (\<lambda>cb t. cb_recordFailure t cb) cb (ts @ [t]);
          probe = opened\<lparr>cb_state := circuitHalfOpen\<rparr> in
      cb_isOpen opened \<and> cb_openedAt opened = t \<and>
      cb_allow now opened =
        (if time_Sub now t < circuitBreakerOpenDuration then (opened, Some (Fault [MqttE ErrCircuitOpen])) else (probe, None)) \<and>
      cb_state (cb_recordSuccess probe) = circuitClosed \<and> cb_consecutiveErrs (cb_recordSuccess probe) = 0 \<and>
      cb_isOpen (cb_recordFailure t' probe) \<and> cb_openedAt (cb_recordFailure t' probe) = t')"
proof -
  have "foldl (\<lambda>cb t. cb_recordFailure t cb) cb ts = cb\<lparr>cb_consecutiveErrs := 4\<rparr>"
    using failures_below_limit [OF assms(1), of ts] assms by (simp add: circuitBreakerMaxErrors_def)
  moreover have "foldl (\<lambda>cb t. cb_recordFailure t cb) cb (ts @ [t]) =
      \<lparr>cb_state = circuitOpen, cb_consecutiveErrs = circuitBreakerMaxErrors, cb_openedAt = t\<rparr>"
    using failures_reach_limit [OF assms(1), of ts t] assms by (simp add: circuitBreakerMaxErrors_def)
  ultimately show ?thesis
    using assms(1) by (simp add: Let_def cb_isOpen_def cb_allow_def cb_recordSuccess_def cb_recordFailure_def)
qed

theorem breaker_cycle_witness:
  "cb_allow 20 (foldl (\<lambda>cb t. cb_recordFailure t cb) newCircuitBreaker [1, 2, 3, 4, 5]) =
     (foldl (\<lambda>cb t. cb_recordFailure t cb) newCircuitBreaker [1, 2, 3, 4, 5], Some (Fault [MqttE ErrCircuitOpen]))"
proof -
  have "cb_state newCircuitBreaker = circuitClosed" "cb_consecutiveErrs newCircuitBreaker = 0" "length [1, 2, 3, 4 :: time] = 4"
    by (simp_all add: newCircuitBreaker_def)
  from breaker_cycle [OF this, of 20 5 6] show ?thesis
    by (simp add: Let_def time_Sub_def minDuration_def maxDuration_def circuitBreakerOpenDuration_def second_def)
qed

text \<open>The half-open state is not limited to one probe: while no outcome has been recorded,
  every further request is admitted too.\<close>

theorem half_open_admits_all:
  assumes "cb_isOpen cb" and "\<not> time_Sub now (cb_openedAt cb) < circuitBreakerOpenDuration"
  shows "\<exists>probe. cb_allow now cb = (probe, None) \<and> (\<forall>later. cb_allow later probe = (probe, None))"
  using assms by (simp add: cb_isOpen_def cb_allow_def)

theorem half_open_admits_all_witness:
  "\<exists>probe. cb_allow (31 * second) \<lparr>cb_state = circuitOpen, cb_consecutiveErrs = 5, cb_openedAt = 0\<rparr> = (probe, None) \<and>
     (\<forall>later. cb_allow later probe = (probe, None))"
  by (rule half_open_admits_all)
    (simp_all add: cb_isOpen_def time_Sub_def minDuration_def maxDuration_def circuitBreakerOpenDuration_def second_def)

end
