(* ===== verification/Mqtt_Adapter.thy ===== *)
theory Mqtt_Adapter
  imports Mqtt_Protocol Channels
begin

text \<open>
  The MQTT adapter (\<open>internal/adapters/mqtt/adapter.go\<close>): request and response over topics, with
  one waiter channel per request, subscriptions that are made once, and fan-out of every value
  a device publishes. The MQTT client libraries are third-party code: what \<open>Subscribe\<close> and
  \<open>Publish\<close> return, and which messages arrive while a request waits, are inputs (\<open>mqtt_env\<close>). The
  callbacks' calls are the list of events a step emits. A panic is None.
\<close>

section \<open>State\<close>

type_synonym payload = "json option"

datatype mqtt_event =
    EvUpdate string string PropertyValue    \<comment> \<open>\<open>onUpdate\<close>\<close>
  | EvHeartbeat string                      \<comment> \<open>\<open>onHeartbeat\<close>\<close>

record MqttAdapter =
  ma_tr :: bool                             \<comment> \<open>connected\<close>
  ma_subscribed :: "string list"
  ma_waiters :: "string \<rightharpoonup> nat list"
  ma_chans :: "nat \<Rightarrow> payload chan"
  ma_next :: nat
  ma_cb :: circuitBreaker
  ma_onUpdate :: bool                       \<comment> \<open>the callback is set\<close>
  ma_onHeartbeat :: bool

record mqtt_env =
  me_subscribe :: "string \<Rightarrow> fault option"
  me_publish :: "string \<Rightarrow> payload \<Rightarrow> fault option"
  me_delivered :: "(string \<times> payload) list"  \<comment> \<open>in order, before the request's deadline\<close>
  me_done :: link                           \<comment> \<open>why the context ended\<close>
  me_start :: time
  me_end :: time

definition ma_New :: "bool \<Rightarrow> bool \<Rightarrow> MqttAdapter" where
  "ma_New onUpdate onHeartbeat = \<lparr>ma_tr = False, ma_subscribed = [], ma_waiters = Map.empty, ma_chans = (\<lambda>_. make_chan),
     ma_next = 0, ma_cb = newCircuitBreaker, ma_onUpdate = onUpdate, ma_onHeartbeat = onHeartbeat\<rparr>"

text \<open>
  Dialling. What the libraries do is given: whether the URL parses and the connection manager starts, the
  reports of the connection attempts before the timeout, of which only the first counts, and the error of the
  context; for the older protocol whether the token completed in time, and its error. The result is the error.
\<close>

datatype conn_report = ConnUp | ConnUnsupported | ConnError fault

definition connectV5 :: "fault option \<Rightarrow> fault option \<Rightarrow> conn_report list \<Rightarrow> fault \<Rightarrow> fault option" where
  "connectV5 parseErr startErr reports ctxErr =
     (case parseErr of Some e \<Rightarrow> Some e | None \<Rightarrow>
      (case startErr of Some e \<Rightarrow> Some e | None \<Rightarrow>
       (case reports of
          [] \<Rightarrow> Some ctxErr
        | ConnUp # _ \<Rightarrow> None
        | ConnUnsupported # _ \<Rightarrow> Some (Fault [MqttE ErrUnsupportedVersion])
        | ConnError e # _ \<Rightarrow> Some e)))"

definition connectV3 :: "bool \<Rightarrow> fault option \<Rightarrow> fault option" where
  "connectV3 inTime err = (if \<not> inTime then Some opaque_fault else err)"

text \<open>Waiting for a token: its error when it completes first, else the error of the context.\<close>

definition waitToken :: "fault option option \<Rightarrow> fault \<Rightarrow> fault option" where
  "waitToken token ctxErr = (case token of Some err \<Rightarrow> err | None \<Rightarrow> Some ctxErr)"

text \<open>\<open>v5\<close> and \<open>v3\<close> are the outcomes of the two dial functions.\<close>

definition ma_Connect :: "fault option \<Rightarrow> fault option \<Rightarrow> MqttAdapter \<Rightarrow> MqttAdapter \<times> fault option" where
  "ma_Connect v5 v3 a =
     (let err = (case v5 of None \<Rightarrow> None | Some e \<Rightarrow> if errors_Is e (MqttE ErrUnsupportedVersion) then v3 else Some e) in
      case err of None \<Rightarrow> (a\<lparr>ma_tr := True\<rparr>, None) | Some e \<Rightarrow> (a, Some e))"

definition ma_Disconnect :: "fault option \<Rightarrow> MqttAdapter \<Rightarrow> fault option" where
  "ma_Disconnect err a = (if ma_tr a then err else None)"

definition ma_Healthy :: "MqttAdapter \<Rightarrow> bool" where
  "ma_Healthy a \<longleftrightarrow> \<not> cb_isOpen (ma_cb a)"

section \<open>Subscriptions\<close>

definition coveredByWildcardLocked :: "MqttAdapter \<Rightarrow> string \<Rightarrow> bool" where
  "coveredByWildcardLocked a topic =
     (case parsePropsTopicOrSetAck topic of
        None \<Rightarrow> False
      | Some (deviceID, rest) \<Rightarrow> topicPropsWildcard deviceID \<in> set (ma_subscribed a))"

definition subscribeOnce :: "mqtt_env \<Rightarrow> string \<Rightarrow> MqttAdapter \<Rightarrow> MqttAdapter \<times> fault option" where
  "subscribeOnce env topic a =
     (if topic \<in> set (ma_subscribed a) \<or> coveredByWildcardLocked a topic then (a, None)
      else if \<not> ma_tr a then (a, Some opaque_fault)
      else case me_subscribe env topic of
             Some e \<Rightarrow> (a, Some e)
           | None \<Rightarrow> (a\<lparr>ma_subscribed := ma_subscribed a @ [topic]\<rparr>, None))"

definition ma_WatchDevice :: "mqtt_env \<Rightarrow> string \<Rightarrow> MqttAdapter \<Rightarrow> MqttAdapter \<times> fault option" where
  "ma_WatchDevice env deviceID a =
     (case validTopicSegment deviceID of
        Some e \<Rightarrow> (a, Some e)
      | None \<Rightarrow>
          (case subscribeOnce env (topicPropsWildcard deviceID) a of
             (a1, Some e) \<Rightarrow> (a1, Some e)
           | (a1, None) \<Rightarrow> subscribeOnce env (topicStatus deviceID) a1))"

section \<open>Waiters and dispatch\<close>

definition registerWaiter :: "string \<Rightarrow> MqttAdapter \<Rightarrow> nat \<times> MqttAdapter" where
  "registerWaiter topic a =
     (let ch = ma_next a; ws = (case ma_waiters a topic of None \<Rightarrow> [] | Some ws \<Rightarrow> ws) in
      (ch, a\<lparr>ma_chans := (ma_chans a)(ch := make_chan), ma_waiters := (ma_waiters a)(topic \<mapsto> ws @ [ch]), ma_next := Suc ch\<rparr>))"

definition cancelWaiter :: "string \<Rightarrow> nat \<Rightarrow> MqttAdapter \<Rightarrow> MqttAdapter" where
  "cancelWaiter topic ch a =
     (let ws = (case ma_waiters a topic of None \<Rightarrow> [] | Some ws \<Rightarrow> ws); ws' = remove1 ch ws in
      a\<lparr>ma_waiters := (ma_waiters a)(topic := if ws' = [] then None else Some ws')\<rparr>)"

definition dispatch_events :: "MqttAdapter \<Rightarrow> string \<Rightarrow> payload \<Rightarrow> mqtt_event list option" where
  "dispatch_events a topic p =
     (case parsePropsTopic topic of
        None \<Rightarrow>
          (case parseStatusTopic topic of
             None \<Rightarrow> None
           | Some None \<Rightarrow> Some []
           | Some (Some deviceID) \<Rightarrow> Some (if ma_onHeartbeat a then [EvHeartbeat deviceID] else []))
      | Some (deviceID, path) \<Rightarrow>
          (case decodeValue p of
             Inl e \<Rightarrow> Some []
           | Inr v \<Rightarrow> Some (if ma_onUpdate a then [EvUpdate deviceID path v] else [])))"

definition ma_dispatch :: "string \<Rightarrow> payload \<Rightarrow> MqttAdapter \<Rightarrow> (MqttAdapter \<times> mqtt_event list) option" where
  "ma_dispatch topic p a =
     (case send_each 1 p (case ma_waiters a topic of None \<Rightarrow> [] | Some ws \<Rightarrow> ws) (ma_chans a) of
        None \<Rightarrow> None
      | Some h \<Rightarrow> map_option (\<lambda>evs. (a\<lparr>ma_chans := h\<rparr>, evs)) (dispatch_events a topic p))"

fun deliver :: "(string \<times> payload) list \<Rightarrow> MqttAdapter \<Rightarrow> (MqttAdapter \<times> mqtt_event list) option" where
  "deliver [] a = Some (a, [])"
| "deliver ((t, p) # ms) a =
     (case ma_dispatch t p a of
        None \<Rightarrow> None
      | Some (a1, es1) \<Rightarrow> map_option (\<lambda>(a2, es2). (a2, es1 @ es2)) (deliver ms a1))"

section \<open>Requests\<close>

text \<open>Publish, then the select between the waiter's channel and the end of the context.\<close>

definition exchange :: "mqtt_env \<Rightarrow> nat \<Rightarrow> string \<Rightarrow> payload \<Rightarrow> MqttAdapter \<Rightarrow>
    (MqttAdapter \<times> mqtt_event list \<times> (fault + payload)) option" where
  "exchange env ch topic p a =
     (case me_publish env topic p of
        Some e \<Rightarrow> Some (a, [], Inl e)
      | None \<Rightarrow>
          (case deliver (me_delivered env) a of
             None \<Rightarrow> None
           | Some (a1, evs) \<Rightarrow>
               (case ch_buf (ma_chans a1 ch) of
                  [] \<Rightarrow> Some (a1, evs, Inl (Fault [me_done env]))
                | q # qs \<Rightarrow> Some (a1, evs, Inr q))))"

definition readProperty :: "mqtt_env \<Rightarrow> string \<Rightarrow> string \<Rightarrow> MqttAdapter \<Rightarrow>
    (MqttAdapter \<times> mqtt_event list \<times> (fault + PropertyValue)) option" where
  "readProperty env deviceID path a =
     (if \<not> ma_tr a then Some (a, [], Inl opaque_fault)
      else let replyTopic = topicProps deviceID path in
           case subscribeOnce env replyTopic a of
             (a1, Some e) \<Rightarrow> Some (a1, [], Inl e)
           | (a1, None) \<Rightarrow>
               (case registerWaiter replyTopic a1 of (ch, a2) \<Rightarrow>
                  (case exchange env ch (topicGet deviceID path) None a2 of
                     None \<Rightarrow> None
                   | Some (a3, evs, Inl e) \<Rightarrow> Some (cancelWaiter replyTopic ch a3, evs, Inl e)
                   | Some (a3, evs, Inr p) \<Rightarrow> Some (cancelWaiter replyTopic ch a3, evs, decodeValue p))))"

definition writeProperty :: "mqtt_env \<Rightarrow> string \<Rightarrow> string \<Rightarrow> PropertyValue \<Rightarrow> MqttAdapter \<Rightarrow>
    (MqttAdapter \<times> mqtt_event list \<times> fault option) option" where
  "writeProperty env deviceID path v a =
     (if \<not> ma_tr a then Some (a, [], Some opaque_fault)
      else let ackTopic = topicSetAck deviceID path in
           case subscribeOnce env ackTopic a of
             (a1, Some e) \<Rightarrow> Some (a1, [], Some e)
           | (a1, None) \<Rightarrow>
               (case registerWaiter ackTopic a1 of (ch, a2) \<Rightarrow>
                  (case encodeValue v of
                     Inl e \<Rightarrow> Some (cancelWaiter ackTopic ch a2, [], Some e)
                   | Inr j \<Rightarrow>
                       (case exchange env ch (topicSet deviceID path) (Some j) a2 of
                          None \<Rightarrow> None
                        | Some (a3, evs, Inl e) \<Rightarrow> Some (cancelWaiter ackTopic ch a3, evs, Some e)
                        | Some (a3, evs, Inr p) \<Rightarrow> Some (cancelWaiter ackTopic ch a3, evs, None)))))"

text \<open>The guards of \<open>ReadProperty\<close> and \<open>WriteProperty\<close>, and what the outcome does to the breaker.\<close>

definition request_guard :: "mqtt_env \<Rightarrow> string \<Rightarrow> string \<Rightarrow> MqttAdapter \<Rightarrow> MqttAdapter \<times> fault option" where
  "request_guard env deviceID path a =
     (case validTopicSegment deviceID of
        Some e \<Rightarrow> (a, Some e)
      | None \<Rightarrow>
          (case validTopicSegment path of
             Some e \<Rightarrow> (a, Some e)
           | None \<Rightarrow> (case cb_allow (me_start env) (ma_cb a) of (cb, r) \<Rightarrow> (a\<lparr>ma_cb := cb\<rparr>, r))))"

definition record_outcome :: "mqtt_env \<Rightarrow> bool \<Rightarrow> MqttAdapter \<Rightarrow> MqttAdapter" where
  "record_outcome env ok a =
     a\<lparr>ma_cb := if ok then cb_recordSuccess (ma_cb a) else cb_recordFailure (me_end env) (ma_cb a)\<rparr>"

definition ma_ReadProperty :: "mqtt_env \<Rightarrow> string \<Rightarrow> string \<Rightarrow> MqttAdapter \<Rightarrow>
    (MqttAdapter \<times> mqtt_event list \<times> (fault + PropertyValue)) option" where
  "ma_ReadProperty env deviceID path a =
     (case request_guard env deviceID path a of
        (a1, Some e) \<Rightarrow> Some (a1, [], Inl e)
      | (a1, None) \<Rightarrow>
          (case readProperty env deviceID path a1 of
             None \<Rightarrow> None
           | Some (a2, evs, r) \<Rightarrow> Some (record_outcome env (\<exists>v. r = Inr v) a2, evs, r)))"

definition ma_WriteProperty :: "mqtt_env \<Rightarrow> string \<Rightarrow> string \<Rightarrow> PropertyValue \<Rightarrow> MqttAdapter \<Rightarrow>
    (MqttAdapter \<times> mqtt_event list \<times> fault option) option" where
  "ma_WriteProperty env deviceID path v a =
     (case request_guard env deviceID path a of
        (a1, Some e) \<Rightarrow> Some (a1, [], Some e)
      | (a1, None) \<Rightarrow>
          (case writeProperty env deviceID path v a1 of
             None \<Rightarrow> None
           | Some (a2, evs, r) \<Rightarrow> Some (record_outcome env (r = None) a2, evs, r)))"

lemma ma_ReadProperty_code [code]:
  "ma_ReadProperty env deviceID path a =
     (case request_guard env deviceID path a of
        (a1, Some e) \<Rightarrow> Some (a1, [], Inl e)
      | (a1, None) \<Rightarrow>
          (case readProperty env deviceID path a1 of
             None \<Rightarrow> None
           | Some (a2, evs, r) \<Rightarrow> Some (record_outcome env (\<not> isl r) a2, evs, r)))"
proof -
  have "(\<exists>v. r = Inr v) \<longleftrightarrow> \<not> isl r" for r :: "fault + PropertyValue" by (cases r) auto
  then show ?thesis unfolding ma_ReadProperty_def by (simp split: prod.split option.split)
qed

section \<open>Invariant\<close>

definition waiters_at :: "MqttAdapter \<Rightarrow> string \<Rightarrow> nat list" where
  "waiters_at a t = (case ma_waiters a t of None \<Rightarrow> [] | Some ws \<Rightarrow> ws)"

definition ma_inv :: "MqttAdapter \<Rightarrow> bool" where
  "ma_inv a \<longleftrightarrow> (\<forall>t. ma_waiters a t \<noteq> Some []) \<and> (\<forall>t. distinct (waiters_at a t)) \<and>
     (\<forall>t. \<forall>w \<in> set (waiters_at a t). w < ma_next a) \<and> (\<forall>c. \<not> ch_closed (ma_chans a c))"

lemma dispatch_step:
  assumes "ma_inv a" and "dispatch_events a t p = Some evs"
  shows "\<exists>h. ma_dispatch t p a = Some (a\<lparr>ma_chans := h\<rparr>, evs) \<and> (\<forall>c. \<not> ch_closed (h c)) \<and>
     (\<forall>c. ch_buf (h c) = (if c \<in> set (waiters_at a t) \<and> ch_buf (ma_chans a c) = [] then [p] else ch_buf (ma_chans a c)))"
proof -
  let ?h = "\<lambda>c. if c \<in> set (waiters_at a t) then offer_chan 1 p (ma_chans a c) else ma_chans a c"
  have opened: "\<not> ch_closed (ma_chans a c)" for c using assms(1) by (simp add: ma_inv_def)
  have "send_each 1 p (waiters_at a t) (ma_chans a) = Some ?h"
    using assms(1) by (intro send_each_open) (simp_all add: ma_inv_def)
  then have "ma_dispatch t p a = Some (a\<lparr>ma_chans := ?h\<rparr>, evs)"
    using assms(2) by (simp add: ma_dispatch_def waiters_at_def)
  with opened show ?thesis by (intro exI [of _ ?h]) (auto simp: offer_chan_def)
qed

text \<open>The events of a run of messages, and the first payload among them on a topic.\<close>

fun events_of :: "MqttAdapter \<Rightarrow> (string \<times> payload) list \<Rightarrow> mqtt_event list option" where
  "events_of a [] = Some []"
| "events_of a ((t, p) # ms) =
     (case (dispatch_events a t p, events_of a ms) of (Some e, Some es) \<Rightarrow> Some (e @ es) | _ \<Rightarrow> None)"

definition first_on :: "string \<Rightarrow> (string \<times> payload) list \<Rightarrow> payload list" where
  "first_on t ms = take 1 (map snd (filter (\<lambda>m. fst m = t) ms))"

lemma first_on_Cons: "first_on t (m # ms) = (if fst m = t then [snd m] else first_on t ms)"
  by (simp add: first_on_def)

lemma events_of_cong:
  assumes "ma_onUpdate a = ma_onUpdate b" and "ma_onHeartbeat a = ma_onHeartbeat b"
  shows "events_of a ms = events_of b ms"
proof (induction ms)
  case (Cons m ms)
  have "dispatch_events a t p = dispatch_events b t p" for t p
    using assms by (auto simp: dispatch_events_def split: option.splits sum.splits)
  with Cons show ?case by (cases m) simp
qed simp

lemma events_of_chans: "events_of (a\<lparr>ma_chans := h\<rparr>) ms = events_of a ms"
  by (rule events_of_cong) simp_all

definition sole_waiter :: "MqttAdapter \<Rightarrow> string \<Rightarrow> nat \<Rightarrow> bool" where
  "sole_waiter a t c \<longleftrightarrow> c \<in> set (waiters_at a t) \<and> (\<forall>t'. c \<in> set (waiters_at a t') \<longrightarrow> t' = t)"

lemma deliver_run:
  assumes "ma_inv a" and "events_of a ms = Some evs"
  shows "\<exists>h. deliver ms a = Some (a\<lparr>ma_chans := h\<rparr>, evs) \<and> (\<forall>c. \<not> ch_closed (h c)) \<and>
     (\<forall>t c. sole_waiter a t c \<longrightarrow> ch_buf (ma_chans a c) = [] \<longrightarrow> ch_buf (h c) = first_on t ms) \<and>
     (\<forall>c. ch_buf (ma_chans a c) \<noteq> [] \<longrightarrow> ch_buf (h c) = ch_buf (ma_chans a c))"
  using assms
proof (induction ms arbitrary: a evs)
  case Nil
  have "\<forall>c. \<not> ch_closed (ma_chans a c)" using Nil.prems(1) by (auto simp only: ma_inv_def)
  moreover have "deliver [] a = Some (a\<lparr>ma_chans := ma_chans a\<rparr>, evs)" using Nil.prems(2) by simp
  moreover have "first_on t [] = []" for t by (simp add: first_on_def)
  ultimately show ?case by (intro exI [of _ "ma_chans a"]) simp
next
  case (Cons m ms)
  obtain t p where m: "m = (t, p)" by (cases m)
  with Cons.prems(2) obtain e es where e: "dispatch_events a t p = Some e" "events_of a ms = Some es" "evs = e @ es"
    by (auto split: option.splits)
  obtain h where h: "ma_dispatch t p a = Some (a\<lparr>ma_chans := h\<rparr>, e)" "\<forall>c. \<not> ch_closed (h c)"
    "\<forall>c. ch_buf (h c) = (if c \<in> set (waiters_at a t) \<and> ch_buf (ma_chans a c) = [] then [p] else ch_buf (ma_chans a c))"
    using dispatch_step [OF Cons.prems(1) e(1)] by blast
  have inv: "ma_inv (a\<lparr>ma_chans := h\<rparr>)"
    using Cons.prems(1) h(2) by (simp add: ma_inv_def waiters_at_def)
  have same: "waiters_at (a\<lparr>ma_chans := h\<rparr>) u = waiters_at a u" for u by (simp add: waiters_at_def)
  obtain h' where h': "deliver ms (a\<lparr>ma_chans := h\<rparr>) = Some (a\<lparr>ma_chans := h'\<rparr>, es)" "\<forall>c. \<not> ch_closed (h' c)"
    "\<forall>t c. sole_waiter a t c \<longrightarrow> ch_buf (h c) = [] \<longrightarrow> ch_buf (h' c) = first_on t ms"
    "\<forall>c. ch_buf (h c) \<noteq> [] \<longrightarrow> ch_buf (h' c) = ch_buf (h c)"
    using Cons.IH [OF inv, of es] e(2) by (auto simp: events_of_chans same sole_waiter_def)
  have run: "deliver (m # ms) a = Some (a\<lparr>ma_chans := h'\<rparr>, evs)"
    using m h(1) h'(1) e(3) by simp
  have "ch_buf (h' c) = first_on u (m # ms)"
    if c: "sole_waiter a u c" "ch_buf (ma_chans a c) = []" for u c
  proof (cases "t = u")
    case True
    then have "ch_buf (h c) = [p]" using h(3) c by (simp add: sole_waiter_def)
    with h'(4) True m show ?thesis by (simp add: first_on_Cons)
  next
    case False
    then have "ch_buf (h c) = []" using h(3) c by (auto simp: sole_waiter_def)
    with h'(3) c False m show ?thesis by (simp add: first_on_Cons)
  qed
  moreover have "\<forall>c. ch_buf (ma_chans a c) \<noteq> [] \<longrightarrow> ch_buf (h' c) = ch_buf (ma_chans a c)"
    using h(3) h'(4) by simp
  ultimately show ?case using run h'(2) by blast
qed

text \<open>One exchange between registering a waiter and cancelling it.\<close>

definition answer :: "mqtt_env \<Rightarrow> string \<Rightarrow> fault + payload" where
  "answer env t = (case first_on t (me_delivered env) of [] \<Rightarrow> Inl (Fault [me_done env]) | p # ps \<Rightarrow> Inr p)"

lemma exchange_run:
  assumes "ma_inv a" and "registerWaiter t a = (ch, a1)" and "me_publish env pt p = None"
    and "events_of a (me_delivered env) = Some evs"
  shows "\<exists>a2. exchange env ch pt p a1 = Some (a2, evs, answer env t) \<and>
     ma_inv (cancelWaiter t ch a2) \<and> ma_waiters (cancelWaiter t ch a2) = ma_waiters a \<and> ma_cb a2 = ma_cb a \<and>
     ma_subscribed a2 = ma_subscribed a \<and> ma_tr a2 = ma_tr a"
proof -
  have ch: "ch = ma_next a" and a1: "a1 = a\<lparr>ma_chans := (ma_chans a)(ch := make_chan),
      ma_waiters := (ma_waiters a)(t \<mapsto> waiters_at a t @ [ch]), ma_next := Suc ch\<rparr>"
    using assms(2) by (auto simp: registerWaiter_def waiters_at_def Let_def)
  have fresh: "ch \<notin> set (waiters_at a u)" for u
    using assms(1) ch by (auto simp: ma_inv_def)
  have at1: "waiters_at a1 u = (if u = t then waiters_at a t @ [ch] else waiters_at a u)" for u
    by (simp add: a1 waiters_at_def)
  have inv1: "ma_inv a1"
    using assms(1) fresh unfolding ma_inv_def at1 by (auto simp: a1 ch make_chan_def less_SucI)
  have ev: "events_of a1 (me_delivered env) = Some evs"
    using assms(4) events_of_cong [of a1 a] by (simp add: a1)
  obtain h where h: "deliver (me_delivered env) a1 = Some (a1\<lparr>ma_chans := h\<rparr>, evs)" "\<forall>c. \<not> ch_closed (h c)"
    "\<forall>u c. sole_waiter a1 u c \<longrightarrow> ch_buf (ma_chans a1 c) = [] \<longrightarrow> ch_buf (h c) = first_on u (me_delivered env)"
    using deliver_run [OF inv1 ev] by blast
  have "ch_buf (h ch) = first_on t (me_delivered env)"
  proof -
    have "sole_waiter a1 t ch" using fresh by (simp add: sole_waiter_def at1)
    moreover have "ch_buf (ma_chans a1 ch) = []" by (simp add: a1 make_chan_def)
    ultimately show ?thesis using h(3) by blast
  qed
  then have ex: "exchange env ch pt p a1 = Some (a1\<lparr>ma_chans := h\<rparr>, evs, answer env t)"
    by (simp add: exchange_def assms(3) h(1) answer_def split: list.splits)
  have rem: "remove1 ch (waiters_at a t @ [ch]) = waiters_at a t"
    using fresh [of t] by (simp add: remove1_append)
  have none: "waiters_at a t = [] \<longleftrightarrow> ma_waiters a t = None"
    using assms(1) by (auto simp: ma_inv_def waiters_at_def split: option.splits)
  then have back_w: "ma_waiters (cancelWaiter t ch (a1\<lparr>ma_chans := h\<rparr>)) = ma_waiters a"
    using rem by (auto simp: cancelWaiter_def a1 Let_def fun_eq_iff waiters_at_def split: option.splits)
  have "waiters_at (cancelWaiter t ch (a1\<lparr>ma_chans := h\<rparr>)) u = waiters_at a u" for u
    by (simp add: waiters_at_def back_w)
  then have "ma_inv (cancelWaiter t ch (a1\<lparr>ma_chans := h\<rparr>))"
    using assms(1) h(2) back_w unfolding ma_inv_def by (auto simp: cancelWaiter_def a1 ch Let_def less_SucI)
  with ex back_w show ?thesis by (auto simp: a1)
qed

lemma subscribeOnce_fields:
  assumes "subscribeOnce env t a = (a', r)"
  shows "ma_waiters a' = ma_waiters a" "ma_chans a' = ma_chans a" "ma_next a' = ma_next a" "ma_cb a' = ma_cb a" "ma_tr a' = ma_tr a"
    "ma_onUpdate a' = ma_onUpdate a" "ma_onHeartbeat a' = ma_onHeartbeat a"
  using assms by (auto simp: subscribeOnce_def split: if_splits option.splits)

lemma request_guard_fields:
  assumes "request_guard env d p a = (a', r)"
  shows "ma_waiters a' = ma_waiters a" "ma_chans a' = ma_chans a" "ma_next a' = ma_next a" "ma_tr a' = ma_tr a"
    "ma_onUpdate a' = ma_onUpdate a" "ma_onHeartbeat a' = ma_onHeartbeat a" "ma_subscribed a' = ma_subscribed a"
  using assms by (auto simp: request_guard_def split: option.splits prod.splits)

lemma ma_inv_cong:
  "ma_waiters a' = ma_waiters a \<Longrightarrow> ma_chans a' = ma_chans a \<Longrightarrow> ma_next a' = ma_next a \<Longrightarrow> ma_inv a' = ma_inv a"
  by (simp add: ma_inv_def waiters_at_def)

lemma record_outcome_fields [simp]:
  "ma_waiters (record_outcome env ok a) = ma_waiters a" "ma_inv (record_outcome env ok a) = ma_inv a"
  "ma_cb (record_outcome env ok a) = (if ok then cb_recordSuccess (ma_cb a) else cb_recordFailure (me_end env) (ma_cb a))"
  by (simp_all add: record_outcome_def ma_inv_def waiters_at_def)

lemma cancelWaiter_cb [simp]: "ma_cb (cancelWaiter t ch a) = ma_cb a"
  by (simp add: cancelWaiter_def Let_def)

text \<open>Version negotiation: the adapter connects when the first report of the version 5 attempt is success, or when it is
  the refusal of that version and the version 3.1.1 attempt succeeds; no other failure makes it try the older version.\<close>

lemma mqtt_negotiation:
  assumes "\<And>e. r = ConnError e \<Longrightarrow> \<not> errors_Is e (MqttE ErrUnsupportedVersion)"
  shows "snd (ma_Connect (connectV5 None None (r # rs) ce) (connectV3 inTime e3) a) = None \<longleftrightarrow>
     r = ConnUp \<or> r = ConnUnsupported \<and> inTime \<and> e3 = None"
  using assms by (cases r) (auto simp: ma_Connect_def connectV5_def connectV3_def Let_def split: option.split)

section \<open>Properties\<close>

text \<open>C37. A read that passes its guards, on a connected adapter whose subscription and publish
  succeed, returns the first value the device publishes on the property's topic before the
  deadline, and the context's error if it publishes none; every message that arrived meanwhile
  is fanned out, the waiter is gone afterwards, and the breaker records the outcome.\<close>

theorem read_returns_first_reply:
  assumes "ma_inv a" and "ma_tr a" and "request_guard env d path a = (a1, None)"
    and "subscribeOnce env (topicProps d path) a1 = (a2, None)" and "me_publish env (topicGet d path) None = None"
    and "events_of a (me_delivered env) = Some evs"
  shows "\<exists>a' r. ma_ReadProperty env d path a = Some (a', evs, r) \<and>
     r = (case answer env (topicProps d path) of Inl e \<Rightarrow> Inl e | Inr p \<Rightarrow> decodeValue p) \<and>
     ma_inv a' \<and> ma_waiters a' = ma_waiters a \<and>
     ma_cb a' = (if \<exists>v. r = Inr v then cb_recordSuccess (ma_cb a1) else cb_recordFailure (me_end env) (ma_cb a1))"
proof -
  note g = request_guard_fields [OF assms(3)] and sf = subscribeOnce_fields [OF assms(4)]
  have inv2: "ma_inv a2" using assms(1) g sf ma_inv_cong [of a2 a] by simp
  have ev2: "events_of a2 (me_delivered env) = Some evs" using assms(6) events_of_cong [of a2 a] g sf by simp
  obtain ch a3 where reg: "registerWaiter (topicProps d path) a2 = (ch, a3)" by fastforce
  obtain a4 where a4: "exchange env ch (topicGet d path) None a3 = Some (a4, evs, answer env (topicProps d path))"
    "ma_inv (cancelWaiter (topicProps d path) ch a4)" "ma_waiters (cancelWaiter (topicProps d path) ch a4) = ma_waiters a2" "ma_cb a4 = ma_cb a2"
    using exchange_run [OF inv2 reg assms(5) ev2] by blast
  let ?r = "case answer env (topicProps d path) of Inl e \<Rightarrow> Inl e | Inr p \<Rightarrow> decodeValue p"
  have "readProperty env d path a1 = Some (cancelWaiter (topicProps d path) ch a4, evs, ?r)"
    using assms(2,4) g(4) reg a4(1) by (cases "answer env (topicProps d path)") (simp_all add: readProperty_def Let_def)
  then have "ma_ReadProperty env d path a = Some (record_outcome env (\<exists>v. ?r = Inr v) (cancelWaiter (topicProps d path) ch a4), evs, ?r)"
    by (simp add: ma_ReadProperty_def assms(3))
  with a4 g sf show ?thesis by simp
qed

definition mqtt_demo_env :: mqtt_env where
  "mqtt_demo_env = \<lparr>me_subscribe = (\<lambda>_. None), me_publish = (\<lambda>_ _. None),
     me_delivered = [(''udal/d/props/t'', Some (JObj [(''int'', JNum (NInt 21))]))], me_done = DeadlineExceededE, me_start = 0, me_end = 5\<rparr>"

definition mqtt_demo :: MqttAdapter where
  "mqtt_demo = (ma_New True True)\<lparr>ma_tr := True\<rparr>"

lemmas mqtt_demo_defs = mqtt_demo_env_def mqtt_demo_def ma_New_def newCircuitBreaker_def

lemma mqtt_demo_facts:
  "ma_inv mqtt_demo" "ma_tr mqtt_demo" "request_guard mqtt_demo_env ''d'' ''t'' mqtt_demo = (mqtt_demo, None)"
  "subscribeOnce mqtt_demo_env (topicProps ''d'' ''t'') mqtt_demo = (mqtt_demo\<lparr>ma_subscribed := [topicProps ''d'' ''t'']\<rparr>, None)"
  by (simp_all add: mqtt_demo_defs ma_inv_def waiters_at_def make_chan_def request_guard_def validTopicSegment_def cb_allow_def
      subscribeOnce_def coveredByWildcardLocked_def split: option.splits)

lemma mqtt_demo_events:
  "events_of mqtt_demo (me_delivered mqtt_demo_env) = Some [EvUpdate ''d'' ''t'' (IntValue 21)]"
  "decodeValue (Some (JObj [(''int'', JNum (NInt 21))])) = Inr (IntValue 21)"
proof -
  show val: "decodeValue (Some (JObj [(''int'', JNum (NInt 21))])) = Inr (IntValue 21)"
    by (simp add: decodeValue_def dec_wire_field_def EqualFold_def ToLower_def to_lower_def zero_wire_def dec_int64_def int64_range_def value_ctor_defs)
  have "parsePropsTopic ''udal/d/props/t'' = Some (''d'', ''t'')" by code_simp
  then show "events_of mqtt_demo (me_delivered mqtt_demo_env) = Some [EvUpdate ''d'' ''t'' (IntValue 21)]"
    using val by (simp add: mqtt_demo_defs dispatch_events_def)
qed

theorem read_returns_first_reply_witness:
  "\<exists>a'. ma_ReadProperty mqtt_demo_env ''d'' ''t'' mqtt_demo = Some (a', [EvUpdate ''d'' ''t'' (IntValue 21)], Inr (IntValue 21)) \<and>
     ma_waiters a' = ma_waiters mqtt_demo"
proof -
  have "me_publish mqtt_demo_env (topicGet ''d'' ''t'') None = None" by (simp add: mqtt_demo_env_def)
  moreover have "answer mqtt_demo_env (topicProps ''d'' ''t'') = Inr (Some (JObj [(''int'', JNum (NInt 21))]))"
    by (simp add: answer_def first_on_def mqtt_demo_env_def topicProps_def)
  ultimately show ?thesis
    using read_returns_first_reply [OF mqtt_demo_facts _ mqtt_demo_events(1)] mqtt_demo_events(2) by auto
qed

text \<open>C38. A write succeeds exactly when the device acknowledges it before the deadline: with
  guards passed, the adapter connected, the subscription and the publish successful and the
  value encodable, the result is success if a message came on the acknowledge topic and the
  context's error otherwise, and no waiter is left behind.\<close>

theorem write_needs_ack:
  assumes "ma_inv a" and "ma_tr a" and "request_guard env d path a = (a1, None)"
    and "subscribeOnce env (topicSetAck d path) a1 = (a2, None)" and "encodeValue v = Inr j"
    and "me_publish env (topicSet d path) (Some j) = None" and "events_of a (me_delivered env) = Some evs"
  shows "\<exists>a' r. ma_WriteProperty env d path v a = Some (a', evs, r) \<and>
     (r = None \<longleftrightarrow> (\<exists>p. (topicSetAck d path, p) \<in> set (me_delivered env))) \<and> (r \<noteq> None \<longrightarrow> r = Some (Fault [me_done env])) \<and>
     ma_inv a' \<and> ma_waiters a' = ma_waiters a"
proof -
  note g = request_guard_fields [OF assms(3)] and sf = subscribeOnce_fields [OF assms(4)]
  have inv2: "ma_inv a2" using assms(1) g sf ma_inv_cong [of a2 a] by simp
  have ev2: "events_of a2 (me_delivered env) = Some evs" using assms(7) events_of_cong [of a2 a] g sf by simp
  obtain ch a3 where reg: "registerWaiter (topicSetAck d path) a2 = (ch, a3)" by fastforce
  obtain a4 where a4: "exchange env ch (topicSet d path) (Some j) a3 = Some (a4, evs, answer env (topicSetAck d path))"
    "ma_inv (cancelWaiter (topicSetAck d path) ch a4)" "ma_waiters (cancelWaiter (topicSetAck d path) ch a4) = ma_waiters a2"
    using exchange_run [OF inv2 reg assms(6) ev2] by blast
  let ?r = "case answer env (topicSetAck d path) of Inl e \<Rightarrow> Some e | Inr p \<Rightarrow> None"
  have "writeProperty env d path v a1 = Some (cancelWaiter (topicSetAck d path) ch a4, evs, ?r)"
    using assms(2,4,5) g(4) reg a4(1) by (cases "answer env (topicSetAck d path)") (simp_all add: writeProperty_def Let_def)
  then have w: "ma_WriteProperty env d path v a = Some (record_outcome env (?r = None) (cancelWaiter (topicSetAck d path) ch a4), evs, ?r)"
    by (simp add: ma_WriteProperty_def assms(3))
  have "first_on (topicSetAck d path) ms = [] \<longleftrightarrow> (\<forall>p. (topicSetAck d path, p) \<notin> set ms)" for ms
    by (induction ms) (auto simp: first_on_Cons first_on_def)
  then have r: "?r = None \<longleftrightarrow> (\<exists>p. (topicSetAck d path, p) \<in> set (me_delivered env))" "?r \<noteq> None \<longrightarrow> ?r = Some (Fault [me_done env])"
    using list.exhaust [of "first_on (topicSetAck d path) (me_delivered env)"] by (force simp: answer_def split: list.splits)+
  have fin: "ma_inv (record_outcome env (?r = None) (cancelWaiter (topicSetAck d path) ch a4))"
    "ma_waiters (record_outcome env (?r = None) (cancelWaiter (topicSetAck d path) ch a4)) = ma_waiters a"
    using a4(2,3) g sf by simp_all
  show ?thesis by (intro exI conjI) (rule w r fin)+
qed

theorem write_needs_ack_witness:
  "\<exists>a' r. ma_WriteProperty (mqtt_demo_env\<lparr>me_delivered := []\<rparr>) ''d'' ''t'' (IntValue 3) mqtt_demo = Some (a', [], r) \<and>
     r = Some (Fault [DeadlineExceededE])"
proof -
  let ?env = "mqtt_demo_env\<lparr>me_delivered := []\<rparr>"
  obtain j where j: "encodeValue (IntValue 3) = Inr j"
    by (simp add: encodeValue_def marshal_wire_def value_ctor_defs)
  have "\<not> coveredByWildcardLocked mqtt_demo (topicSetAck ''d'' ''t'')"
    by (simp add: coveredByWildcardLocked_def mqtt_demo_defs split: option.splits)
  then have a2: "subscribeOnce ?env (topicSetAck ''d'' ''t'') mqtt_demo = (mqtt_demo\<lparr>ma_subscribed := [topicSetAck ''d'' ''t'']\<rparr>, None)"
    by (simp add: subscribeOnce_def mqtt_demo_defs)
  have "request_guard ?env ''d'' ''t'' mqtt_demo = (mqtt_demo, None)"
    by (simp add: mqtt_demo_defs request_guard_def validTopicSegment_def cb_allow_def)
  moreover have "me_publish ?env (topicSet ''d'' ''t'') (Some j) = None" "events_of mqtt_demo (me_delivered ?env) = Some []"
    by (simp_all add: mqtt_demo_env_def)
  ultimately show ?thesis
    using write_needs_ack [OF mqtt_demo_facts(1,2) _ a2 j] by (force simp: mqtt_demo_env_def)
qed

end
