(* ===== verification/Service_Mapping.thy ===== *)
theory Service_Mapping
  imports Capability_Registry Auth
begin

text \<open>
  The mappings of the gRPC device service (\<open>internal/service/device_service.go\<close>): adapter
  errors to status codes, devices and property values to and from their protobuf messages,
  and capability references. A nil slice is None; a protobuf timestamp is its instant.
\<close>

section \<open>Capability references and status codes\<close>

definition splitCapabilityRef :: "string \<Rightarrow> (string \<times> string) option" where
  "splitCapabilityRef ref = (case Cut ref ''@'' of (name, version, ok) \<Rightarrow>
     if \<not> ok \<or> name = [] \<or> version = [] then None else Some (name, version))"

definition capabilityRefStatusError :: "fault \<Rightarrow> code" where
  "capabilityRefStatusError e =
     (if errors_Is e (CapE CapErrNotFound) then CodeNotFound
      else if errors_Is e (CapE CapErrPropertyNotDeclared) then CodeNotFound
      else if errors_Is e (CapE CapErrInvalidPropertyValue) then CodeInvalidArgument
      else CodeInternal)"

definition mqttStatusError :: "fault \<Rightarrow> code" where
  "mqttStatusError e =
     (if errors_Is e (MqttE ErrInvalidTopicSegment) then CodeInvalidArgument
      else if errors_Is e (MqttE ErrCircuitOpen) then CodeUnavailable
      else if errors_Is e DeadlineExceededE then CodeDeadlineExceeded
      else CodeInternal)"

definition httpStatusError :: "fault \<Rightarrow> code" where
  "httpStatusError e =
     (case errors_As_StatusError e of
        Some n \<Rightarrow>
          (if n = 404 then CodeNotFound
           else if n = 401 then CodeUnauthenticated
           else if n = 403 then CodePermissionDenied
           else if n = 408 then CodeDeadlineExceeded
           else if n = 429 then CodeResourceExhausted
           else if n \<ge> 500 then CodeUnavailable
           else CodeInvalidArgument)
      | None \<Rightarrow> if errors_Is e DeadlineExceededE then CodeDeadlineExceeded else CodeInternal)"

definition canStatusError :: "fault \<Rightarrow> code" where
  "canStatusError e =
     (if errors_Is e (CanE CanErrUnknownMessage) \<or> errors_Is e (CanE CanErrUnknownSignal) \<or> errors_Is e (CanE CanErrNoFrameYet)
      then CodeNotFound
      else if errors_Is e (CanE CanErrMissingLabel) then CodeInvalidArgument
      else if errors_Is e (CanE CanErrNotOpen) \<or> errors_Is e (CanE CanErrLinuxOnly) then CodeUnavailable
      else if errors_Is e DeadlineExceededE then CodeDeadlineExceeded
      else CodeInternal)"

definition customStatusError :: "fault \<Rightarrow> code" where
  "customStatusError e =
     (if errors_Is e (AdapterE ErrWriteNotSupported) then CodeUnimplemented
      else if errors_Is e (AdapterE AdErrNotFound) then CodeNotFound
      else if errors_Is e (AdapterE AdErrInvalidArgument) then CodeInvalidArgument
      else if errors_Is e DeadlineExceededE then CodeDeadlineExceeded
      else CodeInternal)"

lemmas status_error_defs = capabilityRefStatusError_def mqttStatusError_def httpStatusError_def
  canStatusError_def customStatusError_def

section \<open>Protobuf messages\<close>

datatype proto_status = DEVICE_STATUS_UNKNOWN | DEVICE_STATUS_ONLINE | DEVICE_STATUS_OFFLINE

record proto_device =
  pd_Id :: string
  pd_Name :: string
  pd_Capability :: string
  pd_Transport :: string
  pd_Labels :: "(string, string) gomap option"
  pd_Status :: proto_status
  pd_LastSeen :: "time option"

text \<open>The oneof of a \<open>PropertyValue\<close> message; \<open>PvUnset\<close> is a nil interface.\<close>

datatype proto_value =
    PvUnset | PvBool bool | PvInt int64 | PvFloat float64 | PvString string | PvBytes "byte list option" | PvJson

fun toProtoDeviceStatus :: "DeviceStatus \<Rightarrow> proto_status" where
  "toProtoDeviceStatus DeviceStatusOnline = DEVICE_STATUS_ONLINE"
| "toProtoDeviceStatus DeviceStatusOffline = DEVICE_STATUS_OFFLINE"
| "toProtoDeviceStatus DeviceStatusUnknown = DEVICE_STATUS_UNKNOWN"

definition toProtoDevice :: "Device \<Rightarrow> proto_device" where
  "toProtoDevice d = \<lparr>pd_Id = dev_ID d, pd_Name = dev_Name d, pd_Capability = dev_Capability d,
     pd_Transport = dev_Transport d, pd_Labels = dev_Labels d, pd_Status = toProtoDeviceStatus (dev_Status d),
     pd_LastSeen = (if dev_LastSeen d = 0 then None else Some (dev_LastSeen d))\<rparr>"

text \<open>None: the value has no protobuf form and the mapping fails.\<close>

definition toProtoValue :: "PropertyValue \<Rightarrow> proto_value option" where
  "toProtoValue v =
     (case pv_Bool v of Some b \<Rightarrow> Some (PvBool b) | None \<Rightarrow>
      (case pv_Int v of Some i \<Rightarrow> Some (PvInt i) | None \<Rightarrow>
      (case pv_Float v of Some f \<Rightarrow> Some (PvFloat f) | None \<Rightarrow>
      (case pv_String v of Some s \<Rightarrow> Some (PvString s) | None \<Rightarrow>
      (case pv_Bytes v of Some b \<Rightarrow> Some (PvBytes (Some b)) | None \<Rightarrow>
      (case pv_JSON v of Some j \<Rightarrow> None | None \<Rightarrow> None))))))"

fun fromProtoValue :: "proto_value option \<Rightarrow> PropertyValue" where
  "fromProtoValue (Some (PvBool b)) = BoolValue b"
| "fromProtoValue (Some (PvInt i)) = IntValue i"
| "fromProtoValue (Some (PvFloat f)) = FloatValue f"
| "fromProtoValue (Some (PvString s)) = StringValue s"
| "fromProtoValue (Some (PvBytes b)) = zero_PropertyValue\<lparr>pv_Bytes := b\<rparr>"
| "fromProtoValue _ = zero_PropertyValue"

lemma toProto_fromProto_iff: "toProtoValue (fromProtoValue (Some p)) = Some p \<longleftrightarrow> p \<notin> {PvUnset, PvJson, PvBytes None}"
  by (cases p) (auto simp: toProtoValue_def value_ctor_defs split: option.splits)

section \<open>Properties\<close>

text \<open>HTTP errors become gRPC codes as documented: a device's 5xx answer is
  \<open>Unavailable\<close>, every other status of a device is a code of the caller's fault or its own, never
  \<open>Internal\<close>, and \<open>Internal\<close> is left for gateway-side failures that are no timeout.\<close>

theorem http_errors_mapped:
  "httpStatusError e =
     (case errors_As_StatusError e of
        Some n \<Rightarrow>
          (case map_of [(404, CodeNotFound), (401, CodeUnauthenticated), (403, CodePermissionDenied),
                        (408, CodeDeadlineExceeded), (429, CodeResourceExhausted)] n of
             Some c \<Rightarrow> c
           | None \<Rightarrow> if 500 \<le> n then CodeUnavailable else CodeInvalidArgument)
      | None \<Rightarrow> if errors_Is e DeadlineExceededE then CodeDeadlineExceeded else CodeInternal) \<and>
   (httpStatusError e = CodeInternal \<longleftrightarrow> errors_As_StatusError e = None \<and> \<not> errors_Is e DeadlineExceededE)"
  by (auto simp: httpStatusError_def split: option.splits)

text \<open>A property value survives the protobuf mapping: exactly the messages with a scalar (or non-nil
  bytes) come back unchanged from the service's type, and every value the service can send
  decodes to a value that is sent the same way again.\<close>

theorem proto_value_roundtrip:
  "(toProtoValue (fromProtoValue (Some p)) = Some p \<longleftrightarrow> p \<notin> {PvUnset, PvJson, PvBytes None}) \<and>
   (toProtoValue v = Some q \<longrightarrow> toProtoValue (fromProtoValue (Some q)) = Some q)"
proof -
  have "toProtoValue (fromProtoValue (Some p)) = Some p \<longleftrightarrow> p \<notin> {PvUnset, PvJson, PvBytes None}" for p
    by (rule toProto_fromProto_iff)
  moreover have "toProtoValue v = Some q \<Longrightarrow> q \<notin> {PvUnset, PvJson, PvBytes None}"
    by (auto simp: toProtoValue_def split: option.splits)
  ultimately show ?thesis by simp
qed

theorem proto_value_roundtrip_witness:
  "toProtoValue (fromProtoValue (Some (PvInt 5))) = Some (PvInt 5)"
proof -
  have "toProtoValue (IntValue 5) = Some (PvInt 5)" by (simp add: toProtoValue_def value_ctor_defs)
  then show ?thesis using proto_value_roundtrip [of "PvInt 5" "IntValue 5" "PvInt 5"] by blast
qed

lemma splitCapabilityRef_Some:
  "splitCapabilityRef ref = Some (n, v) \<Longrightarrow> ref = n @ ''@'' @ v \<and> n \<noteq> [] \<and> v \<noteq> []"
  by (auto simp: splitCapabilityRef_def split: prod.splits if_splits dest: Cut_True)

lemma splitCapabilityRef_join:
  "CHR ''@'' \<notin> set n \<Longrightarrow> n \<noteq> [] \<Longrightarrow> v \<noteq> [] \<Longrightarrow> splitCapabilityRef (n @ ''@'' @ v) = Some (n, v)"
  using Cut_first [of "CHR ''@''" n "[]" v] by (simp add: splitCapabilityRef_def)

end
