(* ===== verification/Device_Service.thy ===== *)
theory Device_Service
  imports Service_Mapping Property_Store Heartbeat Command_Router
begin

text \<open>
  The unary RPCs of the device service (\<open>internal/service/device_service.go\<close>). The service
  is configured with its collaborators (a registry, optional MQTT, HTTP and CAN adapters,
  custom transports, a presence monitor, a capability registry); a handler takes the
  caller's identity, the request's fields and the world, and returns the new world and a
  status code or a response. The adapters are records of operations over a shared transport
  state, so any adapter can stand behind them. A handler that can panic returns None when
  it does (only \<open>broker.Publish\<close> can). Spans and log lines are left out; the adapter error
  counter is kept as the list of its increments. \<open>now\<close> is the clock.
\<close>

section \<open>Configuration and world\<close>

text \<open>\<open>MQTTAdapter\<close>, \<open>HTTPAdapter\<close>, and the common shape of \<open>CANAdapter\<close> and \<open>adapter.Transport\<close>.\<close>

record 'x mqtt_ops =
  mq_Read :: "string \<Rightarrow> string \<Rightarrow> 'x \<Rightarrow> 'x \<times> (fault + PropertyValue)"
  mq_Write :: "string \<Rightarrow> string \<Rightarrow> PropertyValue \<Rightarrow> 'x \<Rightarrow> 'x \<times> fault option"
  mq_Watch :: "string \<Rightarrow> 'x \<Rightarrow> 'x \<times> fault option"

record 'x http_ops =
  ht_Read :: "Device \<Rightarrow> string \<Rightarrow> 'x \<Rightarrow> 'x \<times> (fault + PropertyValue)"
  ht_Watch :: "Device \<Rightarrow> 'x \<Rightarrow> 'x \<times> fault option"

record 'x transport_ops =
  tr_Name :: string
  tr_Read :: "Device \<Rightarrow> string \<Rightarrow> 'x \<Rightarrow> 'x \<times> (fault + PropertyValue)"
  tr_Write :: "Device \<Rightarrow> string \<Rightarrow> PropertyValue \<Rightarrow> 'x \<Rightarrow> 'x \<times> fault option"
  tr_Watch :: "Device \<Rightarrow> 'x \<Rightarrow> 'x \<times> fault option"

record ('s, 'x) DeviceService =
  sv_reg :: "'s registry_ops"
  sv_mqtt :: "'x mqtt_ops option"
  sv_http :: "'x http_ops option"
  sv_can :: "'x transport_ops option"
  sv_custom :: "(string, 'x transport_ops) gomap"
  sv_presence :: "Monitor option"
  sv_capability :: "(string \<Rightarrow> string \<Rightarrow> fault + Schema) option"

definition New_DeviceService :: "'s registry_ops \<Rightarrow> ('s, 'x) DeviceService" where
  "New_DeviceService reg = \<lparr>sv_reg = reg, sv_mqtt = None, sv_http = None, sv_can = None, sv_custom = [],
     sv_presence = None, sv_capability = None\<rparr>"

record ('s, 'x) ds_world =
  ds_hb :: "'s hb_world"                  \<comment> \<open>registry, broker, status callbacks\<close>
  ds_props :: MemoryPropertyStore
  ds_tr :: 'x
  ds_errors :: "string list"              \<comment> \<open>increments of \<open>metrics.AdapterErrors\<close>\<close>

abbreviation ds_reg :: "('s, 'x) ds_world \<Rightarrow> 's" where
  "ds_reg w \<equiv> hw_reg (ds_hb w)"

abbreviation ds_broker :: "('s, 'x) ds_world \<Rightarrow> Broker" where
  "ds_broker w \<equiv> hw_broker (ds_hb w)"

definition set_reg :: "'s \<Rightarrow> ('s, 'x) ds_world \<Rightarrow> ('s, 'x) ds_world" where
  "set_reg s w = w\<lparr>ds_hb := (ds_hb w)\<lparr>hw_reg := s\<rparr>\<rparr>"

definition adapter_failed :: "string \<Rightarrow> 'x \<Rightarrow> ('s, 'x) ds_world \<Rightarrow> ('s, 'x) ds_world" where
  "adapter_failed name x w = w\<lparr>ds_tr := x, ds_errors := ds_errors w @ [name]\<rparr>"

section \<open>Shared steps\<close>

definition lookup_device :: "('s, 'x) DeviceService \<Rightarrow> ('s, 'x) ds_world \<Rightarrow> string \<Rightarrow> code + Device" where
  "lookup_device sv w i =
     (case rg_Get (sv_reg sv) (ds_reg w) i of
        Inl e \<Rightarrow> Inl (if errors_Is e (RegE RegErrNotFound) then CodeNotFound else CodeInternal)
      | Inr d \<Rightarrow> Inr d)"

definition authorize :: "Identity option \<Rightarrow> Operation \<Rightarrow> Device \<Rightarrow> code option" where
  "authorize caller op d = (case caller of None \<Rightarrow> Some CodeUnauthenticated | Some i \<Rightarrow> Authorize i op (dev_ID d) (dev_ACL d))"

definition authorizeNoDevice :: "Identity option \<Rightarrow> Operation \<Rightarrow> code option" where
  "authorizeNoDevice caller op = (case caller of None \<Rightarrow> Some CodeUnauthenticated | Some i \<Rightarrow> Authorize i op [] [])"

text \<open>Look a device up and check the caller on it, as every per-device RPC starts.\<close>

definition checked_device ::
    "('s, 'x) DeviceService \<Rightarrow> Identity option \<Rightarrow> Operation \<Rightarrow> ('s, 'x) ds_world \<Rightarrow> string \<Rightarrow> code + Device" where
  "checked_device sv caller op w i =
     (case lookup_device sv w i of
        Inl c \<Rightarrow> Inl c
      | Inr d \<Rightarrow> (case authorize caller op d of Some c \<Rightarrow> Inl c | None \<Rightarrow> Inr d))"

section \<open>Device RPCs\<close>

definition GetDevice :: "('s, 'x) DeviceService \<Rightarrow> Identity option \<Rightarrow> string \<Rightarrow> ('s, 'x) ds_world \<Rightarrow> code + proto_device" where
  "GetDevice sv caller i w =
     (if i = [] then Inl CodeInvalidArgument
      else case checked_device sv caller OpGetDevice w i of
             Inl c \<Rightarrow> Inl c
           | Inr d \<Rightarrow> Inr (toProtoDevice d))"

definition ListDevices ::
    "('s, 'x) DeviceService \<Rightarrow> Identity option \<Rightarrow> string \<Rightarrow> string \<Rightarrow> ('s, 'x) ds_world \<Rightarrow> code + proto_device list" where
  "ListDevices sv caller capability transport w =
     (case authorizeNoDevice caller OpListDevices of
        Some c \<Rightarrow> Inl c
      | None \<Rightarrow>
          (case rg_List (sv_reg sv) (ds_reg w) (zero_ListFilter\<lparr>lf_Capability := capability, lf_Transport := transport\<rparr>) of
             Inl e \<Rightarrow> Inl CodeInternal
           | Inr ds \<Rightarrow> Inr (map toProtoDevice ds)))"

record register_request =
  rr_Id :: string
  rr_Name :: string
  rr_Capability :: string
  rr_Transport :: string
  rr_Labels :: "(string, string) gomap option"

definition request_device :: "register_request \<Rightarrow> Device" where
  "request_device req = zero_Device\<lparr>dev_ID := rr_Id req, dev_Name := rr_Name req, dev_Capability := rr_Capability req,
     dev_Transport := rr_Transport req, dev_Labels := rr_Labels req\<rparr>"

definition check_capability :: "('s, 'x) DeviceService \<Rightarrow> string \<Rightarrow> code option" where
  "check_capability sv ref =
     (case sv_capability sv of
        None \<Rightarrow> None
      | Some get \<Rightarrow>
          (case splitCapabilityRef ref of
             None \<Rightarrow> Some CodeNotFound
           | Some (name, version) \<Rightarrow>
               (case get name version of Inl e \<Rightarrow> Some (capabilityRefStatusError e) | Inr _ \<Rightarrow> None)))"

text \<open>
  Which adapter serves a device: the \<open>switch\<close> of \<open>RegisterDevice\<close> and \<open>GetProperty\<close>, and the
  chain of \<open>if\<close>s of \<open>SetProperty\<close>, which asks for HTTP first.
\<close>

datatype 'x route =
    ViaMqtt "'x mqtt_ops" | ViaHttp "'x http_ops" | ViaCan "'x transport_ops" | ViaCustom "'x transport_ops" | ViaStore

definition custom_route :: "('s, 'x) DeviceService \<Rightarrow> string \<Rightarrow> 'x route" where
  "custom_route sv t = (case gm_get (sv_custom sv) t of Some c \<Rightarrow> ViaCustom c | None \<Rightarrow> ViaStore)"

definition route_of :: "('s, 'x) DeviceService \<Rightarrow> string \<Rightarrow> 'x route" where
  "route_of sv t =
     (if t = ''mqtt'' \<and> sv_mqtt sv \<noteq> None then ViaMqtt (the (sv_mqtt sv))
      else if t = ''http'' \<and> sv_http sv \<noteq> None then ViaHttp (the (sv_http sv))
      else if t = ''can'' \<and> sv_can sv \<noteq> None then ViaCan (the (sv_can sv))
      else custom_route sv t)"

definition set_route_of :: "('s, 'x) DeviceService \<Rightarrow> string \<Rightarrow> 'x route" where
  "set_route_of sv t =
     (if t = ''http'' \<and> sv_http sv \<noteq> None then ViaHttp (the (sv_http sv))
      else if t = ''mqtt'' \<and> sv_mqtt sv \<noteq> None then ViaMqtt (the (sv_mqtt sv))
      else if t = ''can'' \<and> sv_can sv \<noteq> None then ViaCan (the (sv_can sv))
      else custom_route sv t)"

text \<open>The best-effort \<open>WatchDevice\<close> after a registration: its error is dropped.\<close>

definition watch_registered :: "('s, 'x) DeviceService \<Rightarrow> Device \<Rightarrow> 'x \<Rightarrow> 'x" where
  "watch_registered sv d x =
     (case route_of sv (dev_Transport d) of
        ViaMqtt m \<Rightarrow> fst (mq_Watch m (dev_ID d) x)
      | ViaHttp h \<Rightarrow> fst (ht_Watch h d x)
      | ViaCan c \<Rightarrow> fst (tr_Watch c d x)
      | ViaCustom t \<Rightarrow> fst (tr_Watch t d x)
      | ViaStore \<Rightarrow> x)"

text \<open>Marking a registered device online, and reading it again when that succeeded.\<close>

definition touch_registered ::
    "('s, 'x) DeviceService \<Rightarrow> time \<Rightarrow> Device \<Rightarrow> ('s, 'x) ds_world \<Rightarrow> (('s, 'x) ds_world \<times> Device) option" where
  "touch_registered sv now d w =
     (case sv_presence sv of
        None \<Rightarrow> Some (w, d)
      | Some m \<Rightarrow>
          (case hb_Touch (sv_reg sv) m now (dev_ID d) (ds_hb w) of
             None \<Rightarrow> None
           | Some (h, Some e) \<Rightarrow> Some (w\<lparr>ds_hb := h\<rparr>, d)
           | Some (h, None) \<Rightarrow>
               Some (w\<lparr>ds_hb := h\<rparr>, case rg_Get (sv_reg sv) (hw_reg h) (dev_ID d) of Inl e \<Rightarrow> d | Inr d' \<Rightarrow> d')))"

definition RegisterDevice ::
    "('s, 'x) DeviceService \<Rightarrow> time \<Rightarrow> Identity option \<Rightarrow> register_request \<Rightarrow> ('s, 'x) ds_world
       \<Rightarrow> (('s, 'x) ds_world \<times> (code + proto_device)) option" where
  "RegisterDevice sv now caller req w =
     (if rr_Name req = [] then Some (w, Inl CodeInvalidArgument)
      else if rr_Capability req = [] then Some (w, Inl CodeInvalidArgument)
      else if rr_Transport req = [] then Some (w, Inl CodeInvalidArgument)
      else case authorizeNoDevice caller OpRegisterDevice of
        Some c \<Rightarrow> Some (w, Inl c)
      | None \<Rightarrow>
          (case check_capability sv (rr_Capability req) of
             Some c \<Rightarrow> Some (w, Inl c)
           | None \<Rightarrow>
               (case rg_Register (sv_reg sv) (ds_reg w) (request_device req) of
                  (s', Inl e) \<Rightarrow>
                    Some (set_reg s' w, Inl (if errors_Is e (RegE RegErrAlreadyExists) then CodeAlreadyExists else CodeInternal))
                | (s', Inr d) \<Rightarrow>
                    (let w1 = set_reg s' w; w2 = w1\<lparr>ds_tr := watch_registered sv d (ds_tr w1)\<rparr> in
                     map_option (\<lambda>(w3, d'). (w3, Inr (toProtoDevice d'))) (touch_registered sv now d w2)))))"

definition DeleteDevice ::
    "('s, 'x) DeviceService \<Rightarrow> Identity option \<Rightarrow> string \<Rightarrow> ('s, 'x) ds_world \<Rightarrow> ('s, 'x) ds_world \<times> (code + unit)" where
  "DeleteDevice sv caller i w =
     (if i = [] then (w, Inl CodeInvalidArgument)
      else case caller of
        None \<Rightarrow> (w, Inl CodeUnauthenticated)
      | Some who \<Rightarrow>
          (case Authorize who OpDeleteDevice i [] of
             Some c \<Rightarrow> (w, Inl c)
           | None \<Rightarrow>
               (case rg_Delete (sv_reg sv) (ds_reg w) i of
                  (s', Some e) \<Rightarrow> (set_reg s' w, Inl (if errors_Is e (RegE RegErrNotFound) then CodeNotFound else CodeInternal))
                | (s', None) \<Rightarrow> (set_reg s' w, Inr ()))))"

section \<open>Property RPCs\<close>

text \<open>The transport part of \<open>GetProperty\<close>: the new transport state and the value, or the metric label and code of a failure.\<close>

definition read_via ::
    "('s, 'x) DeviceService \<Rightarrow> Device \<Rightarrow> string \<Rightarrow> string \<Rightarrow> ('s, 'x) ds_world \<Rightarrow> ('s, 'x) ds_world \<times> (code + PropertyValue)" where
  "read_via sv d i path w =
     (let outcome = (\<lambda>(x, r) name status. case r of
            Inl e \<Rightarrow> (adapter_failed name x w, Inl (status e))
          | Inr v \<Rightarrow> (w\<lparr>ds_tr := x\<rparr>, Inr v))
      in case route_of sv (dev_Transport d) of
        ViaMqtt m \<Rightarrow> outcome (mq_Read m i path (ds_tr w)) ''mqtt_adapter'' mqttStatusError
      | ViaHttp h \<Rightarrow> outcome (ht_Read h d path (ds_tr w)) ''http_adapter'' httpStatusError
      | ViaCan c \<Rightarrow> outcome (tr_Read c d path (ds_tr w)) ''can_adapter'' canStatusError
      | ViaCustom t \<Rightarrow> outcome (tr_Read t d path (ds_tr w)) (tr_Name t) customStatusError
      | ViaStore \<Rightarrow>
          (case mps_Get (ds_props w) i path of Inl e \<Rightarrow> (w, Inl CodeNotFound) | Inr v \<Rightarrow> (w, Inr v)))"

definition GetProperty ::
    "('s, 'x) DeviceService \<Rightarrow> Identity option \<Rightarrow> string \<Rightarrow> string \<Rightarrow> ('s, 'x) ds_world \<Rightarrow> ('s, 'x) ds_world \<times> (code + proto_value)" where
  "GetProperty sv caller i path w =
     (if i = [] then (w, Inl CodeInvalidArgument)
      else if path = [] then (w, Inl CodeInvalidArgument)
      else case checked_device sv caller OpGetProperty w i of
        Inl c \<Rightarrow> (w, Inl c)
      | Inr d \<Rightarrow>
          (case read_via sv d i path w of
             (w', Inl c) \<Rightarrow> (w', Inl c)
           | (w', Inr v) \<Rightarrow> (w', case toProtoValue v of None \<Rightarrow> Inl CodeInternal | Some p \<Rightarrow> Inr p)))"

definition check_value :: "('s, 'x) DeviceService \<Rightarrow> string \<Rightarrow> string \<Rightarrow> PropertyValue \<Rightarrow> code option" where
  "check_value sv ref path v =
     (case sv_capability sv of
        None \<Rightarrow> None
      | Some get \<Rightarrow>
          (case splitCapabilityRef ref of
             None \<Rightarrow> None
           | Some (name, version) \<Rightarrow>
               (case get name version of
                  Inl e \<Rightarrow> Some (capabilityRefStatusError e)
                | Inr schema \<Rightarrow> map_option capabilityRefStatusError (ValidateProperty schema path v))))"

definition mark_online :: "('s, 'x) DeviceService \<Rightarrow> time \<Rightarrow> string \<Rightarrow> ('s, 'x) ds_world \<Rightarrow> ('s, 'x) ds_world" where
  "mark_online sv now i w = set_reg (fst (rg_UpdateStatus (sv_reg sv) (ds_reg w) i DeviceStatusOnline now)) w"

definition publishAndRespond ::
    "('s, 'x) DeviceService \<Rightarrow> time \<Rightarrow> string \<Rightarrow> string \<Rightarrow> PropertyValue \<Rightarrow> ('s, 'x) ds_world
       \<Rightarrow> (('s, 'x) ds_world \<times> (code + proto_value)) option" where
  "publishAndRespond sv now i path v w =
     (let w1 = mark_online sv now i w in
      case br_Publish (ds_broker w1) (property_event i path v now) of
        None \<Rightarrow> None
      | Some b \<Rightarrow> Some (w1\<lparr>ds_hb := (ds_hb w1)\<lparr>hw_broker := b\<rparr>\<rparr>,
                        case toProtoValue v of None \<Rightarrow> Inl CodeInternal | Some p \<Rightarrow> Inr p))"

text \<open>
  After an MQTT or CAN write the response carries the value's protobuf form, or no value when it has none
  (the mapping error is dropped); \<open>PvUnset\<close> stands for the missing message.
\<close>

definition respond_written ::
    "('s, 'x) DeviceService \<Rightarrow> time \<Rightarrow> string \<Rightarrow> PropertyValue \<Rightarrow> ('s, 'x) ds_world \<Rightarrow> ('s, 'x) ds_world \<times> (code + proto_value)" where
  "respond_written sv now i v w =
     (mark_online sv now i w, Inr (case toProtoValue v of None \<Rightarrow> PvUnset | Some p \<Rightarrow> p))"

definition write_via ::
    "('s, 'x) DeviceService \<Rightarrow> time \<Rightarrow> Device \<Rightarrow> string \<Rightarrow> string \<Rightarrow> PropertyValue \<Rightarrow> ('s, 'x) ds_world
       \<Rightarrow> (('s, 'x) ds_world \<times> (code + proto_value)) option" where
  "write_via sv now d i path v w =
     (case set_route_of sv (dev_Transport d) of
        ViaHttp h \<Rightarrow> Some (w, Inl CodeUnimplemented)
      | ViaMqtt m \<Rightarrow>
          (case mq_Write m i path v (ds_tr w) of
             (x, Some e) \<Rightarrow> Some (adapter_failed ''mqtt_adapter'' x w, Inl (mqttStatusError e))
           | (x, None) \<Rightarrow> Some (respond_written sv now i v (w\<lparr>ds_tr := x\<rparr>)))
      | ViaCan c \<Rightarrow>
          (case tr_Write c d path v (ds_tr w) of
             (x, Some e) \<Rightarrow> Some (adapter_failed ''can_adapter'' x w, Inl (canStatusError e))
           | (x, None) \<Rightarrow> Some (respond_written sv now i v (w\<lparr>ds_tr := x\<rparr>)))
      | ViaCustom t \<Rightarrow>
          (case tr_Write t d path v (ds_tr w) of
             (x, Some e) \<Rightarrow> Some (adapter_failed (tr_Name t) x w, Inl (customStatusError e))
           | (x, None) \<Rightarrow> publishAndRespond sv now i path v (w\<lparr>ds_tr := x\<rparr>))
      | ViaStore \<Rightarrow> publishAndRespond sv now i path v (w\<lparr>ds_props := mps_Set (ds_props w) i path v\<rparr>))"

definition SetProperty ::
    "('s, 'x) DeviceService \<Rightarrow> time \<Rightarrow> Identity option \<Rightarrow> string \<Rightarrow> string \<Rightarrow> proto_value option \<Rightarrow> ('s, 'x) ds_world
       \<Rightarrow> (('s, 'x) ds_world \<times> (code + proto_value)) option" where
  "SetProperty sv now caller i path pv w =
     (if i = [] then Some (w, Inl CodeInvalidArgument)
      else if path = [] then Some (w, Inl CodeInvalidArgument)
      else case checked_device sv caller OpSetProperty w i of
        Inl c \<Rightarrow> Some (w, Inl c)
      | Inr d \<Rightarrow>
          (let v = fromProtoValue pv in
           case check_value sv (dev_Capability d) path v of
             Some c \<Rightarrow> Some (w, Inl c)
           | None \<Rightarrow> write_via sv now d i path v w))"

section \<open>Commands\<close>

definition commandTimeout :: duration where
  "commandTimeout = 10 * second"

text \<open>
  \<open>dispatch\<close> is what \<open>CommandRouter.Dispatch\<close> returns for this device and command within the timeout
  (its behaviour is the subject of \<open>Command_Router\<close>), \<open>cid\<close> the fresh command ID;
  \<open>newValue\<close> is \<open>structpb.NewValue\<close>, which may refuse a result.
\<close>

definition SendCommand ::
    "('s, 'x) DeviceService \<Rightarrow> (string \<Rightarrow> Command \<Rightarrow> fault + CommandResult) \<Rightarrow> (pbval \<Rightarrow> pbval option) \<Rightarrow> string
       \<Rightarrow> Identity option \<Rightarrow> string \<Rightarrow> string \<Rightarrow> (string \<times> pbval) list \<Rightarrow> ('s, 'x) ds_world \<Rightarrow> code + pbval" where
  "SendCommand sv dispatch newValue cid caller i command params w =
     (if i = [] then Inl CodeInvalidArgument
      else if command = [] then Inl CodeInvalidArgument
      else case checked_device sv caller OpSendCommand w i of
        Inl c \<Rightarrow> Inl c
      | Inr d \<Rightarrow>
          (case dispatch i \<lparr>cmd_ID = cid, cmd_Name = command, cmd_Params = params\<rparr> of
             Inl e \<Rightarrow> Inl (if errors_Is e DeviceNotConnectedE then CodeUnimplemented
                           else if errors_Is e DeadlineExceededE then CodeDeadlineExceeded
                           else CodeInternal)
           | Inr res \<Rightarrow>
               if \<not> res_Success res then Inl CodeFailedPrecondition
               else case newValue (res_Result res) of None \<Rightarrow> Inl CodeInternal | Some r \<Rightarrow> Inr r))"

section \<open>Streaming RPCs\<close>

record sub_response =
  sr_DeviceId :: string
  sr_PropertyPath :: string
  sr_Value :: "proto_value option"
  sr_Status :: proto_status
  sr_Timestamp :: time

text \<open>What \<open>Subscribe\<close> sends for an update, None when it skips it.\<close>

definition sub_response_of :: "string \<Rightarrow> PropertyUpdate \<Rightarrow> sub_response option" where
  "sub_response_of path u =
     (case upd_Status u of
        Some st \<Rightarrow> Some \<lparr>sr_DeviceId = upd_DeviceID u, sr_PropertyPath = [], sr_Value = None,
                     sr_Status = toProtoDeviceStatus st, sr_Timestamp = upd_Timestamp u\<rparr>
      | None \<Rightarrow>
          if path \<noteq> [] \<and> upd_PropertyPath u \<noteq> path then None
          else map_option (\<lambda>p. \<lparr>sr_DeviceId = upd_DeviceID u, sr_PropertyPath = upd_PropertyPath u, sr_Value = Some p,
                     sr_Status = DEVICE_STATUS_UNKNOWN, sr_Timestamp = upd_Timestamp u\<rparr>) (toProtoValue (upd_Value u)))"

text \<open>What the loop of \<open>Subscribe\<close> wakes up for, in order; \<open>send\<close> is the result of \<open>stream.Send\<close>.\<close>

datatype sub_event = SubDone | SubClosed | SubUpdate PropertyUpdate

fun subscribe_loop :: "string \<Rightarrow> (sub_response \<Rightarrow> code option) \<Rightarrow> sub_event list \<Rightarrow> sub_response list \<times> code option" where
  "subscribe_loop path send [] = ([], None)"
| "subscribe_loop path send (SubDone # es) = ([], None)"
| "subscribe_loop path send (SubClosed # es) = ([], None)"
| "subscribe_loop path send (SubUpdate u # es) =
     (case sub_response_of path u of
        None \<Rightarrow> subscribe_loop path send es
      | Some r \<Rightarrow>
          (case send r of
             Some c \<Rightarrow> ([], Some c)
           | None \<Rightarrow> (case subscribe_loop path send es of (rs, c) \<Rightarrow> (r # rs, c))))"

text \<open>The checks of \<open>Subscribe\<close> and its subscription: the channel to read, or the status code.\<close>

definition Subscribe_open ::
    "('s, 'x) DeviceService \<Rightarrow> Identity option \<Rightarrow> string \<Rightarrow> ('s, 'x) ds_world \<Rightarrow> ('s, 'x) ds_world \<times> (code + nat)" where
  "Subscribe_open sv caller i w =
     (if i = [] then (w, Inl CodeInvalidArgument)
      else case checked_device sv caller OpSubscribe w i of
        Inl c \<Rightarrow> (w, Inl c)
      | Inr d \<Rightarrow>
          (case br_Subscribe (ds_broker w) i of (ch, b) \<Rightarrow> (w\<lparr>ds_hb := (ds_hb w)\<lparr>hw_broker := b\<rparr>\<rparr>, Inr ch)))"

definition cr_Submit :: "CommandRouter \<Rightarrow> CommandResult \<Rightarrow> CommandRouter option" where
  "cr_Submit r res = (case cr_submit_take r res of (r', None) \<Rightarrow> Some r' | (r', Some ch) \<Rightarrow> cr_submit_send r' ch res)"

text \<open>
  What a command stream wakes up for: the context ends, the receiving goroutine reads a result or an
  error (end of file or another), a heartbeat tick, a command to forward, its channel closed.
\<close>

datatype sc_event = ScDone | ScEOF | ScRecvErr code | ScResult CommandResult | ScTick time | ScCommand Command | ScClosed

definition sc_touch :: "('s, 'x) DeviceService \<Rightarrow> time \<Rightarrow> string \<Rightarrow> ('s, 'x) ds_world \<Rightarrow> ('s, 'x) ds_world option" where
  "sc_touch sv now i w =
     (case sv_presence sv of
        None \<Rightarrow> Some w
      | Some m \<Rightarrow> map_option (\<lambda>(h, e). w\<lparr>ds_hb := h\<rparr>) (hb_Touch (sv_reg sv) m now i (ds_hb w)))"

definition encode_failed :: "Command \<Rightarrow> CommandResult" where
  "encode_failed cmd = \<lparr>res_ID = cmd_ID cmd, res_Success = False, res_Error = ''encode params'', res_Result = PNull\<rparr>"

text \<open>\<open>enc\<close> tells whether \<open>structpb.NewStruct\<close> accepts the parameters; the commands sent are returned in order.\<close>

fun stream_loop ::
    "('s, 'x) DeviceService \<Rightarrow> ((string \<times> pbval) list \<Rightarrow> bool) \<Rightarrow> (Command \<Rightarrow> code option) \<Rightarrow> string \<Rightarrow> sc_event list
       \<Rightarrow> ('s, 'x) ds_world \<Rightarrow> CommandRouter \<Rightarrow> (('s, 'x) ds_world \<times> CommandRouter \<times> Command list \<times> code option) option" where
  "stream_loop sv enc send i [] w r = Some (w, r, [], None)"
| "stream_loop sv enc send i (ScDone # es) w r = Some (w, r, [], None)"
| "stream_loop sv enc send i (ScEOF # es) w r = Some (w, r, [], None)"
| "stream_loop sv enc send i (ScRecvErr c # es) w r = Some (w, r, [], Some c)"
| "stream_loop sv enc send i (ScClosed # es) w r = Some (w, r, [], None)"
| "stream_loop sv enc send i (ScResult res # es) w r =
     (case cr_Submit r res of None \<Rightarrow> None | Some r' \<Rightarrow> stream_loop sv enc send i es w r')"
| "stream_loop sv enc send i (ScTick t # es) w r =
     (case sc_touch sv t i w of None \<Rightarrow> None | Some w' \<Rightarrow> stream_loop sv enc send i es w' r)"
| "stream_loop sv enc send i (ScCommand cmd # es) w r =
     (if \<not> enc (cmd_Params cmd) then
        (case cr_Submit r (encode_failed cmd) of None \<Rightarrow> None | Some r' \<Rightarrow> stream_loop sv enc send i es w r')
      else case send cmd of
        Some c \<Rightarrow> Some (w, r, [], Some c)
      | None \<Rightarrow> map_option (\<lambda>(w', r', cmds, c). (w', r', cmd # cmds, c)) (stream_loop sv enc send i es w r))"

text \<open>The heartbeat ticker runs only with a presence monitor whose interval is positive.\<close>

definition has_ticker :: "('s, 'x) DeviceService \<Rightarrow> bool" where
  "has_ticker sv \<longleftrightarrow> (case sv_presence sv of None \<Rightarrow> False | Some m \<Rightarrow> 0 < mon_interval m)"

fun is_tick :: "sc_event \<Rightarrow> bool" where
  "is_tick (ScTick t) = True"
| "is_tick _ = False"

definition StreamCommands ::
    "('s, 'x) DeviceService \<Rightarrow> ((string \<times> pbval) list \<Rightarrow> bool) \<Rightarrow> (Command \<Rightarrow> code option) \<Rightarrow> time \<Rightarrow> Identity option \<Rightarrow> string list
       \<Rightarrow> sc_event list \<Rightarrow> ('s, 'x) ds_world \<Rightarrow> CommandRouter
       \<Rightarrow> (('s, 'x) ds_world \<times> CommandRouter \<times> Command list \<times> code option) option" where
  "StreamCommands sv enc send now caller deviceIDs es w r =
     (case deviceIDs of
        [] \<Rightarrow> Some (w, r, [], Some CodeInvalidArgument)
      | i # _ \<Rightarrow>
          if i = [] then Some (w, r, [], Some CodeInvalidArgument)
          else case checked_device sv caller OpStreamCommands w i of
            Inl c \<Rightarrow> Some (w, r, [], Some c)
          | Inr d \<Rightarrow>
              (case cr_Register r i of (ch, r1) \<Rightarrow>
               (case sc_touch sv now i w of
                  None \<Rightarrow> None
                | Some w1 \<Rightarrow>
                    (case stream_loop sv enc send i (if has_ticker sv then es else filter (\<lambda>e. \<not> is_tick e) es) w1 r1 of
                       None \<Rightarrow> None
                     | Some (w2, r2, cmds, c) \<Rightarrow>
                         map_option (\<lambda>r3. (w2, r3, cmds, c)) (cr_unregister_close (cr_unregister_drop r2 i ch) ch)))))"

section \<open>Complete mediation\<close>

datatype rpc =
    RpcGetDevice string | RpcListDevices string string | RpcRegisterDevice register_request | RpcDeleteDevice string
  | RpcGetProperty string string | RpcSetProperty string string "proto_value option" | RpcSubscribe string

definition ok_code :: "code + 'a \<Rightarrow> code option" where
  "ok_code r = (case r of Inl c \<Rightarrow> Some c | Inr _ \<Rightarrow> None)"

text \<open>One RPC: the new world and its status, None for OK.\<close>

fun serve ::
    "('s, 'x) DeviceService \<Rightarrow> time \<Rightarrow> Identity option \<Rightarrow> rpc \<Rightarrow> ('s, 'x) ds_world \<Rightarrow> (('s, 'x) ds_world \<times> code option) option" where
  "serve sv now caller (RpcGetDevice i) w = Some (w, ok_code (GetDevice sv caller i w))"
| "serve sv now caller (RpcListDevices c t) w = Some (w, ok_code (ListDevices sv caller c t w))"
| "serve sv now caller (RpcRegisterDevice req) w = map_option (\<lambda>(w', r). (w', ok_code r)) (RegisterDevice sv now caller req w)"
| "serve sv now caller (RpcDeleteDevice i) w = Some (map_prod id ok_code (DeleteDevice sv caller i w))"
| "serve sv now caller (RpcGetProperty i p) w = Some (map_prod id ok_code (GetProperty sv caller i p w))"
| "serve sv now caller (RpcSetProperty i p v) w = map_option (\<lambda>(w', r). (w', ok_code r)) (SetProperty sv now caller i p v w)"
| "serve sv now caller (RpcSubscribe i) w = Some (map_prod id ok_code (Subscribe_open sv caller i w))"

text \<open>Who may do what: the operation an RPC asks for, on the device it names and with that device's ACL.\<close>

definition may :: "Identity option \<Rightarrow> Operation \<Rightarrow> string \<Rightarrow> ACLEntry list \<Rightarrow> bool" where
  "may caller op i acl \<longleftrightarrow> (\<exists>who. caller = Some who \<and> Authorize who op i acl = None)"

definition may_on :: "('s, 'x) DeviceService \<Rightarrow> ('s, 'x) ds_world \<Rightarrow> Identity option \<Rightarrow> Operation \<Rightarrow> string \<Rightarrow> bool" where
  "may_on sv w caller op i \<longleftrightarrow> (\<exists>d. rg_Get (sv_reg sv) (ds_reg w) i = Inr d \<and> may caller op (dev_ID d) (dev_ACL d))"

fun permitted :: "('s, 'x) DeviceService \<Rightarrow> ('s, 'x) ds_world \<Rightarrow> Identity option \<Rightarrow> rpc \<Rightarrow> bool" where
  "permitted sv w caller (RpcGetDevice i) = may_on sv w caller OpGetDevice i"
| "permitted sv w caller (RpcListDevices c t) = may caller OpListDevices [] []"
| "permitted sv w caller (RpcRegisterDevice req) = may caller OpRegisterDevice [] []"
| "permitted sv w caller (RpcDeleteDevice i) = may caller OpDeleteDevice i []"
| "permitted sv w caller (RpcGetProperty i p) = may_on sv w caller OpGetProperty i"
| "permitted sv w caller (RpcSetProperty i p v) = may_on sv w caller OpSetProperty i"
| "permitted sv w caller (RpcSubscribe i) = may_on sv w caller OpSubscribe i"

lemma checked_device_Inr:
  "checked_device sv caller op w i = Inr d \<longleftrightarrow>
     rg_Get (sv_reg sv) (ds_reg w) i = Inr d \<and> may caller op (dev_ID d) (dev_ACL d)"
  by (auto simp: checked_device_def lookup_device_def authorize_def may_def split: sum.splits option.splits)

lemma not_may_on: "\<not> may_on sv w caller op i \<Longrightarrow> \<exists>c. checked_device sv caller op w i = Inl c"
  by (metis checked_device_Inr may_on_def sum.exhaust)

lemma not_may_no_device: "\<not> may caller op [] [] \<Longrightarrow> \<exists>c. authorizeNoDevice caller op = Some c"
  by (auto simp: authorizeNoDevice_def may_def split: option.splits)

lemma serve_refused:
  assumes "\<not> permitted sv w caller req"
  shows "\<exists>c. serve sv now caller req w = Some (w, Some c)"
proof (cases req)
  case (RpcRegisterDevice r)
  with assms not_may_no_device [of caller OpRegisterDevice] show ?thesis
    by (auto simp: RegisterDevice_def ok_code_def)
next
  case (RpcDeleteDevice i)
  with assms show ?thesis
    by (auto simp: DeleteDevice_def may_def ok_code_def split: option.splits)
next
  case (RpcListDevices c t)
  with assms not_may_no_device [of caller OpListDevices] show ?thesis
    by (auto simp: ListDevices_def ok_code_def)
qed (use assms not_may_on in \<open>fastforce simp: GetDevice_def GetProperty_def SetProperty_def Subscribe_open_def ok_code_def\<close>)+

text \<open>C1. Complete mediation. None of the nine RPCs of the device service succeeds, changes the registry, the property store, the
  broker, the command router or an adapter, or forwards a command, unless the caller is authenticated and
  authorized for its operation: on the device it names and under that device's ACL, or by the role table alone
  where there is no device yet (registration), none is named (listing) or the ACL is not consulted (deletion).\<close>

theorem rpc_mediation:
  "(\<not> permitted sv w caller req \<longrightarrow> (\<exists>c. serve sv now caller req w = Some (w, Some c))) \<and>
   (\<not> may_on sv w caller OpSendCommand i \<longrightarrow> (\<exists>c. \<forall>dispatch. SendCommand sv dispatch newValue cid caller i command params w = Inl c)) \<and>
   (\<not> may_on sv w caller OpStreamCommands i \<longrightarrow> (\<exists>c. StreamCommands sv enc send now caller (i # is) es w r = Some (w, r, [], Some c)))"
proof (intro conjI impI)
  show "\<not> permitted sv w caller req \<Longrightarrow> \<exists>c. serve sv now caller req w = Some (w, Some c)"
    by (rule serve_refused)
  show "\<exists>c. \<forall>dispatch. SendCommand sv dispatch newValue cid caller i command params w = Inl c" if "\<not> may_on sv w caller OpSendCommand i"
    using not_may_on [OF that] by (cases "i = [] \<or> command = []") (auto simp: SendCommand_def)
  show "\<exists>c. StreamCommands sv enc send now caller (i # is) es w r = Some (w, r, [], Some c)" if "\<not> may_on sv w caller OpStreamCommands i"
    using not_may_on [OF that] by (auto simp: StreamCommands_def)
qed

definition demo_sv :: "(MemoryRegistry, unit) DeviceService" where
  "demo_sv = (New_DeviceService mr_ops)\<lparr>sv_presence := Some (NewMonitor 0 0 True)\<rparr>"

definition demo_world :: "(MemoryRegistry, unit) ds_world" where
  "demo_world = \<lparr>ds_hb = \<lparr>hw_reg = fst (mr_Register NewMemoryRegistry (zero_Device\<lparr>dev_ID := ''lamp'', dev_Transport := ''grpc''\<rparr>)),
     hw_broker = NewBroker, hw_calls = []\<rparr>, ds_props = NewMemoryPropertyStore, ds_tr = (), ds_errors = []\<rparr>"

definition demo_admin :: Identity where
  "demo_admin = \<lparr>id_Subject = ''root'', id_Role = RoleAdmin, id_DeviceID = []\<rparr>"

theorem rpc_mediation_witness:
  "\<exists>c. serve demo_sv 5 (Some (demo_admin\<lparr>id_Role := RoleReader\<rparr>)) (RpcDeleteDevice ''lamp'') demo_world = Some (demo_world, Some c)"
  using rpc_mediation [of demo_sv demo_world "Some (demo_admin\<lparr>id_Role := RoleReader\<rparr>)" "RpcDeleteDevice ''lamp''"]
  by (simp add: may_def demo_admin_def rbacAllows_def row_def role_defs)

section \<open>Invariant\<close>

definition ds_ok :: "('s \<Rightarrow> bool) \<Rightarrow> ('s, 'x) ds_world \<Rightarrow> bool" where
  "ds_ok I w \<longleftrightarrow> I (ds_reg w) \<and> br_inv (ds_broker w)"

lemma ds_ok_upd [simp]:
  "ds_ok I (w\<lparr>ds_tr := x\<rparr>) = ds_ok I w" "ds_ok I (w\<lparr>ds_props := ps\<rparr>) = ds_ok I w" "ds_ok I (adapter_failed n x w) = ds_ok I w"
  by (simp_all add: ds_ok_def adapter_failed_def)

lemma set_reg_fields [simp]:
  "ds_reg (set_reg s w) = s" "ds_broker (set_reg s w) = ds_broker w" "ds_props (set_reg s w) = ds_props w"
  "ds_tr (set_reg s w) = ds_tr w" "hw_calls (ds_hb (set_reg s w)) = hw_calls (ds_hb w)" "ds_errors (set_reg s w) = ds_errors w"
  by (simp_all add: set_reg_def)

context registry_contract
begin

lemma touch_total:
  assumes "inv (hw_reg h)" and "br_inv (hw_broker h)"
  shows "\<exists>h' e. hb_Touch R m now i h = Some (h', e) \<and> inv (hw_reg h') \<and> br_inv (hw_broker h')"
proof (cases "devs (hw_reg h) i")
  case None
  with assms show ?thesis by (simp add: hb_Touch_def get_law)
next
  case (Some d)
  obtain s' e where u: "rg_UpdateStatus R (hw_reg h) i DeviceStatusOnline now = (s', e)" by fastforce
  have s': "inv s'" using status_law [OF assms(1) u] by simp
  obtain b where "br_inv b" and "hb_emit m i DeviceStatusOnline now (h\<lparr>hw_reg := s'\<rparr>) = Some (h\<lparr>hw_reg := s', hw_broker := b,
       hw_calls := hw_calls h @ (if mon_notify m then [(i, True)] else [])\<rparr>)"
    using assms(2) by (auto intro: hb_emit_ok [of "h\<lparr>hw_reg := s'\<rparr>" i DeviceStatusOnline now m])
  with Some u s' assms show ?thesis
    by (cases e) (simp_all add: hb_Touch_def get_law)
qed

lemma mark_online_ok: "sv_reg sv = R \<Longrightarrow> ds_ok inv w \<Longrightarrow> ds_ok inv (mark_online sv now i w)"
  using status_law [of "ds_reg w" i DeviceStatusOnline now] by (simp add: ds_ok_def mark_online_def) (metis prod.collapse)

lemma publishAndRespond_ok:
  assumes "sv_reg sv = R" and "ds_ok inv w"
  shows "\<exists>w' r. publishAndRespond sv now i path v w = Some (w', r) \<and> ds_ok inv w'"
proof -
  have w1: "ds_ok inv (mark_online sv now i w)" by (rule mark_online_ok [OF assms])
  then obtain b where "br_Publish (ds_broker (mark_online sv now i w)) (property_event i path v now) = Some b" "br_inv b"
    using br_Publish_eq br_inv_Publish unfolding ds_ok_def by blast
  with w1 show ?thesis by (simp add: publishAndRespond_def Let_def ds_ok_def)
qed

lemma write_via_ok:
  assumes "sv_reg sv = R" and "ds_ok inv w"
  shows "\<exists>w' r. write_via sv now d i path v w = Some (w', r) \<and> ds_ok inv w'"
proof -
  have "\<exists>w' r. respond_written sv now i v (w\<lparr>ds_tr := x\<rparr>) = (w', r) \<and> ds_ok inv w'" for x
    using mark_online_ok [OF assms(1), of "w\<lparr>ds_tr := x\<rparr>"] assms(2) by (simp add: respond_written_def)
  moreover have "\<exists>w' r. publishAndRespond sv now i path v (w\<lparr>ds_tr := x\<rparr>) = Some (w', r) \<and> ds_ok inv w'" for x
    using publishAndRespond_ok [OF assms(1), of "w\<lparr>ds_tr := x\<rparr>"] assms(2) by simp
  moreover have "\<exists>w' r. publishAndRespond sv now i path v (w\<lparr>ds_props := ps\<rparr>) = Some (w', r) \<and> ds_ok inv w'" for ps
    using publishAndRespond_ok [OF assms(1), of "w\<lparr>ds_props := ps\<rparr>"] assms(2) by simp
  ultimately show ?thesis
    using assms(2) unfolding write_via_def
    by (auto split: route.split prod.split option.split simp: prod.expand)
qed

lemma touch_registered_ok:
  assumes "sv_reg sv = R" and "ds_ok inv w"
  shows "\<exists>w' d'. touch_registered sv now d w = Some (w', d') \<and> ds_ok inv w'"
proof (cases "sv_presence sv")
  case None
  with assms show ?thesis by (simp add: touch_registered_def)
next
  case (Some m)
  with assms touch_total [of "ds_hb w" m now "dev_ID d"] show ?thesis
    by (auto simp: touch_registered_def ds_ok_def split: option.splits)
qed

lemma RegisterDevice_ok:
  assumes "sv_reg sv = R" and "ds_ok inv w" and "wf_labels (request_device req)"
  shows "\<exists>w' r. RegisterDevice sv now caller req w = Some (w', r) \<and> ds_ok inv w'"
proof -
  obtain s' r where reg: "rg_Register R (ds_reg w) (request_device req) = (s', r)" by fastforce
  have "inv s'"
    using register_law [OF _ assms(3) _ reg] register_auto [OF _ assms(3) _ reg] assms(2) by (cases "dev_ID (request_device req) = []") (auto simp: ds_ok_def)
  then have s': "ds_ok inv ((set_reg s' w)\<lparr>ds_tr := x\<rparr>)" "ds_ok inv (set_reg s' w)" for x
    using assms(2) by (simp_all add: ds_ok_def)
  show ?thesis
  proof (cases r)
    case (Inl e)
    with reg assms(1,2) s'(2) show ?thesis
      by (auto simp: RegisterDevice_def split: option.split)
  next
    case (Inr d)
    obtain w3 d' where "touch_registered sv now d ((set_reg s' w)\<lparr>ds_tr := watch_registered sv d (ds_tr w)\<rparr>) = Some (w3, d')" "ds_ok inv w3"
      using touch_registered_ok [OF assms(1) s'(1)] by blast
    with Inr reg assms(1,2) show ?thesis
      by (auto simp: RegisterDevice_def Let_def split: option.split)
  qed
qed

lemma serve_total:
  assumes "sv_reg sv = R" and "ds_ok inv w" and "\<And>r. req = RpcRegisterDevice r \<Longrightarrow> wf_labels (request_device r)"
  shows "\<exists>w' c. serve sv now caller req w = Some (w', c) \<and> ds_ok inv w'"
proof (cases req)
  case (RpcRegisterDevice r)
  with RegisterDevice_ok [OF assms(1,2)] assms(3) show ?thesis by fastforce
next
  case (RpcDeleteDevice i)
  have "rg_Delete R (ds_reg w) i = (s', e) \<Longrightarrow> inv s'" for s' e
    using delete_law assms(2) unfolding ds_ok_def by blast
  with RpcDeleteDevice assms(1,2) show ?thesis
    by (auto simp: DeleteDevice_def ds_ok_def split: option.split prod.split)
next
  case (RpcGetProperty i p)
  have "ds_ok inv (fst (read_via sv d i p w))" for d
    using assms(2) by (auto simp: read_via_def Let_def split: route.split prod.split sum.split)
  with RpcGetProperty assms(2) show ?thesis
    by (auto simp: GetProperty_def split: sum.split prod.split) (metis fst_conv)+
next
  case (RpcSetProperty i p v)
  with assms(2) write_via_ok [OF assms(1,2), of now _ i p "fromProtoValue v"] show ?thesis
    by (fastforce simp: SetProperty_def Let_def split: sum.split option.split)
next
  case (RpcSubscribe i)
  with assms(2) br_inv_Subscribe [of "ds_broker w" i] show ?thesis
    by (auto simp: Subscribe_open_def ds_ok_def split: sum.split prod.split)
qed (use assms(2) in simp_all)

end


lemma demo_ok: "ds_ok mr_inv demo_world"
  by (simp add: ds_ok_def demo_world_def br_inv_New mr_inv_def mr_Register_def NewMemoryRegistry_def init_device_def Let_def zero_Device_def wf_labels_def gm_ok_def)

lemma demo_reg: "sv_reg demo_sv = mr_ops"
  by (simp add: demo_sv_def New_DeviceService_def)


section \<open>Functional behaviour\<close>

lemma set_route_of_eq: "set_route_of sv t = route_of sv t"
  by (auto simp: set_route_of_def route_of_def)

definition online :: "time \<Rightarrow> Device \<Rightarrow> Device" where
  "online now d = d\<lparr>dev_Status := DeviceStatusOnline, dev_LastSeen := now\<rparr>"

lemma online_fields [simp]:
  "dev_ID (online now d) = dev_ID d" "dev_ACL (online now d) = dev_ACL d" "dev_Transport (online now d) = dev_Transport d"
  "dev_Capability (online now d) = dev_Capability d" "wf_labels (online now d) = wf_labels d"
  by (simp_all add: online_def wf_labels_def)

context registry_contract
begin

lemma checked_ok:
  "sv_reg sv = R \<Longrightarrow> inv (ds_reg w) \<Longrightarrow>
   checked_device sv caller op w i = Inr d \<longleftrightarrow> devs (ds_reg w) i = Some d \<and> may caller op i (dev_ACL d)"
  unfolding checked_device_Inr using own_id [of "ds_reg w" i d] by (auto simp: get_law split: option.splits)

lemma mark_online_devs:
  assumes "sv_reg sv = R" and "inv (ds_reg w)" and "devs (ds_reg w) i = Some d" and "storable (online now d)"
  shows "inv (ds_reg (mark_online sv now i w)) \<and> devs (ds_reg (mark_online sv now i w)) = (devs (ds_reg w))(i \<mapsto> online now d)"
proof -
  obtain s' e where u: "rg_UpdateStatus R (ds_reg w) i DeviceStatusOnline now = (s', e)" by fastforce
  with status_law [OF assms(2) u] assms(1,3,4) show ?thesis
    by (auto simp: mark_online_def modified_def online_def)
qed

lemma publishAndRespond_devs:
  assumes "sv_reg sv = R" and "ds_ok inv w" and "devs (ds_reg w) i = Some d" and "storable (online now d)" and "toProtoValue v = Some p"
  shows "\<exists>w'. publishAndRespond sv now i path v w = Some (w', Inr p) \<and> ds_ok inv w' \<and> ds_props w' = ds_props w \<and> ds_tr w' = ds_tr w \<and>
     devs (ds_reg w') = (devs (ds_reg w))(i \<mapsto> online now d) \<and>
     br_Publish (ds_broker w) (property_event i path v now) = Some (ds_broker w')"
proof -
  have br: "br_inv (ds_broker w)" and i: "inv (ds_reg w)" using assms(2) by (simp_all add: ds_ok_def)
  obtain b where b: "br_Publish (ds_broker w) (property_event i path v now) = Some b" "br_inv b"
    using br_Publish_eq [OF br] br_inv_Publish [OF br] by blast
  let ?w1 = "mark_online sv now i w"
  have w1: "ds_broker ?w1 = ds_broker w" "ds_props ?w1 = ds_props w" "ds_tr ?w1 = ds_tr w" by (simp_all add: mark_online_def)
  have "publishAndRespond sv now i path v w = Some (?w1\<lparr>ds_hb := (ds_hb ?w1)\<lparr>hw_broker := b\<rparr>\<rparr>, Inr p)"
    using b w1 assms(5) by (simp add: publishAndRespond_def Let_def)
  with b w1 mark_online_devs [OF assms(1) i assms(3,4)] show ?thesis by (simp add: ds_ok_def)
qed

lemma set_store:
  assumes "sv_reg sv = R" and "ds_ok inv w" and "devs (ds_reg w) i = Some d" and "storable (online now d)"
    and "i \<noteq> []" and "path \<noteq> []" and "may caller OpSetProperty i (dev_ACL d)" and "route_of sv (dev_Transport d) = ViaStore"
    and "check_value sv (dev_Capability d) path (fromProtoValue (Some p)) = None" and "toProtoValue (fromProtoValue (Some p)) = Some p"
  shows "\<exists>w'. SetProperty sv now caller i path (Some p) w = Some (w', Inr p) \<and> ds_ok inv w' \<and>
     ds_props w' = mps_Set (ds_props w) i path (fromProtoValue (Some p)) \<and> devs (ds_reg w') = (devs (ds_reg w))(i \<mapsto> online now d) \<and>
     br_Publish (ds_broker w) (property_event i path (fromProtoValue (Some p)) now) = Some (ds_broker w')"
proof -
  let ?v = "fromProtoValue (Some p)"
  let ?w = "w\<lparr>ds_props := mps_Set (ds_props w) i path ?v\<rparr>"
  have "checked_device sv caller OpSetProperty w i = Inr d"
    using assms by (simp add: checked_ok ds_ok_def)
  then have "SetProperty sv now caller i path (Some p) w = publishAndRespond sv now i path ?v ?w"
    using assms(5,6,8,9) by (simp add: SetProperty_def write_via_def set_route_of_eq Let_def)
  moreover have "ds_ok inv ?w" "devs (ds_reg ?w) i = Some d" using assms(2,3) by simp_all
  ultimately show ?thesis
    using publishAndRespond_devs [OF assms(1) \<open>ds_ok inv ?w\<close> \<open>devs (ds_reg ?w) i = Some d\<close> assms(4,10), of path] by auto
qed

lemma get_store:
  assumes "sv_reg sv = R" and "inv (ds_reg w)" and "devs (ds_reg w) i = Some d" and "i \<noteq> []" and "path \<noteq> []"
    and "may caller OpGetProperty i (dev_ACL d)" and "route_of sv (dev_Transport d) = ViaStore"
  shows "GetProperty sv caller i path w = (w, case mps_Get (ds_props w) i path of
     Inl e \<Rightarrow> Inl CodeNotFound | Inr v \<Rightarrow> (case toProtoValue v of None \<Rightarrow> Inl CodeInternal | Some p \<Rightarrow> Inr p))"
proof -
  have "checked_device sv caller OpGetProperty w i = Inr d"
    using assms by (simp add: checked_ok)
  then show ?thesis
    using assms by (simp add: GetProperty_def read_via_def Let_def split: sum.split)
qed

lemma set_get_store:
  assumes "sv_reg sv = R" and "ds_ok inv w" and "devs (ds_reg w) i = Some d" and "storable (online now d)"
    and "i \<noteq> []" and "path \<noteq> []" and "may caller OpSetProperty i (dev_ACL d)" and "may reader OpGetProperty i (dev_ACL d)"
    and "route_of sv (dev_Transport d) = ViaStore"
    and "check_value sv (dev_Capability d) path (fromProtoValue (Some p)) = None" and "p \<notin> {PvUnset, PvJson, PvBytes None}"
  shows "\<exists>w'. SetProperty sv now caller i path (Some p) w = Some (w', Inr p) \<and> GetProperty sv reader i path w' = (w', Inr p) \<and>
     devs (ds_reg w') = (devs (ds_reg w))(i \<mapsto> online now d) \<and>
     br_Publish (ds_broker w) (property_event i path (fromProtoValue (Some p)) now) = Some (ds_broker w')"
proof -
  have p: "toProtoValue (fromProtoValue (Some p)) = Some p"
    using assms(11) by (simp only: toProto_fromProto_iff not_False_eq_True)
  obtain w' where w': "SetProperty sv now caller i path (Some p) w = Some (w', Inr p)" "ds_ok inv w'"
    "ds_props w' = mps_Set (ds_props w) i path (fromProtoValue (Some p))" "devs (ds_reg w') = (devs (ds_reg w))(i \<mapsto> online now d)"
    "br_Publish (ds_broker w) (property_event i path (fromProtoValue (Some p)) now) = Some (ds_broker w')"
    using set_store [OF assms(1-7,9,10) p] by blast
  have "mps_Get (ds_props w') i path = Inr (fromProtoValue (Some p))"
    unfolding w'(3) by (rule mps.rd_wr_same) simp
  then have "GetProperty sv reader i path w' = (w', Inr p)"
    using get_store [OF assms(1), of w' i "online now d" path reader] w' assms(5,6,8,9) p by (simp add: ds_ok_def)
  with w' show ?thesis by blast
qed

end


lemma demo_lamp:
  "gm_get (mr_devices (ds_reg demo_world)) ''lamp'' = Some (init_device (zero_Device\<lparr>dev_ID := ''lamp'', dev_Transport := ''grpc''\<rparr>))"
  by (simp add: demo_world_def mr_Register_def NewMemoryRegistry_def Let_def init_device_def zero_Device_def)


text \<open>What a registration stores: the request's device, online and seen now with a presence monitor.\<close>

definition registered_device :: "('s, 'x) DeviceService \<Rightarrow> time \<Rightarrow> register_request \<Rightarrow> Device" where
  "registered_device sv now req =
     (let d = init_device (request_device req) in if sv_presence sv = None then d else online now d)"

lemma init_request [simp]:
  "dev_ID (init_device (request_device req)) = rr_Id req" "dev_Transport (init_device (request_device req)) = rr_Transport req"
  "dev_Status (init_device (request_device req)) = DeviceStatusUnknown"
  by (simp_all add: init_device_def request_device_def Let_def)

context registry_contract
begin

lemma touch_registered_devs:
  assumes "sv_reg sv = R" and "ds_ok inv w" and "devs (ds_reg w) (dev_ID d) = Some d" and "storable (online now d)"
  shows "\<exists>w'. touch_registered sv now d w = Some (w', if sv_presence sv = None then d else online now d) \<and>
     devs (ds_reg w') = (devs (ds_reg w))(dev_ID d \<mapsto> if sv_presence sv = None then d else online now d) \<and> ds_tr w' = ds_tr w"
proof (cases "sv_presence sv")
  case None
  with assms(3) show ?thesis by (auto simp: touch_registered_def fun_upd_idem)
next
  case (Some m)
  have "inv (hw_reg (ds_hb w))" "br_inv (hw_broker (ds_hb w))" using assms(2) by (simp_all add: ds_ok_def)
  then obtain h where h: "hb_Touch R m now (dev_ID d) (ds_hb w) = Some (h, None)" "inv (hw_reg h)"
    "devs (hw_reg h) = (devs (ds_reg w))(dev_ID d \<mapsto> online now d)"
    using touch [of "ds_hb w" "dev_ID d" d now m] assms(3,4) by (auto simp: online_def)
  with Some assms(1) show ?thesis
    by (simp add: touch_registered_def get_law)
qed

lemma register_request:
  assumes "sv_reg sv = R" and "ds_ok inv w" and "wf_labels (request_device req)" and "rr_Id req \<noteq> []" and "rr_Name req \<noteq> []"
    and "rr_Capability req \<noteq> []" and "rr_Transport req \<noteq> []" and "may caller OpRegisterDevice [] []"
    and "check_capability sv (rr_Capability req) = None"
    and "storable (init_device (request_device req))" and "storable (online now (init_device (request_device req)))"
  shows "if devs (ds_reg w) (rr_Id req) = None
    then \<exists>w'. RegisterDevice sv now caller req w = Some (w', Inr (toProtoDevice (registered_device sv now req))) \<and>
       devs (ds_reg w') = (devs (ds_reg w))(rr_Id req \<mapsto> registered_device sv now req) \<and>
       ds_tr w' = watch_registered sv (init_device (request_device req)) (ds_tr w)
    else \<exists>w'. RegisterDevice sv now caller req w = Some (w', Inl CodeAlreadyExists) \<and> devs (ds_reg w') = devs (ds_reg w) \<and> ds_tr w' = ds_tr w"
proof -
  let ?d = "init_device (request_device req)"
  obtain s' r where reg: "rg_Register R (ds_reg w) (request_device req) = (s', r)" by fastforce
  have id: "dev_ID (request_device req) = rr_Id req" by (simp add: request_device_def)
  have law: "inv s'" "registered storable (devs (ds_reg w)) (request_device req) (devs s') r"
    using register_law [OF _ assms(3) _ reg] assms(2,4) id by (simp_all add: ds_ok_def)
  have start: "RegisterDevice sv now caller req w =
     (case r of Inl e \<Rightarrow> Some (set_reg s' w, Inl (if errors_Is e (RegE RegErrAlreadyExists) then CodeAlreadyExists else CodeInternal))
      | Inr d \<Rightarrow> map_option (\<lambda>(w3, d'). (w3, Inr (toProtoDevice d')))
          (touch_registered sv now d ((set_reg s' w)\<lparr>ds_tr := watch_registered sv d (ds_tr w)\<rparr>)))"
    using assms(1,5-9) reg by (auto simp: RegisterDevice_def Let_def may_def authorizeNoDevice_def split: sum.split)
  show ?thesis
  proof (cases "devs (ds_reg w) (rr_Id req)")
    case (Some d)
    with law(2) id have "r = Inl ErrAlreadyExists" "devs s' = devs (ds_reg w)" by (simp_all add: registered_def)
    with Some start show ?thesis by simp
  next
    case None
    with law(2) id assms(10) have r: "r = Inr ?d" "devs s' = (devs (ds_reg w))(rr_Id req \<mapsto> ?d)" by (simp_all add: registered_def)
    let ?w = "(set_reg s' w)\<lparr>ds_tr := watch_registered sv ?d (ds_tr w)\<rparr>"
    have w: "ds_ok inv ?w" using law(1) assms(2) by (simp add: ds_ok_def)
    have "devs (ds_reg ?w) (dev_ID ?d) = Some ?d" using r(2) id by simp
    from touch_registered_devs [OF assms(1) w this assms(11)] None start r show ?thesis
      by (auto simp: registered_device_def Let_def id)
  qed
qed

end

text \<open>Registration. A permitted \<open>RegisterDevice\<close> with complete fields and a known capability stores exactly the requested device under a
  new ID (online and seen now when a presence monitor is configured), answers with what it stored, asks at
  most the one adapter of its transport to watch it, and changes no other device; under an ID in use it
  changes nothing and answers \<open>AlreadyExists\<close>.\<close>

theorem register_effect:
  assumes "registry_contract R devs I st" and "sv_reg sv = R" and "ds_ok I w" and "wf_labels (request_device req)"
    and "rr_Id req \<noteq> []" and "rr_Name req \<noteq> []" and "rr_Capability req \<noteq> []" and "rr_Transport req \<noteq> []"
    and "may caller OpRegisterDevice [] []" and "check_capability sv (rr_Capability req) = None"
    and "st (init_device (request_device req))" and "st (online now (init_device (request_device req)))"
  shows "if devs (ds_reg w) (rr_Id req) = None
    then \<exists>w'. RegisterDevice sv now caller req w = Some (w', Inr (toProtoDevice (registered_device sv now req))) \<and>
       devs (ds_reg w') = (devs (ds_reg w))(rr_Id req \<mapsto> registered_device sv now req) \<and>
       ds_tr w' = watch_registered sv (init_device (request_device req)) (ds_tr w)
    else \<exists>w'. RegisterDevice sv now caller req w = Some (w', Inl CodeAlreadyExists) \<and> devs (ds_reg w') = devs (ds_reg w) \<and> ds_tr w' = ds_tr w"
  by (rule registry_contract.register_request [OF assms])

theorem register_effect_witness:
  "\<exists>w'. RegisterDevice demo_sv 5 (Some demo_admin) \<lparr>rr_Id = ''lamp'', rr_Name = ''n'', rr_Capability = ''c'', rr_Transport = ''t'', rr_Labels = None\<rparr>
      demo_world = Some (w', Inl CodeAlreadyExists)"
proof -
  let ?req = "\<lparr>rr_Id = ''lamp'', rr_Name = ''n'', rr_Capability = ''c'', rr_Transport = ''t'', rr_Labels = None\<rparr>"
  have "wf_labels (request_device ?req)" "may (Some demo_admin) OpRegisterDevice [] []" "check_capability demo_sv (rr_Capability ?req) = None"
    by (simp_all add: wf_labels_def request_device_def zero_Device_def may_def demo_admin_def rbacAllows_def row_def role_defs
        check_capability_def demo_sv_def New_DeviceService_def)
  then show ?thesis
    using register_effect [OF mr.registry_contract_axioms demo_reg demo_ok, of ?req "Some demo_admin" 5] demo_lamp by auto
qed

text \<open>C13. Schema enforcement. With a capability registry, a \<open>SetProperty\<close> on a device whose capability names a published schema
  succeeds or has any effect only if the schema accepts the value for that property; a device whose schema
  is gone, an undeclared property and an unacceptable value are refused with the world unchanged.\<close>

theorem schema_enforced:
  assumes "sv_capability sv = Some get" and "rg_Get (sv_reg sv) (ds_reg w) i = Inr d"
    and "splitCapabilityRef (dev_Capability d) = Some (n, v)"
    and "SetProperty sv now caller i path pv w = Some (w', r)" and "w' \<noteq> w \<or> (\<exists>p. r = Inr p)"
  shows "\<exists>schema. get n v = Inr schema \<and> ValidateProperty schema path (fromProtoValue pv) = None"
  using assms
  by (auto simp: SetProperty_def checked_device_def lookup_device_def check_value_def Let_def split: if_splits sum.splits option.splits)

definition schema_sv :: "(MemoryRegistry, unit) DeviceService" where
  "schema_sv = demo_sv\<lparr>sv_capability := Some (\<lambda>n v. Inr level_schema)\<rparr>"

definition schema_world :: "(MemoryRegistry, unit) ds_world" where
  "schema_world = demo_world\<lparr>ds_hb := (ds_hb demo_world)\<lparr>hw_reg := fst (mr_Register NewMemoryRegistry
     (zero_Device\<lparr>dev_ID := ''lamp'', dev_Transport := ''grpc'', dev_Capability := ''light@1.0.0''\<rparr>))\<rparr>\<rparr>"

lemma schema_check: "check_value schema_sv ''light@1.0.0'' ''level'' (fromProtoValue (Some (PvInt 40))) = None"
proof -
  have "splitCapabilityRef ''light@1.0.0'' = Some (''light'', ''1.0.0'')"
    using splitCapabilityRef_join [of "''light''" "''1.0.0''"] by simp
  moreover have "validateValue (int_type 0 100) (IntValue 40) = None"
    using f_of_int_exact [of 40] f_of_int_exact [of 100]
    by (simp add: validateValue_def int_type_def checkRange_def value_ctor_defs f_less_def)
  ultimately show ?thesis
    by (simp add: check_value_def schema_sv_def ValidateProperty_def level_schema_def level_resolve [unfolded level_schema_def])
qed

theorem schema_enforced_witness:
  "(\<exists>w'. SetProperty schema_sv 5 (Some demo_admin) ''lamp'' ''level'' (Some (PvInt 40)) schema_world = Some (w', Inr (PvInt 40))) \<and>
   ValidateProperty level_schema ''level'' (fromProtoValue (Some (PvInt 40))) = None"
proof -
  let ?d = "init_device (zero_Device\<lparr>dev_ID := ''lamp'', dev_Transport := ''grpc'', dev_Capability := ''light@1.0.0''\<rparr>)"
  have ok: "ds_ok mr_inv schema_world"
    by (simp add: ds_ok_def schema_world_def demo_world_def br_inv_New mr_inv_def mr_Register_def NewMemoryRegistry_def init_device_def
        Let_def zero_Device_def wf_labels_def gm_ok_def)
  have reg: "sv_reg schema_sv = mr_ops" by (simp add: schema_sv_def demo_reg)
  have dev: "gm_get (mr_devices (ds_reg schema_world)) ''lamp'' = Some ?d"
    by (simp add: schema_world_def mr_Register_def NewMemoryRegistry_def Let_def init_device_def zero_Device_def)
  have cap: "dev_Capability ?d = ''light@1.0.0''" by (simp add: init_device_def zero_Device_def)
  have may: "may (Some demo_admin) OpSetProperty ''lamp'' (dev_ACL ?d)"
    by (simp add: may_def demo_admin_def init_device_def zero_Device_def rbacAllows_def row_def role_defs)
  have route: "route_of schema_sv (dev_Transport ?d) = ViaStore"
    by (simp add: route_of_def custom_route_def schema_sv_def demo_sv_def New_DeviceService_def init_device_def zero_Device_def)
  have "toProtoValue (fromProtoValue (Some (PvInt 40))) = Some (PvInt 40)" by (simp only: toProto_fromProto_iff) simp
  with mr.set_store [OF reg ok dev _ _ _ may route, where now = 5 and path = "''level''" and p = "PvInt 40"] schema_check cap
  obtain w' where set: "SetProperty schema_sv 5 (Some demo_admin) ''lamp'' ''level'' (Some (PvInt 40)) schema_world = Some (w', Inr (PvInt 40))"
    by auto
  have "rg_Get (sv_reg schema_sv) (ds_reg schema_world) ''lamp'' = Inr ?d"
    using dev by (simp add: reg mr_ops_def mr_Get_def)
  moreover have "splitCapabilityRef (dev_Capability ?d) = Some (''light'', ''1.0.0'')"
    using splitCapabilityRef_join [of "''light''" "''1.0.0''"] cap by simp
  ultimately show ?thesis
    using schema_enforced [OF _ _ _ set, of "\<lambda>n v. Inr level_schema"] set by (auto simp: schema_sv_def)
qed

section \<open>Streams\<close>

lemma subseq_map_filter: "subseq xs ys \<Longrightarrow> subseq (List.map_filter f xs) (List.map_filter f ys)"
  by (induction rule: list_emb.induct) (auto simp: List.map_filter_simps split: option.split)

lemma subscribe_loop_all:
  "e \<in> {SubDone, SubClosed} \<Longrightarrow>
   subscribe_loop path (\<lambda>_. None) (map SubUpdate us @ e # es) = (List.map_filter (sub_response_of path) us, None)"
  by (induction us) (auto simp: List.map_filter_simps split: option.split)



text \<open>The commands a stream forwards: those with encodable parameters, up to the event that ends it.\<close>

fun sc_ends :: "sc_event \<Rightarrow> bool" where
  "sc_ends (ScResult r) = False"
| "sc_ends (ScTick t) = False"
| "sc_ends (ScCommand c) = False"
| "sc_ends _ = True"

definition forwarded :: "((string \<times> pbval) list \<Rightarrow> bool) \<Rightarrow> sc_event list \<Rightarrow> Command list" where
  "forwarded enc es = [c. ScCommand c \<leftarrow> takeWhile (\<lambda>e. \<not> sc_ends e) es, enc (cmd_Params c)]"

lemma forwarded_simps [simp]:
  "forwarded enc [] = []" "sc_ends e \<Longrightarrow> forwarded enc (e # es) = []"
  "forwarded enc (ScResult r # es) = forwarded enc es" "forwarded enc (ScTick t # es) = forwarded enc es"
  "forwarded enc (ScCommand c # es) = (if enc (cmd_Params c) then [c] else []) @ forwarded enc es"
  by (simp_all add: forwarded_def)

lemma forwarded_filter: "forwarded enc (filter (\<lambda>e. \<not> is_tick e) es) = forwarded enc es"
proof (induction es)
  case (Cons e es)
  then show ?case by (cases e) simp_all
qed simp

definition results_open :: "CommandRouter \<Rightarrow> bool" where
  "results_open r \<longleftrightarrow> (\<forall>ch. \<not> ch_closed (cr_results r ch))"

lemma cr_Submit_ok:
  assumes "results_open r"
  shows "\<exists>r'. cr_Submit r res = Some r' \<and> results_open r' \<and> cr_cmds r' = cr_cmds r \<and> cr_channels r' = cr_channels r"
  using assms
  by (auto simp: cr_Submit_def cr_submit_take_def cr_submit_send_def send_chan_def results_open_def split: option.split)

context registry_contract
begin

lemma sc_touch_ok:
  assumes "sv_reg sv = R" and "ds_ok inv w"
  shows "\<exists>w'. sc_touch sv now i w = Some w' \<and> ds_ok inv w'"
proof (cases "sv_presence sv")
  case None
  with assms show ?thesis by (simp add: sc_touch_def)
next
  case (Some m)
  with assms touch_total [of "ds_hb w" m now i] show ?thesis by (auto simp: sc_touch_def ds_ok_def)
qed

lemma stream_loop_ok:
  assumes "sv_reg sv = R" and "ds_ok inv w" and "results_open r"
  shows "\<exists>w' r' c. stream_loop sv enc (\<lambda>_. None) i es w r = Some (w', r', forwarded enc es, c) \<and> ds_ok inv w' \<and>
     cr_cmds r' = cr_cmds r \<and> cr_channels r' = cr_channels r"
  using assms(2,3)
proof (induction es arbitrary: w r)
  case (Cons e es)
  show ?case
  proof (cases e)
    case (ScResult res)
    obtain r' where "cr_Submit r res = Some r'" "results_open r'" "cr_cmds r' = cr_cmds r" "cr_channels r' = cr_channels r"
      using cr_Submit_ok [OF Cons.prems(2)] by blast
    with Cons.IH [OF Cons.prems(1), of r'] ScResult show ?thesis by auto
  next
    case (ScTick t)
    obtain w' where "sc_touch sv t i w = Some w'" "ds_ok inv w'"
      using sc_touch_ok [OF assms(1) Cons.prems(1)] by blast
    with Cons.IH [of w' r] Cons.prems(2) ScTick show ?thesis by auto
  next
    case (ScCommand cmd)
    obtain r' where "cr_Submit r (encode_failed cmd) = Some r'" "results_open r'" "cr_cmds r' = cr_cmds r" "cr_channels r' = cr_channels r"
      using cr_Submit_ok [OF Cons.prems(2)] by blast
    with Cons.IH [OF Cons.prems(1)] Cons.prems(2) ScCommand show ?thesis by (cases "enc (cmd_Params cmd)") fastforce+
  qed (use Cons.prems in simp_all)
qed simp

lemma StreamCommands_ok:
  assumes "sv_reg sv = R" and "ds_ok inv w" and "results_open r" and "i \<noteq> []" and "devs (ds_reg w) i = Some d"
    and "may caller OpStreamCommands i (dev_ACL d)"
  shows "\<exists>w' r' c. StreamCommands sv enc (\<lambda>_. None) now caller (i # is) es w r = Some (w', r', forwarded enc es, c) \<and> ds_ok inv w' \<and>
     cr_channels r' i = None \<and> (\<forall>j. j \<noteq> i \<longrightarrow> cr_channels r' j = cr_channels r j) \<and> ch_closed (cr_cmds r' (cr_nextc r))"
proof -
  let ?r1 = "snd (cr_Register r i)" and ?es = "if has_ticker sv then es else filter (\<lambda>e. \<not> is_tick e) es"
  have r1: "results_open ?r1" "fst (cr_Register r i) = cr_nextc r" "cr_channels ?r1 = (cr_channels r)(i \<mapsto> cr_nextc r)"
    "cr_cmds ?r1 (cr_nextc r) = make_chan"
    using assms(3) by (simp_all add: cr_Register_def Let_def results_open_def)
  obtain w1 where w1: "sc_touch sv now i w = Some w1" "ds_ok inv w1"
    using sc_touch_ok [OF assms(1,2)] by blast
  obtain w2 r2 c where loop: "stream_loop sv enc (\<lambda>_. None) i ?es w1 ?r1 = Some (w2, r2, forwarded enc ?es, c)" "ds_ok inv w2"
    "cr_cmds r2 = cr_cmds ?r1" "cr_channels r2 = cr_channels ?r1"
    using stream_loop_ok [OF assms(1) w1(2) r1(1)] by blast
  have "forwarded enc ?es = forwarded enc es" by (simp add: forwarded_filter)
  moreover have "checked_device sv caller OpStreamCommands w i = Inr d"
    using assms by (simp add: checked_ok ds_ok_def)
  ultimately show ?thesis
    using assms(4) w1 loop r1
    by (auto simp: StreamCommands_def case_prod_beta cr_unregister_drop_def cr_unregister_close_def close_chan_def make_chan_def)
qed

end



end
