(* ===== verification/Capability_Service.thy ===== *)
theory Capability_Service
  imports Device_Service
begin

text \<open>
  The gRPC capability service (\<open>internal/service/capability_service.go\<close>) over any schema registry
  that keeps its contract. The \<open>schema\<close> field of a publish request is empty or bytes that decode
  to a JSON document or not at all. The properties tie it to the device service, which shares
  its registry: what is published here is what devices register under and are validated against.
\<close>

section \<open>Requests and responses\<close>

datatype schema_bytes = NoBytes | Bytes "json option"

record proto_schema =
  ps_Name :: string
  ps_Version :: string
  ps_Description :: string
  ps_Raw :: json
  ps_PublishedAt :: "time option"

definition toProtoCapabilitySchema :: "Schema \<Rightarrow> proto_schema" where
  "toProtoCapabilitySchema s = \<lparr>ps_Name = sc_Name s, ps_Version = sc_Version s, ps_Description = sc_Description s,
     ps_Raw = sc_Raw s, ps_PublishedAt = (if sc_PublishedAt s = 0 then None else Some (sc_PublishedAt s))\<rparr>"

definition capabilityStatusError :: "fault \<Rightarrow> code" where
  "capabilityStatusError e =
     (if errors_Is e (CapE CapErrInvalidSchema) then CodeInvalidArgument
      else if errors_Is e (CapE CapErrAlreadyExists) then CodeAlreadyExists
      else if errors_Is e (CapE CapErrNotFound) then CodeNotFound
      else CodeInternal)"

section \<open>The RPCs\<close>

definition cs_authorize :: "Identity option \<Rightarrow> Operation \<Rightarrow> code option" where
  "cs_authorize caller op = (case caller of None \<Rightarrow> Some CodeUnauthenticated | Some i \<Rightarrow> Authorize i op [] [])"

definition PublishSchema ::
    "'s schema_ops \<Rightarrow> (json \<Rightarrow> bool) \<Rightarrow> time \<Rightarrow> Identity option \<Rightarrow> schema_bytes \<Rightarrow> 's \<Rightarrow> 's \<times> (code + proto_schema)" where
  "PublishSchema S meta now caller bytes s =
     (case cs_authorize caller OpPublishSchema of
        Some c \<Rightarrow> (s, Inl c)
      | None \<Rightarrow>
          (case bytes of
             NoBytes \<Rightarrow> (s, Inl CodeInvalidArgument)
           | Bytes raw \<Rightarrow>
               (case so_Publish S meta now s raw of
                  (s', ws, Inl e) \<Rightarrow> (s', Inl (capabilityStatusError e))
                | (s', ws, Inr x) \<Rightarrow> (s', Inr (toProtoCapabilitySchema x)))))"

definition GetSchema :: "'s schema_ops \<Rightarrow> Identity option \<Rightarrow> string \<Rightarrow> string \<Rightarrow> 's \<Rightarrow> code + proto_schema" where
  "GetSchema S caller name version s =
     (case cs_authorize caller OpGetSchema of
        Some c \<Rightarrow> Inl c
      | None \<Rightarrow>
          if name = [] \<or> version = [] then Inl CodeInvalidArgument
          else (case so_Get S s name version of
                  Inl e \<Rightarrow> Inl (capabilityStatusError e)
                | Inr x \<Rightarrow> Inr (toProtoCapabilitySchema x)))"

definition ListSchemas :: "'s schema_ops \<Rightarrow> Identity option \<Rightarrow> string \<Rightarrow> 's \<Rightarrow> code + proto_schema list" where
  "ListSchemas S caller name s =
     (case cs_authorize caller OpListSchemas of
        Some c \<Rightarrow> Inl c
      | None \<Rightarrow>
          (case so_List S s name of
             Inl e \<Rightarrow> Inl CodeInternal
           | Inr xs \<Rightarrow> Inr (map toProtoCapabilitySchema xs)))"

section \<open>Publishing, over any schema registry\<close>

lemma cs_authorize_iff: "cs_authorize caller op = None \<longleftrightarrow> may caller op [] []"
  by (auto simp: cs_authorize_def may_def split: option.split)

lemma cs_refused: "\<not> may caller op [] [] \<Longrightarrow> \<exists>c. cs_authorize caller op = Some c"
  using cs_authorize_iff by fastforce

lemma key_of_split: "splitCapabilityRef ref = Some (n, v) \<Longrightarrow> publishKey n v = ref"
  by (auto simp: publishKey_def dest: splitCapabilityRef_Some)

lemma split_key:
  assumes "n \<noteq> []" and "hd n \<noteq> CHR ''@''" and "v \<noteq> []"
  shows "splitCapabilityRef (publishKey n v) \<noteq> None"
proof -
  have "CHR ''@'' \<in> set (publishKey n v)" by (simp add: publishKey_def)
  then obtain a b where ab: "publishKey n v = a @ CHR ''@'' # b" "CHR ''@'' \<notin> set a"
    by (meson split_list_first)
  have "a \<noteq> []" using ab(1) assms(1,2) by (cases n) (auto simp: publishKey_def)
  moreover have "b \<noteq> []"
  proof
    assume "b = []"
    with ab have "v = [] \<or> CHR ''@'' \<in> set a"
      by (cases v rule: rev_cases) (auto simp: publishKey_def)
    with ab(2) assms(3) show False by simp
  qed
  ultimately show ?thesis
    using splitCapabilityRef_join [OF ab(2), of b] ab(1) by simp
qed

context schema_registry
begin

lemma check_capability_iff:
  assumes "inv s"
  shows "check_capability (sv\<lparr>sv_capability := Some (so_Get S s)\<rparr>) ref = None \<longleftrightarrow>
     splitCapabilityRef ref \<noteq> None \<and> tab s ref \<noteq> None"
  using so_get [OF assms] key_of_split [of ref]
  by (auto simp: check_capability_def split: option.splits)

lemma PublishSchema_cases:
  assumes "inv s" and "may caller OpPublishSchema [] []" and "PublishSchema S meta now caller (Bytes raw) s = (s', r)"
  shows "inv s' \<and>
     (case validateAndParse meta raw of
        Inl e \<Rightarrow> r = Inl (capabilityStatusError e) \<and> tab s' = tab s
      | Inr x \<Rightarrow> storable now (the raw) x \<longrightarrow>
          (let key = publishKey (sc_Name x) (sc_Version x); x' = x\<lparr>sc_PublishedAt := now\<rparr> in
           if tab s key = None then r = Inr (toProtoCapabilitySchema x') \<and> tab s' = (tab s)(key \<mapsto> x')
           else r = Inl CodeAlreadyExists \<and> tab s' = tab s))"
proof -
  obtain ws q where q: "so_Publish S meta now s raw = (s', ws, q)"
    and r: "r = (case q of Inl e \<Rightarrow> Inl (capabilityStatusError e) | Inr x \<Rightarrow> Inr (toProtoCapabilitySchema x))"
    using assms(2,3) by (auto simp: PublishSchema_def cs_authorize_iff [symmetric] split: prod.splits sum.splits)
  show ?thesis
    using so_publish [OF assms(1) q] r
    by (auto simp: Let_def capabilityStatusError_def split: sum.splits if_splits)
qed

end

section \<open>Properties\<close>

lemma invalid_schema_code: "validateAndParse meta raw = Inl e \<Longrightarrow> capabilityStatusError e = CodeInvalidArgument"
  by (auto simp: validateAndParse_def capabilityStatusError_def split: option.splits if_splits)

lemma valid_schema_named: "validateAndParse meta raw = Inr x \<Longrightarrow> sc_Name x \<noteq> [] \<and> sc_Version x \<noteq> []"
  by (auto simp: validateAndParse_def split: option.splits if_splits)

text \<open>C30. Publishing through the API. A request of a caller without the permission changes nothing and gets an error. A permitted
  one publishes a valid document once: the answer is the stored schema, every permitted reader
  gets it under its name and version, and from then on devices may register with it; an invalid document is
  \<open>InvalidArgument\<close> and a second one of the same name and version \<open>AlreadyExists\<close>, with every
  schema kept.\<close>

theorem publish_rpc:
  assumes "schema_registry S tab I storable" and "I s" and "PublishSchema S meta now caller (Bytes raw) s = (s', r)"
  shows "if \<not> may caller OpPublishSchema [] [] then s' = s \<and> (\<exists>c. r = Inl c)
    else case validateAndParse meta raw of
      Inl e \<Rightarrow> r = Inl CodeInvalidArgument \<and> tab s' = tab s
    | Inr x \<Rightarrow> storable now (the raw) x \<longrightarrow>
       (if tab s (publishKey (sc_Name x) (sc_Version x)) \<noteq> None then r = Inl CodeAlreadyExists \<and> tab s' = tab s
        else r = Inr (toProtoCapabilitySchema (x\<lparr>sc_PublishedAt := now\<rparr>)) \<and>
          (\<forall>reader. may reader OpGetSchema [] [] \<longrightarrow> GetSchema S reader (sc_Name x) (sc_Version x) s' = r) \<and>
          (hd (sc_Name x) \<noteq> CHR ''@'' \<longrightarrow>
             check_capability (sv\<lparr>sv_capability := Some (so_Get S s')\<rparr>) (publishKey (sc_Name x) (sc_Version x)) = None))"
proof (cases "may caller OpPublishSchema [] []")
  case False
  with cs_refused [OF False] assms(3) show ?thesis by (auto simp: PublishSchema_def)
next
  case True
  note c = schema_registry.PublishSchema_cases [OF assms(1,2) True assms(3)]
  show ?thesis
  proof (cases "validateAndParse meta raw")
    case (Inl e)
    with c True invalid_schema_code [OF Inl] show ?thesis by simp
  next
    case (Inr x)
    let ?key = "publishKey (sc_Name x) (sc_Version x)"
    have inv': "I s'" using c by simp
    have named: "sc_Name x \<noteq> []" "sc_Version x \<noteq> []" using valid_schema_named [OF Inr] by simp_all
    have check: "check_capability (sv\<lparr>sv_capability := Some (so_Get S s')\<rparr>) ?key = None"
      if "tab s' ?key \<noteq> None" "hd (sc_Name x) \<noteq> CHR ''@''"
      using that split_key [OF named(1) that(2) named(2)] by (simp add: schema_registry.check_capability_iff [OF assms(1) inv'])
    have get: "GetSchema S reader (sc_Name x) (sc_Version x) s' = Inr (toProtoCapabilitySchema y)"
      if "tab s' ?key = Some y" "may reader OpGetSchema [] []" for reader y
      using that named by (simp add: GetSchema_def cs_authorize_iff [THEN iffD2] schema_registry.so_get [OF assms(1) inv'])
    from c Inr True check get show ?thesis by (auto simp: Let_def)
  qed
qed

theorem publish_rpc_witness:
  "may (Some demo_admin) OpPublishSchema [] [] \<and>
   (\<exists>s' p. PublishSchema cm_ops (\<lambda>_. True) 7 (Some demo_admin) (Bytes (Some (lamp_doc ''1.0.0''))) NewCapMemory = (s', Inr p) \<and>
     check_capability (demo_sv\<lparr>sv_capability := Some (so_Get cm_ops s')\<rparr>) ''lamp@1.0.0'' = None)"
proof
  show may: "may (Some demo_admin) OpPublishSchema [] []"
    by (simp add: may_def demo_admin_def rbacAllows_def row_def role_defs)
  obtain s' r where r: "PublishSchema cm_ops (\<lambda>_. True) 7 (Some demo_admin) (Bytes (Some (lamp_doc ''1.0.0''))) NewCapMemory = (s', r)"
    by fastforce
  have v: "validateAndParse (\<lambda>_. True) (Some (lamp_doc ''1.0.0'')) =
      Inr ((empty_Schema (lamp_doc ''1.0.0''))\<lparr>sc_Name := ''lamp'', sc_Version := ''1.0.0''\<rparr>)"
    by (simp add: validateAndParse_def lamp_parse)
  have "gm_ok (cm_schemas NewCapMemory)" by (simp add: NewCapMemory_def gm_ok_def)
  from publish_rpc [OF cm.schema_registry_axioms this r, of demo_sv] may r v
  show "\<exists>s' p. PublishSchema cm_ops (\<lambda>_. True) 7 (Some demo_admin) (Bytes (Some (lamp_doc ''1.0.0''))) NewCapMemory = (s', Inr p) \<and>
     check_capability (demo_sv\<lparr>sv_capability := Some (so_Get cm_ops s')\<rparr>) ''lamp@1.0.0'' = None"
    by (auto simp: publishKey_def NewCapMemory_def)
qed

text \<open>A list has exactly the stored schemas of the name asked for, or all of them for an empty name.\<close>

lemma list_schemas_exact:
  assumes "schema_registry S tab I storable" and "I s" and "may caller OpListSchemas [] []"
  shows "\<exists>ps. ListSchemas S caller name s = Inr ps \<and>
     set ps = toProtoCapabilitySchema ` {x \<in> ran (tab s). name = [] \<or> sc_Name x = name}"
proof -
  obtain xs where "so_List S s name = Inr xs" "set xs = {x \<in> ran (tab s). name = [] \<or> sc_Name x = name}"
    using schema_registry.so_list [OF assms(1,2)] by blast
  then show ?thesis
    using assms(3) by (simp add: ListSchemas_def cs_authorize_iff [THEN iffD2])
qed

end
