(* ===== verification/Can_Codec.thy ===== *)
theory Can_Codec
  imports Channels
begin

unbundle bit_operations_syntax

text \<open>
  CAN signals and frames: \<open>internal/adapters/can/codec.go\<close>, \<open>frame.go\<close> and the
  data model of \<open>dbc.go\<close>. A payload is a list of bytes; a signal's bit positions are
  numbered as in DBC files (8 times the byte index plus the bit index in that byte). The
  numbers of a DBC file match \<open>\d+\<close>, so start bits, lengths and positions are naturals
  here; positions near the largest \<open>int\<close>, where Go's addition wraps, are out of reach of
  an eight-byte payload and not modelled. The conversion of an out-of-range
  \<open>float64\<close> to \<open>int64\<close> is the implementation's choice \<open>conv\<close>.
\<close>

section \<open>Signals and messages (dbc.go)\<close>

record Signal =
  sg_Name :: string
  sg_StartBit :: nat
  sg_Length :: nat
  sg_LittleEndian :: bool
  sg_Signed :: bool
  sg_Factor :: float64
  sg_Offset :: float64
  sg_Unit :: string
  sg_IsMultiplexor :: bool
  sg_MuxValue :: "int option"
  sg_positions :: "nat list"

record Message =
  msg_ID :: "32 word"
  msg_Name :: string
  msg_DLC :: byte
  msg_Signals :: "Signal list"

record Database =
  db_byID :: "(32 word, Message) gomap"
  db_byName :: "(string, Message) gomap"

definition MessageByID :: "Database \<Rightarrow> 32 word \<Rightarrow> Message option" where
  "MessageByID db i = gm_get (db_byID db) i"

definition MessageByName :: "Database \<Rightarrow> string \<Rightarrow> Message option" where
  "MessageByName db n = gm_get (db_byName db) n"

section \<open>Bit layout\<close>

text \<open>
  The Motorola loop runs from the most significant bit down: \<open>positions[i] = pos\<close> for
  \<open>i = length-1, ..., 0\<close>, so each position is put in front of those already placed.
\<close>

definition next_pos :: "nat \<Rightarrow> nat" where
  "next_pos pos = (if pos mod 8 = 0 then pos + 15 else pos - 1)"

fun motorola :: "nat \<Rightarrow> nat \<Rightarrow> nat list \<Rightarrow> nat list" where
  "motorola 0 pos acc = acc"
| "motorola (Suc n) pos acc = motorola n (next_pos pos) (pos # acc)"

definition bitPositions :: "nat \<Rightarrow> nat \<Rightarrow> bool \<Rightarrow> nat list" where
  "bitPositions startBit len littleEndian =
     (if littleEndian then map (\<lambda>i. startBit + i) [0..<len] else motorola len startBit [])"

fun extract_loop :: "byte list \<Rightarrow> nat \<Rightarrow> nat list \<Rightarrow> 64 word \<Rightarrow> 64 word" where
  "extract_loop data i [] v = v"
| "extract_loop data i (pos # ps) v =
     (let byteIdx = pos div 8 in
      if length data \<le> byteIdx then extract_loop data (Suc i) ps v
      else let b = drop_bit (pos mod 8) (data ! byteIdx) AND 1
           in extract_loop data (Suc i) ps (v OR push_bit i (ucast b)))"

definition extractRaw :: "byte list \<Rightarrow> nat list \<Rightarrow> 64 word" where
  "extractRaw data positions = extract_loop data 0 positions 0"

fun pack_loop :: "byte list \<Rightarrow> nat \<Rightarrow> nat list \<Rightarrow> 64 word \<Rightarrow> byte list" where
  "pack_loop data i [] raw = data"
| "pack_loop data i (pos # ps) raw =
     (let byteIdx = pos div 8 in
      if length data \<le> byteIdx then pack_loop data (Suc i) ps raw
      else let b = push_bit (pos mod 8) 1;
               byte' = (if drop_bit i raw AND 1 \<noteq> 0 then data ! byteIdx OR b else data ! byteIdx AND NOT b)
           in pack_loop (data[byteIdx := byte']) (Suc i) ps raw)"

definition packRaw :: "byte list \<Rightarrow> nat list \<Rightarrow> 64 word \<Rightarrow> byte list" where
  "packRaw data positions raw = pack_loop data 0 positions raw"

text \<open>A shift count of 64 or more gives 0; \<open>uint(length-1)\<close> is such a count for length 0.\<close>

definition rawToSigned :: "64 word \<Rightarrow> nat \<Rightarrow> int64" where
  "rawToSigned raw len =
     (if 64 \<le> len then raw
      else let signBit = (if len = 0 then 0 else push_bit (len - 1) 1) in
        if raw AND signBit \<noteq> 0 then raw - push_bit len 1 else raw)"

section \<open>Signal values\<close>

definition sig_decode :: "Signal \<Rightarrow> byte list \<Rightarrow> PropertyValue" where
  "sig_decode sig data = (let raw = extractRaw data (sg_positions sig) in
     if f_eq (sg_Factor sig) (FFin 1) \<and> f_eq (sg_Offset sig) (FZero False) then
       (if sg_Signed sig then IntValue (rawToSigned raw (sg_Length sig)) else IntValue raw)
     else FloatValue (f_add (f_mul
       (if sg_Signed sig then f_of_int (sint (rawToSigned raw (sg_Length sig))) else f_of_int (uint raw))
       (sg_Factor sig)) (sg_Offset sig)))"

definition physical_of :: "PropertyValue \<Rightarrow> float64 option" where
  "physical_of v = (case pv_Float v of Some f \<Rightarrow> Some f
   | None \<Rightarrow> (case pv_Int v of Some i \<Rightarrow> Some (f_of_int (sint i))
   | None \<Rightarrow> (case pv_Bool v of Some b \<Rightarrow> Some (if b then FFin 1 else FZero False) | None \<Rightarrow> None)))"

definition sig_raw :: "(float64 \<Rightarrow> int64) \<Rightarrow> Signal \<Rightarrow> float64 \<Rightarrow> 64 word" where
  "sig_raw conv sig physical =
     (let rawF = f_div (f_sub physical (sg_Offset sig)) (sg_Factor sig);
          rawInt = f_to_int64 conv (f_Round rawF);
          msk = (if sg_Length sig < 64 then push_bit (sg_Length sig) 1 - 1 else NOT 0)
      in rawInt AND msk)"

definition sig_encode :: "(float64 \<Rightarrow> int64) \<Rightarrow> Signal \<Rightarrow> byte list \<Rightarrow> PropertyValue \<Rightarrow> fault + byte list" where
  "sig_encode conv sig data v =
     (case physical_of v of
        None \<Rightarrow> Inl opaque_fault
      | Some physical \<Rightarrow> Inr (packRaw data (sg_positions sig) (sig_raw conv sig physical)))"

text \<open>The multiplexor of a message is its first signal marked as one.\<close>

definition multiplexor :: "Message \<Rightarrow> Signal option" where
  "multiplexor msg = find sg_IsMultiplexor (msg_Signals msg)"

definition mux_value :: "Message \<Rightarrow> byte list \<Rightarrow> int option" where
  "mux_value msg data = map_option (\<lambda>m. sint (extractRaw data (sg_positions m))) (multiplexor msg)"

definition sig_active :: "Message \<Rightarrow> byte list \<Rightarrow> Signal \<Rightarrow> bool" where
  "sig_active msg data sig \<longleftrightarrow> (case sg_MuxValue sig of None \<Rightarrow> True | Some n \<Rightarrow> mux_value msg data = Some n)"

text \<open>\<open>DecodeEach\<close> as the list of its calls of \<open>fn\<close>.\<close>

definition DecodeEach :: "Message \<Rightarrow> byte list \<Rightarrow> (string \<times> PropertyValue) list" where
  "DecodeEach msg data =
     map (\<lambda>sig. (sg_Name sig, sig_decode sig data)) (filter (sig_active msg data) (msg_Signals msg))"

definition msg_Decode :: "Message \<Rightarrow> byte list \<Rightarrow> (string, PropertyValue) gomap" where
  "msg_Decode msg data = fold (\<lambda>(n, v) m. gm_put n v m) (DecodeEach msg data) []"

definition msg_signal :: "Message \<Rightarrow> string \<Rightarrow> Signal option" where
  "msg_signal msg name = find (\<lambda>s. sg_Name s = name) (msg_Signals msg)"

definition msg_Encode ::
  "(float64 \<Rightarrow> int64) \<Rightarrow> Message \<Rightarrow> byte list \<Rightarrow> string \<Rightarrow> PropertyValue \<Rightarrow> fault + byte list" where
  "msg_Encode conv msg data signalName v =
     (case msg_signal msg signalName of
        None \<Rightarrow> Inl (Fault [CanE CanErrUnknownSignal])
      | Some sig \<Rightarrow>
          (case sig_encode conv sig data v of
             Inl e \<Rightarrow> Inl e
           | Inr data' \<Rightarrow>
               (case sg_MuxValue sig of
                  None \<Rightarrow> Inr data'
                | Some n \<Rightarrow>
                    (case multiplexor msg of
                       None \<Rightarrow> Inr data'
                     | Some m \<Rightarrow> Inr (packRaw data' (sg_positions m) (word_of_int n))))))"

section \<open>Frames (frame.go)\<close>

definition canFrameSize :: nat where
  "canFrameSize = 16"

record Frame =
  fr_ID :: "32 word"
  fr_DLC :: byte
  fr_Data :: "byte list"

text \<open>\<open>binary.NativeEndian\<close>: the byte order of the machine is a parameter.\<close>

definition put_u32 :: "bool \<Rightarrow> 32 word \<Rightarrow> byte list" where
  "put_u32 bigEndian w = (let le = map (\<lambda>k. ucast (drop_bit (8 * k) w)) [0..<4] in if bigEndian then rev le else le)"

definition get_u32 :: "bool \<Rightarrow> byte list \<Rightarrow> 32 word" where
  "get_u32 bigEndian b = (let le = (if bigEndian then rev b else b)
     in ucast (le ! 0) OR push_bit 8 (ucast (le ! 1)) OR push_bit 16 (ucast (le ! 2)) OR push_bit 24 (ucast (le ! 3)))"

definition marshalFrame :: "bool \<Rightarrow> Frame \<Rightarrow> byte list" where
  "marshalFrame be f = put_u32 be (fr_ID f) @ [fr_DLC f] @ [0, 0, 0] @ take 8 (fr_Data f)"

text \<open>Slicing a buffer shorter than a frame panics (None).\<close>

definition unmarshalFrame :: "bool \<Rightarrow> byte list \<Rightarrow> Frame option" where
  "unmarshalFrame be buf =
     (if length buf < canFrameSize then None
      else Some \<lparr>fr_ID = get_u32 be (take 4 buf), fr_DLC = buf ! 4, fr_Data = take 8 (drop 8 buf)\<rparr>)"

section \<open>Bits of a payload\<close>

definition payload_bit :: "byte list \<Rightarrow> nat \<Rightarrow> bool" where
  "payload_bit data pos \<longleftrightarrow> pos div 8 < length data \<and> bit (data ! (pos div 8)) (pos mod 8)"

lemma and_one_bit: "(drop_bit n w AND 1 \<noteq> 0) = bit w n" for w :: "'a::len word"
  by (simp add: and_one_eq bit_iff_odd_drop_bit odd_iff_mod_2_eq_one)

lemma ucast_bit_one: "bit (ucast (drop_bit n b AND 1) :: 64 word) j \<longleftrightarrow> j = 0 \<and> bit b n" for b :: byte
  by (auto simp: bit_simps bit_1_iff)

lemma extract_loop_bit:
  "bit (extract_loop data i ps v) j \<longleftrightarrow>
     bit v j \<or> j < 64 \<and> i \<le> j \<and> j - i < length ps \<and> payload_bit data (ps ! (j - i))"
proof (induction ps arbitrary: i v)
  case Nil
  then show ?case by simp
next
  case (Cons pos ps)
  have "(i \<le> j \<and> j - i < length (pos # ps) \<and> payload_bit data ((pos # ps) ! (j - i))) \<longleftrightarrow>
    (j = i \<and> payload_bit data pos) \<or> (Suc i \<le> j \<and> j - Suc i < length ps \<and> payload_bit data (ps ! (j - Suc i)))"
    by (cases "j = i") (auto simp: nth_Cons' less_Suc_eq_le)
  moreover have "bit (push_bit i (ucast (drop_bit (pos mod 8) (data ! (pos div 8)) AND 1)) :: 64 word) j
    \<longleftrightarrow> j < 64 \<and> j = i \<and> bit (data ! (pos div 8)) (pos mod 8)"
    by (auto simp: bit_push_bit_iff ucast_bit_one)
  ultimately show ?case
    by (auto simp: Cons.IH Let_def bit_or_iff payload_bit_def)
qed

lemma extractRaw_bit:
  "bit (extractRaw data ps) j \<longleftrightarrow> j < 64 \<and> j < length ps \<and> payload_bit data (ps ! j)"
  by (simp add: extractRaw_def extract_loop_bit)

lemma pack_loop_length [simp]: "length (pack_loop data i ps raw) = length data"
  by (induction ps arbitrary: data i) (simp_all add: Let_def)

lemma packRaw_length [simp]: "length (packRaw data ps raw) = length data"
  by (simp add: packRaw_def)

text \<open>Writing one bit changes that bit only.\<close>

lemma payload_bit_write [simp]:
  assumes "pos div 8 < length data"
  shows "payload_bit (data[pos div 8 := data ! (pos div 8) OR 2 ^ (pos mod 8)]) p \<longleftrightarrow> p = pos \<or> payload_bit data p"
    and "payload_bit (data[pos div 8 := data ! (pos div 8) AND NOT (2 ^ (pos mod 8))]) p \<longleftrightarrow> p \<noteq> pos \<and> payload_bit data p"
proof -
  have eq: "p = pos \<longleftrightarrow> p mod 8 = pos mod 8" if "p div 8 = pos div 8"
    using that by (metis div_mult_mod_eq)
  show "payload_bit (data[pos div 8 := data ! (pos div 8) OR 2 ^ (pos mod 8)]) p \<longleftrightarrow> p = pos \<or> payload_bit data p"
    using assms eq by (cases "p div 8 = pos div 8") (auto simp: payload_bit_def bit_simps)
  show "payload_bit (data[pos div 8 := data ! (pos div 8) AND NOT (2 ^ (pos mod 8))]) p \<longleftrightarrow> p \<noteq> pos \<and> payload_bit data p"
    using assms eq by (cases "p div 8 = pos div 8") (auto simp: payload_bit_def bit_simps)
qed

lemma pack_loop_other:
  "p \<notin> set ps \<Longrightarrow> payload_bit (pack_loop data i ps raw) p = payload_bit data p"
  by (induction ps arbitrary: data i) (auto simp: Let_def not_le)

lemma pack_loop_at:
  assumes "distinct ps" and "k < length ps" and "ps ! k div 8 < length data"
  shows "payload_bit (pack_loop data i ps raw) (ps ! k) = bit raw (i + k)"
  using assms
proof (induction ps arbitrary: data i k)
  case Nil
  then show ?case by simp
next
  case (Cons pos ps)
  show ?case
  proof (cases k)
    case 0
    have "pos \<notin> set ps" "pos div 8 < length data" using Cons.prems 0 by auto
    then show ?thesis
      using 0 by (simp add: Let_def pack_loop_other and_one_bit not_le)
  next
    case (Suc m)
    with Cons.prems have "distinct ps" "m < length ps" "ps ! m div 8 < length data" by auto
    with Cons.IH show ?thesis by (simp add: Suc Let_def)
  qed
qed

lemma packRaw_other: "p \<notin> set ps \<Longrightarrow> payload_bit (packRaw data ps raw) p = payload_bit data p"
  by (simp add: packRaw_def pack_loop_other)

lemma packRaw_at:
  "distinct ps \<Longrightarrow> k < length ps \<Longrightarrow> ps ! k div 8 < length data \<Longrightarrow>
   payload_bit (packRaw data ps raw) (ps ! k) = bit raw k"
  by (simp add: packRaw_def pack_loop_at [where i = 0, simplified])

text \<open>The positions of a signal fit a payload.\<close>

definition fits :: "nat \<Rightarrow> nat list \<Rightarrow> bool" where
  "fits n ps \<longleftrightarrow> distinct ps \<and> (\<forall>p \<in> set ps. p < 8 * n)"

lemma extract_pack:
  assumes "fits (length data) ps"
  shows "extractRaw (packRaw data ps raw) ps = take_bit (length ps) raw"
proof (rule bit_word_eqI)
  fix j assume "j < LENGTH(64)"
  moreover have "j < length ps \<Longrightarrow> ps ! j div 8 < length data"
    using assms by (simp add: fits_def less_mult_imp_div_less mult.commute)
  ultimately show "bit (extractRaw (packRaw data ps raw) ps) j \<longleftrightarrow> bit (take_bit (length ps) raw) j"
    using assms by (auto simp: extractRaw_bit packRaw_at fits_def bit_take_bit_iff)
qed

lemma extract_pack_disjoint:
  assumes "set ps \<inter> set qs = {}"
  shows "extractRaw (packRaw data ps raw) qs = extractRaw data qs"
proof (rule bit_word_eqI)
  fix j assume "j < LENGTH(64)"
  have "j < length qs \<Longrightarrow> qs ! j \<notin> set ps"
    using assms by (meson disjoint_iff nth_mem)
  then show "bit (extractRaw (packRaw data ps raw) qs) j \<longleftrightarrow> bit (extractRaw data qs) j"
    by (auto simp: extractRaw_bit packRaw_other)
qed

section \<open>Bit positions\<close>

text \<open>
  The physical order of Motorola signals numbers the bits of a payload from the most
  significant bit of byte 0 to the least significant bit of the last byte.
\<close>

definition physical :: "nat \<Rightarrow> nat" where
  "physical pos = 8 * (pos div 8) + (7 - pos mod 8)"

lemma div8: "r < 8 \<Longrightarrow> (8 * q + r) div 8 = q" and mod8: "r < 8 \<Longrightarrow> (8 * q + r) mod 8 = r" for q r :: nat
  by simp_all

lemma physical_div [simp]: "physical p div 8 = p div 8"
  unfolding physical_def by (rule div8) simp

lemma physical_mod [simp]: "physical p mod 8 = 7 - p mod 8"
  unfolding physical_def by (rule mod8) simp

lemma physical_physical [simp]: "physical (physical p) = p"
proof -
  have "7 - (7 - p mod 8) = p mod 8"
    using mod_less_divisor [of 8 p] by arith
  then show ?thesis
    by (simp add: physical_def [of "physical p"])
qed

lemma physical_next: "physical (next_pos p) = Suc (physical p)"
proof -
  define q r where "q = p div 8" and "r = p mod 8"
  have p: "p = 8 * q + r" and r: "r < 8" by (auto simp: q_def r_def)
  show ?thesis
  proof (cases "r = 0")
    case True
    then have "next_pos p = 8 * (q + 1) + 7" by (simp add: next_pos_def p)
    then have "next_pos p div 8 = q + 1" "next_pos p mod 8 = 7" using div8 [of 7 "q + 1"] mod8 [of 7 "q + 1"] by simp_all
    with True show ?thesis by (simp add: physical_def p)
  next
    case False
    then have "next_pos p = 8 * q + (r - 1)" using r by (simp add: next_pos_def p)
    then have "next_pos p div 8 = q" "next_pos p mod 8 = r - 1" using div8 [of "r - 1" q] mod8 [of "r - 1" q] r by simp_all
    with False r show ?thesis by (simp add: physical_def p)
  qed
qed

lemma physical_bound: "physical p < 8 * n \<longleftrightarrow> p < 8 * n"
  by (metis physical_div div_less_iff_less_mult mult.commute zero_less_numeral)

lemma motorola_eq: "motorola n p acc = rev (map (\<lambda>k. physical (physical p + k)) [0..<n]) @ acc"
proof (induction n arbitrary: p acc)
  case 0
  then show ?case by simp
next
  case (Suc n)
  have "map (\<lambda>k. physical (physical p + k)) [0..<Suc n] = p # map (\<lambda>k. physical (physical (next_pos p) + k)) [0..<n]"
    by (simp add: upt_conv_Cons map_Suc_upt [symmetric] physical_next comp_def del: upt_Suc)
  then show ?case using Suc.IH by simp
qed

lemma bitPositions_length [simp]: "length (bitPositions s n le) = n"
  by (simp add: bitPositions_def motorola_eq)

lemma bitPositions_nth:
  "i < n \<Longrightarrow> bitPositions s n le ! i = (if le then s + i else physical (physical s + (n - 1 - i)))"
  by (simp add: bitPositions_def motorola_eq rev_nth)

lemma bitPositions_distinct: "distinct (bitPositions s n le)"
proof -
  have "inj (\<lambda>k. physical (physical s + k))"
    by (rule injI) (metis physical_physical add_left_cancel)
  then show ?thesis
    by (auto simp: bitPositions_def motorola_eq distinct_map inj_on_def)
qed

definition last_pos :: "nat \<Rightarrow> nat \<Rightarrow> bool \<Rightarrow> nat" where
  "last_pos s n le = (if le then s else physical s) + n"

lemma bitPositions_fits: "fits b (bitPositions s n le) \<longleftrightarrow> n = 0 \<or> last_pos s n le \<le> 8 * b"
proof -
  have "(\<forall>p \<in> set (bitPositions s n le). p < 8 * b) \<longleftrightarrow> (\<forall>k < n. (if le then s else physical s) + k < 8 * b)"
    by (auto simp: bitPositions_def motorola_eq physical_bound image_iff simp del: image_add_atLeastLessThan image_add_atLeastLessThan')
  also have "\<dots> \<longleftrightarrow> n = 0 \<or> last_pos s n le \<le> 8 * b"
    by (cases n) (auto simp: last_pos_def less_Suc_eq_le Suc_le_eq)
  finally show ?thesis by (simp add: fits_def bitPositions_distinct)
qed

section \<open>Two's complement and integral floats\<close>

lemma rawToSigned_eq:
  assumes "1 \<le> n" and "n \<le> 64"
  shows "rawToSigned (take_bit n w) n = signed_take_bit (n - 1) w"
proof (cases "n = 64")
  case True
  then show ?thesis
    by (intro bit_word_eqI) (auto simp: rawToSigned_def bit_simps min_def le_Suc_eq not_less_eq dest: le_antisym)
next
  case False
  obtain m where m: "n = Suc m" using assms(1) by (cases n) auto
  have "take_bit n w AND push_bit m 1 \<noteq> 0 \<longleftrightarrow> bit w m"
    using False assms m by (auto simp: and_exp_eq_0_iff_not_bit bit_take_bit_iff)
  moreover have "signed_take_bit m w = (if bit w m then take_bit n w - push_bit n 1 else take_bit n w)"
    by (simp add: signed_take_bit_code m bit_take_bit_iff Let_def minus_exp_eq_not_mask [symmetric])
  ultimately show ?thesis
    using False assms m by (auto simp: rawToSigned_def Let_def)
qed

lemma round_half_away_int [simp]: "round_half_away (of_int n) = n"
proof -
  have "\<lfloor>of_int k + 1 / 2 :: rat\<rfloor> = k" for k by (simp add: floor_unique)
  from this [of n] this [of "- n"] show ?thesis by (simp add: round_half_away_def)
qed

lemma trunc_rat_int [simp]: "trunc_rat (of_int n) = n"
  by (simp add: trunc_rat_def flip: of_int_minus)

lemma f_to_int64_int:
  "n \<noteq> 0 \<Longrightarrow> - (2 ^ 63) \<le> n \<Longrightarrow> n < 2 ^ 63 \<Longrightarrow> f_to_int64 conv (f_Round (FFin (of_int n))) = of_int n"
  by (simp add: f_to_int64_def)

lemma f_eq_zero: "f_eq x (FZero False) \<longleftrightarrow> (\<exists>s. x = FZero s)"
  by (cases x) (auto simp: f_eq_def)

lemma f_eq_one: "f_eq x (FFin 1) \<longleftrightarrow> x = FFin 1"
  by (cases x) (auto simp: f_eq_def)

lemma signal_mask:
  fixes w :: "64 word"
  assumes "l \<le> 64"
  shows "w AND (if l < 64 then push_bit l 1 - 1 else NOT 0) = take_bit l w"
proof (cases "l < 64")
  case True
  then show ?thesis by (simp add: take_bit_eq_mask mask_eq_exp_minus_1)
next
  case False
  with assms show ?thesis
    by (intro bit_word_eqI) (auto simp: bit_take_bit_iff)
qed

text \<open>With factor 1 and offset 0 an integer of at most 53 bits is encoded as itself.\<close>

lemma sig_raw_int:
  assumes "f_eq (sg_Factor sig) (FFin 1)" and "f_eq (sg_Offset sig) (FZero False)" and "\<bar>n\<bar> \<le> 2 ^ 53"
    and "sg_Length sig \<le> 64"
  shows "sig_raw conv sig (f_of_int n) = take_bit (sg_Length sig) (of_int n)"
proof -
  obtain s where off: "sg_Offset sig = FZero s" and fac: "sg_Factor sig = FFin 1"
    using assms(1,2) by (auto simp: f_eq_zero f_eq_one)
  have rnd: "n \<noteq> 0 \<Longrightarrow> frnd z (of_int n) = FFin (of_int n)" for z
    using f_of_int_exact [OF _ assms(3)] by (simp add: f_of_int_def frnd_def)
  have "f_to_int64 conv (f_Round (f_div (f_sub (f_of_int n) (FZero s)) (FFin 1))) = of_int n"
  proof (cases "n = 0")
    case True
    then show ?thesis by (simp add: f_sub_def f_div_def frnd_def f_to_int64_def)
  next
    case False
    then have "f_div (f_sub (f_of_int n) (FZero s)) (FFin 1) = FFin (of_int n)"
      by (simp add: f_of_int_def rnd f_sub_def f_div_def)
    moreover have "- (2 ^ 63) \<le> n" "n < 2 ^ 63" using assms(3) by auto
    ultimately show ?thesis using f_to_int64_int [OF False] by (simp del: f_Round.simps)
  qed
  then show ?thesis
    using assms(4) by (simp add: sig_raw_def Let_def off fac signal_mask del: push_bit_of_1)
qed

section \<open>Round trips\<close>

text \<open>A signal as the parser builds it, within a payload of \<open>n\<close> bytes.\<close>

definition sig_ok :: "nat \<Rightarrow> Signal \<Rightarrow> bool" where
  "sig_ok n sig \<longleftrightarrow> 1 \<le> sg_Length sig \<and> sg_Length sig \<le> 64 \<and>
     sg_positions sig = bitPositions (sg_StartBit sig) (sg_Length sig) (sg_LittleEndian sig) \<and>
     last_pos (sg_StartBit sig) (sg_Length sig) (sg_LittleEndian sig) \<le> 8 * n"

definition sig_range :: "Signal \<Rightarrow> int \<Rightarrow> bool" where
  "sig_range sig n \<longleftrightarrow> (if sg_Signed sig then - (2 ^ (sg_Length sig - 1)) \<le> n \<and> n < 2 ^ (sg_Length sig - 1)
     else 0 \<le> n \<and> n < 2 ^ sg_Length sig)"

definition sig_integral :: "Signal \<Rightarrow> bool" where
  "sig_integral sig \<longleftrightarrow> f_eq (sg_Factor sig) (FFin 1) \<and> f_eq (sg_Offset sig) (FZero False)"

definition sig_apart :: "Signal \<Rightarrow> Signal \<Rightarrow> bool" where
  "sig_apart s t \<longleftrightarrow> set (sg_positions s) \<inter> set (sg_positions t) = {}"

lemma sig_ok_fits: "sig_ok n sig \<Longrightarrow> fits n (sg_positions sig)"
  by (simp add: sig_ok_def bitPositions_fits)

lemma sig_ok_length: "sig_ok n sig \<Longrightarrow> length (sg_positions sig) = sg_Length sig"
  by (simp add: sig_ok_def)

lemma decode_apart: "sig_apart s t \<Longrightarrow> sig_decode t (packRaw data (sg_positions s) raw) = sig_decode t data"
  by (simp add: sig_apart_def sig_decode_def extract_pack_disjoint)

lemma signed_take_bit_word_of_int:
  "n < 64 \<Longrightarrow> signed_take_bit n (word_of_int k :: 64 word) = word_of_int (signed_take_bit n k)"
  by (intro bit_word_eqI) (auto simp: bit_simps)

lemma decode_packed_int:
  assumes "sig_ok (length data) sig" and "sig_integral sig" and "sig_range sig (sint i)"
  shows "sig_decode sig (packRaw data (sg_positions sig) (take_bit (sg_Length sig) i)) = IntValue i"
proof -
  let ?n = "sg_Length sig"
  have n: "1 \<le> ?n" "?n \<le> 64" using assms(1) by (simp_all add: sig_ok_def)
  have raw: "extractRaw (packRaw data (sg_positions sig) (take_bit ?n i)) (sg_positions sig) = take_bit ?n i"
    using extract_pack [OF sig_ok_fits [OF assms(1)]] sig_ok_length [OF assms(1)] by simp
  show ?thesis
  proof (cases "sg_Signed sig")
    case True
    with assms(3) have "signed_take_bit (?n - 1) (sint i) = sint i"
      by (intro signed_take_bit_int_eq_self) (simp_all add: sig_range_def)
    then have "signed_take_bit (?n - 1) i = i"
      using n signed_take_bit_word_of_int [of "?n - 1" "sint i"] by simp
    with True assms(2) n show ?thesis
      by (simp add: sig_decode_def Let_def raw rawToSigned_eq sig_integral_def)
  next
    case False
    with assms(3) have "take_bit ?n (sint i) = sint i"
      by (simp add: sig_range_def take_bit_int_eq_self)
    then have "take_bit ?n i = i"
      using take_bit_of_int [of ?n "sint i", where 'a = "64 word"] by simp
    then show ?thesis
      using False assms(2) raw by (simp add: sig_decode_def Let_def sig_integral_def)
  qed
qed

lemma encode_int:
  assumes "sig_ok n sig" and "sig_integral sig" and "\<bar>sint i\<bar> \<le> 2 ^ 53"
  shows "sig_encode conv sig data (IntValue i) = Inr (packRaw data (sg_positions sig) (take_bit (sg_Length sig) i))"
proof -
  have "sg_Length sig \<le> 64" using assms(1) by (simp add: sig_ok_def)
  then have "sig_raw conv sig (f_of_int (sint i)) = take_bit (sg_Length sig) i"
    using sig_raw_int [of sig "sint i" conv] assms(2,3) by (simp add: sig_integral_def)
  then show ?thesis
    by (simp add: sig_encode_def physical_of_def value_ctor_defs)
qed



text \<open>C8. Writing an integral signal and reading it back gives the integer written, for every
  integer of at most 53 bits in the signal's range, in both byte orders, signed and
  unsigned; every signal on other bits of the payload reads as before.\<close>

theorem signal_roundtrip:
  assumes "sig_ok (length data) sig" and "sig_integral sig" and "sig_range sig (sint i)" and "\<bar>sint i\<bar> \<le> 2 ^ 53"
  shows "\<exists>data'. sig_encode conv sig data (IntValue i) = Inr data' \<and> length data' = length data \<and>
    sig_decode sig data' = IntValue i \<and> (\<forall>t. sig_apart sig t \<longrightarrow> sig_decode t data' = sig_decode t data)"
proof -
  have "sig_encode conv sig data (IntValue i) = Inr (packRaw data (sg_positions sig) (take_bit (sg_Length sig) i))"
    using encode_int [OF assms(1,2,4)] .
  then show ?thesis
    using decode_packed_int [OF assms(1-3)] decode_apart by auto
qed

definition demo_signal :: Signal where
  "demo_signal = \<lparr>sg_Name = ''Torque'', sg_StartBit = 7, sg_Length = 12, sg_LittleEndian = False, sg_Signed = True,
     sg_Factor = FFin 1, sg_Offset = FZero False, sg_Unit = [], sg_IsMultiplexor = False, sg_MuxValue = None,
     sg_positions = bitPositions 7 12 False\<rparr>"

theorem signal_roundtrip_witness:
  "\<exists>data'. sig_encode (\<lambda>_. 0) demo_signal (replicate 8 0) (IntValue (- 5)) = Inr data' \<and> sig_decode demo_signal data' = IntValue (- 5)"
proof -
  have "sig_ok (length (replicate 8 (0 :: byte))) demo_signal" "sig_integral demo_signal"
    by (simp_all add: sig_ok_def demo_signal_def last_pos_def physical_def sig_integral_def f_eq_def)
  moreover have "sig_range demo_signal (sint (- 5 :: int64))" "\<bar>sint (- 5 :: int64)\<bar> \<le> 2 ^ 53"
    by (simp_all add: sig_range_def demo_signal_def)
  ultimately show ?thesis
    using signal_roundtrip [of "replicate 8 0" demo_signal "- 5" "\<lambda>_. 0"] by blast
qed

text \<open>
  Beyond 53 bits the conversion to \<open>float64\<close> loses the integer: a full-width integral
  signal set to 2 to the 53 plus 1 reads back one less.
\<close>

definition wide_signal :: Signal where
  "wide_signal = demo_signal\<lparr>sg_StartBit := 0, sg_Length := 64, sg_LittleEndian := True, sg_positions := bitPositions 0 64 True\<rparr>"

lemma wide_integer_lost:
  "\<exists>data'. sig_encode conv wide_signal (replicate 8 0) (IntValue 9007199254740993) = Inr data' \<and>
     sig_decode wide_signal data' = IntValue 9007199254740992"
proof -
  have "f_of_int (sint (9007199254740993 :: int64)) = f_of_int 9007199254740992"
    using f_of_int_rounds f_of_int_exact [of 9007199254740992] by simp
  moreover have "sig_raw conv wide_signal (f_of_int 9007199254740992) = take_bit 64 9007199254740992"
    using sig_raw_int [of wide_signal 9007199254740992 conv] by (simp add: wide_signal_def demo_signal_def f_eq_def)
  ultimately have enc: "sig_encode conv wide_signal (replicate 8 0) (IntValue 9007199254740993) =
      Inr (packRaw (replicate 8 0) (sg_positions wide_signal) (take_bit 64 9007199254740992))"
    by (simp add: sig_encode_def physical_of_def value_ctor_defs)
  have "sig_ok 8 wide_signal" "sig_integral wide_signal" "sig_range wide_signal (sint (9007199254740992 :: int64))"
    by (simp_all add: sig_ok_def wide_signal_def demo_signal_def last_pos_def sig_integral_def f_eq_def sig_range_def)
  then show ?thesis
    using enc decode_packed_int [of "replicate 8 0" wide_signal 9007199254740992] by (simp add: wide_signal_def)
qed

section \<open>Frames on the wire\<close>

lemma get_put_u32 [simp]: "get_u32 be (put_u32 be w) = w"
proof -
  have "ucast (ucast w :: byte) OR push_bit 8 (ucast (ucast (drop_bit 8 w) :: byte)) OR
      push_bit 16 (ucast (ucast (drop_bit 16 w) :: byte)) OR push_bit 24 (ucast (ucast (drop_bit 24 w) :: byte)) = w"
    (is "?u = w")
  proof (rule bit_word_eqI)
    fix n assume "n < LENGTH(32)"
    then consider "n < 8" | "8 \<le> n \<and> n < 16" | "16 \<le> n \<and> n < 24" | "24 \<le> n \<and> n < 32" by force
    then show "bit ?u n = bit w n" by cases (auto simp: bit_simps)
  qed
  then show ?thesis
    by (simp add: get_u32_def put_u32_def Let_def upt_rec [of _ "4 :: nat"])
qed

lemma put_u32_length [simp]: "length (put_u32 be w) = 4"
  by (simp add: put_u32_def Let_def)

text \<open>A frame written in the SocketCAN wire format is sixteen bytes and reads back as itself,
  in either machine byte order.\<close>

theorem frame_roundtrip:
  assumes "length (fr_Data f) = 8"
  shows "length (marshalFrame be f) = canFrameSize \<and> unmarshalFrame be (marshalFrame be f) = Some f"
proof -
  have "marshalFrame be f ! 4 = fr_DLC f" "drop 8 (marshalFrame be f) = fr_Data f"
    using assms by (simp_all add: marshalFrame_def nth_append)
  with assms show ?thesis
    by (simp add: unmarshalFrame_def canFrameSize_def) (simp add: marshalFrame_def)
qed

theorem frame_roundtrip_witness:
  "unmarshalFrame False (marshalFrame False \<lparr>fr_ID = 0x80000123, fr_DLC = 8, fr_Data = [1, 2, 3, 4, 5, 6, 7, 8]\<rparr>)
     = Some \<lparr>fr_ID = 0x80000123, fr_DLC = 8, fr_Data = [1, 2, 3, 4, 5, 6, 7, 8]\<rparr>"
  by (rule frame_roundtrip [THEN conjunct2]) simp

end
