(* ===== verification/Can_Adapter.thy ===== *)
theory Can_Adapter
  imports Can_Codec
begin

text \<open>
  The CAN adapter of \<open>internal/adapters/can/adapter.go\<close>: the cache of decoded values
  and raw frames, the index of watched devices, reads, writes and the read loop. The socket
  is a parameter: \<open>wr\<close> is the result of \<open>WriteFrame\<close>, and the read loop takes the
  results of its successive \<open>ReadFrame\<close> calls. The calls of \<open>onUpdate\<close> an operation
  makes are returned in order; the order among the watchers of one signal is the map's,
  which Go leaves open. Decoding cannot panic in this model, so \<open>handleFrame\<close> is
  \<open>processFrame\<close>.
\<close>

section \<open>State and operations\<close>

definition LabelMessage :: string where
  "LabelMessage = ''can.message''"

record CanAdapter =
  ca_db :: Database
  ca_onUpdate :: bool
  ca_sock :: bool
  ca_values :: "(string, PropertyValue) gomap"
  ca_frames :: "(32 word, Frame) gomap"
  ca_watched :: "(string, Device) gomap"
  ca_watchedByMessage :: "(string, (string, Device) gomap) gomap"
  ca_lastReadErr :: "fault option"
  ca_done :: bool

definition ca_New :: "Database \<Rightarrow> bool \<Rightarrow> CanAdapter" where
  "ca_New db onUpdate = \<lparr>ca_db = db, ca_onUpdate = onUpdate, ca_sock = False, ca_values = [], ca_frames = [],
     ca_watched = [], ca_watchedByMessage = [], ca_lastReadErr = None, ca_done = False\<rparr>"

text \<open>\<open>sock\<close> is the result of \<open>openSocket\<close>; the read loop starts when it succeeds.\<close>

definition ca_Open :: "fault option \<Rightarrow> CanAdapter \<Rightarrow> CanAdapter \<times> fault option" where
  "ca_Open sock a = (case sock of Some e \<Rightarrow> (a, Some e) | None \<Rightarrow> (a\<lparr>ca_sock := True\<rparr>, None))"

definition ca_Close :: "fault option \<Rightarrow> CanAdapter \<Rightarrow> CanAdapter \<times> fault option" where
  "ca_Close sockClose a = (a\<lparr>ca_sock := False, ca_done := True\<rparr>, if ca_sock a then sockClose else None)"

definition ca_Healthy :: "CanAdapter \<Rightarrow> bool" where
  "ca_Healthy a \<longleftrightarrow> ca_lastReadErr a = None"

text \<open>\<open>a.watchedByMessage[name]\<close>, a missing entry being a nil map.\<close>

definition bucket_of :: "CanAdapter \<Rightarrow> string \<Rightarrow> (string, Device) gomap" where
  "bucket_of a m = (case gm_get (ca_watchedByMessage a) m of None \<Rightarrow> [] | Some b \<Rightarrow> b)"

definition drop_old :: "CanAdapter \<Rightarrow> string \<Rightarrow> string \<Rightarrow> (string, (string, Device) gomap) gomap" where
  "drop_old a dID msgName =
     (case gm_get (ca_watched a) dID of
        None \<Rightarrow> ca_watchedByMessage a
      | Some old \<Rightarrow>
          (let oldMsg = label_at old LabelMessage in
           if oldMsg = msgName then ca_watchedByMessage a
           else case gm_get (ca_watchedByMessage a) oldMsg of
                  None \<Rightarrow> ca_watchedByMessage a
                | Some b \<Rightarrow> gm_put oldMsg (gm_del dID b) (ca_watchedByMessage a)))"

definition ca_WatchDevice :: "Device \<Rightarrow> CanAdapter \<Rightarrow> CanAdapter \<times> fault option" where
  "ca_WatchDevice d a =
     (let msgName = label_at d LabelMessage in
      if msgName = [] then (a, Some (Fault [CanE CanErrMissingLabel]))
      else if MessageByName (ca_db a) msgName = None then (a, Some (Fault [CanE CanErrUnknownMessage]))
      else let a1 = a\<lparr>ca_watchedByMessage := drop_old a (dev_ID d) msgName, ca_watched := gm_put (dev_ID d) d (ca_watched a)\<rparr>
           in (a1\<lparr>ca_watchedByMessage := gm_put msgName (gm_put (dev_ID d) d (bucket_of a1 msgName)) (ca_watchedByMessage a1)\<rparr>, None))"

definition ca_resolve :: "CanAdapter \<Rightarrow> Device \<Rightarrow> string \<Rightarrow> fault + Message \<times> Signal" where
  "ca_resolve a d path =
     (let msgName = label_at d LabelMessage in
      if msgName = [] then Inl (Fault [CanE CanErrMissingLabel])
      else case MessageByName (ca_db a) msgName of
        None \<Rightarrow> Inl (Fault [CanE CanErrUnknownMessage])
      | Some msg \<Rightarrow>
          (case msg_signal msg path of
             None \<Rightarrow> Inl (Fault [CanE CanErrUnknownSignal])
           | Some sig \<Rightarrow> Inr (msg, sig)))"

definition value_key :: "Message \<Rightarrow> string \<Rightarrow> string" where
  "value_key msg path = msg_Name msg @ ''/'' @ path"

definition ca_ReadProperty :: "fault option \<Rightarrow> CanAdapter \<Rightarrow> Device \<Rightarrow> string \<Rightarrow> fault + PropertyValue" where
  "ca_ReadProperty ctxErr a d path =
     (case ctxErr of Some e \<Rightarrow> Inl e | None \<Rightarrow>
      (case ca_resolve a d path of
         Inl e \<Rightarrow> Inl e
       | Inr (msg, sig) \<Rightarrow>
           (case gm_get (ca_values a) (value_key msg path) of
              None \<Rightarrow> Inl (Fault [CanE CanErrNoFrameYet])
            | Some v \<Rightarrow> Inr v)))"

type_synonym can_event = "string \<times> string \<times> PropertyValue"

definition cache_values :: "Message \<Rightarrow> byte list \<Rightarrow> (string, PropertyValue) gomap \<Rightarrow> (string, PropertyValue) gomap" where
  "cache_values msg data vs = fold (\<lambda>(name, v) m. gm_put (value_key msg name) v m) (DecodeEach msg data) vs"

definition ca_processFrame :: "Frame \<Rightarrow> CanAdapter \<Rightarrow> CanAdapter \<times> can_event list" where
  "ca_processFrame frame a =
     (case MessageByID (ca_db a) (fr_ID frame) of
        None \<Rightarrow> (a, [])
      | Some msg \<Rightarrow>
          (let a' = a\<lparr>ca_frames := gm_put (msg_ID msg) frame (ca_frames a),
                      ca_values := cache_values msg (fr_Data frame) (ca_values a)\<rparr>;
               watchers = map snd (bucket_of a (msg_Name msg))
           in if \<not> ca_onUpdate a \<or> watchers = [] then (a', [])
              else (a', concat (map (\<lambda>(name, v). map (\<lambda>d. (dev_ID d, name, v)) watchers)
                                 (DecodeEach msg (fr_Data frame))))))"

text \<open>The frame a write starts from: the last one seen, or an empty payload.\<close>

definition base_frame :: "CanAdapter \<Rightarrow> Message \<Rightarrow> Frame" where
  "base_frame a msg = (case gm_get (ca_frames a) (msg_ID msg) of
     Some f \<Rightarrow> f | None \<Rightarrow> \<lparr>fr_ID = msg_ID msg, fr_DLC = msg_DLC msg, fr_Data = replicate 8 0\<rparr>)"

text \<open>The checks of \<open>WriteProperty\<close> before it takes the message's write lock, and its body under the lock.\<close>

definition write_guard :: "fault option \<Rightarrow> CanAdapter \<Rightarrow> Device \<Rightarrow> string \<Rightarrow> fault + Message" where
  "write_guard ctxErr a d path =
     (case ctxErr of Some e \<Rightarrow> Inl e | None \<Rightarrow>
      (case ca_resolve a d path of
         Inl e \<Rightarrow> Inl e
       | Inr (msg, _) \<Rightarrow> if ca_sock a then Inr msg else Inl (Fault [CanE CanErrNotOpen])))"

definition write_from ::
  "(float64 \<Rightarrow> int64) \<Rightarrow> (Frame \<Rightarrow> fault option) \<Rightarrow> Message \<Rightarrow> Frame \<Rightarrow> string \<Rightarrow> PropertyValue \<Rightarrow> CanAdapter
     \<Rightarrow> CanAdapter \<times> can_event list \<times> fault option" where
  "write_from conv wr msg frame path v a =
     (case msg_Encode conv msg (fr_Data frame) path v of
        Inl e \<Rightarrow> (a, [], Some e)
      | Inr data \<Rightarrow>
          (let frame' = frame\<lparr>fr_Data := data\<rparr> in
           case wr frame' of
             Some e \<Rightarrow> (a, [], Some e)
           | None \<Rightarrow> (case ca_processFrame frame' a of (a', evs) \<Rightarrow> (a', evs, None))))"

definition ca_WriteProperty ::
  "(float64 \<Rightarrow> int64) \<Rightarrow> (Frame \<Rightarrow> fault option) \<Rightarrow> fault option \<Rightarrow> Device \<Rightarrow> string \<Rightarrow> PropertyValue \<Rightarrow> CanAdapter
     \<Rightarrow> CanAdapter \<times> can_event list \<times> fault option" where
  "ca_WriteProperty conv wr ctxErr d path v a =
     (case write_guard ctxErr a d path of
        Inl e \<Rightarrow> (a, [], Some e)
      | Inr msg \<Rightarrow> write_from conv wr msg (base_frame a msg) path v a)"

text \<open>
  One round of the read loop: whether \<open>done\<close> is closed when the round starts, what
  \<open>ReadFrame\<close> returns, and whether \<open>done\<close> is closed when an error is looked at.
\<close>

datatype read_result = ReadFrame Frame | ReadTimeout | ReadError fault

text \<open>
  The Linux socket: what the \<open>read\<close> and \<open>write\<close> system calls return, a timed-out read being
  \<open>EAGAIN\<close>. \<open>be\<close> is the byte order of the machine.
\<close>

datatype sys_read = SysAgain | SysError fault | SysBytes "byte list"

definition sock_ReadFrame :: "bool \<Rightarrow> sys_read \<Rightarrow> read_result" where
  "sock_ReadFrame be r =
     (case r of
        SysAgain \<Rightarrow> ReadTimeout
      | SysError e \<Rightarrow> ReadError e
      | SysBytes buf \<Rightarrow>
          if length buf \<noteq> canFrameSize then ReadError opaque_fault
          else (case unmarshalFrame be buf of None \<Rightarrow> ReadError opaque_fault | Some f \<Rightarrow> ReadFrame f))"

definition sock_WriteFrame :: "bool \<Rightarrow> (byte list \<Rightarrow> fault + nat) \<Rightarrow> Frame \<Rightarrow> fault option" where
  "sock_WriteFrame be write f =
     (case write (marshalFrame be f) of
        Inl e \<Rightarrow> Some e
      | Inr n \<Rightarrow> if n \<noteq> canFrameSize then Some opaque_fault else None)"

fun ca_readLoop :: "(bool \<times> read_result \<times> bool) list \<Rightarrow> CanAdapter \<Rightarrow> CanAdapter \<times> can_event list" where
  "ca_readLoop [] a = (a, [])"
| "ca_readLoop ((done, r, done') # rs) a =
     (if done then (a, [])
      else case r of
        ReadFrame f \<Rightarrow>
          (case ca_processFrame f a of (a1, evs) \<Rightarrow>
             (case ca_readLoop rs a1 of (a2, evs') \<Rightarrow> (a2, evs @ evs')))
      | ReadTimeout \<Rightarrow> ca_readLoop rs a
      | ReadError e \<Rightarrow> if done' then (a, []) else (a\<lparr>ca_lastReadErr := Some e\<rparr>, []))"

text \<open>The bytes that one socket sends for a frame are read by another as that frame.\<close>

lemma socket_roundtrip:
  assumes "length (fr_Data f) = 8" and "\<And>buf. write buf = Inr (length buf)"
  shows "sock_WriteFrame be write f = None \<and> sock_ReadFrame be (SysBytes (marshalFrame be f)) = ReadFrame f"
  using frame_roundtrip [OF assms(1), of be] assms(2) by (simp add: sock_WriteFrame_def sock_ReadFrame_def)

section \<open>Well-formed databases\<close>

text \<open>
  What the parser builds from a file whose messages have distinct IDs and names: the two maps
  agree, names are words (no slash), signal names are distinct within a message.
\<close>

definition db_ok :: "Database \<Rightarrow> bool" where
  "db_ok db \<longleftrightarrow>
     (\<forall>i m. MessageByID db i = Some m \<longrightarrow> msg_ID m = i \<and> MessageByName db (msg_Name m) = Some m) \<and>
     (\<forall>n m. MessageByName db n = Some m \<longrightarrow> msg_Name m = n \<and> MessageByID db (msg_ID m) = Some m \<and>
        CHR ''/'' \<notin> set n \<and> distinct (map sg_Name (msg_Signals m)))"

lemma db_ok_ID: "db_ok db \<Longrightarrow> MessageByID db i = Some m \<Longrightarrow> msg_ID m = i \<and> MessageByName db (msg_Name m) = Some m"
  by (simp add: db_ok_def)

lemma db_ok_Name:
  "db_ok db \<Longrightarrow> MessageByName db n = Some m \<Longrightarrow>
     msg_Name m = n \<and> MessageByID db (msg_ID m) = Some m \<and> CHR ''/'' \<notin> set n \<and> distinct (map sg_Name (msg_Signals m))"
  by (simp add: db_ok_def)

lemma value_key_inj:
  assumes "CHR ''/'' \<notin> set (msg_Name m)" and "CHR ''/'' \<notin> set (msg_Name m')"
  shows "value_key m p = value_key m' p' \<longleftrightarrow> msg_Name m = msg_Name m' \<and> p = p'"
proof
  assume "value_key m p = value_key m' p'"
  then have "Cut (value_key m p) ''/'' = Cut (value_key m' p') ''/''" by simp
  with assms show "msg_Name m = msg_Name m' \<and> p = p'"
    using Cut_first [of "CHR ''/''" "msg_Name m" "[]" p] Cut_first [of "CHR ''/''" "msg_Name m'" "[]" p']
    by (simp add: value_key_def)
qed (simp add: value_key_def)

lemma fold_put_notin:
  "k \<notin> (f \<circ> fst) ` set xs \<Longrightarrow> gm_get (fold (\<lambda>(n, v) m. gm_put (f n) v m) xs m) k = gm_get m k"
  by (induction xs arbitrary: m) auto

lemma fold_put_in:
  "inj f \<Longrightarrow> distinct (map fst xs) \<Longrightarrow> (n, v) \<in> set xs \<Longrightarrow> gm_get (fold (\<lambda>(n, v) m. gm_put (f n) v m) xs m) (f n) = Some v"
proof (induction xs arbitrary: m)
  case Nil
  then show ?case by simp
next
  case (Cons x xs)
  show ?case
  proof (cases "x = (n, v)")
    case True
    then have "f n \<notin> (f \<circ> fst) ` set xs"
      using Cons.prems by (force simp: inj_eq)
    with True show ?thesis by (simp add: fold_put_notin)
  next
    case False
    with Cons show ?thesis by (auto split: prod.splits)
  qed
qed

lemma msg_signal_Some: "msg_signal msg p = Some sig \<Longrightarrow> sig \<in> set (msg_Signals msg) \<and> sg_Name sig = p"
  unfolding msg_signal_def by (drule find_SomeD) simp

lemma msg_signal_None: "msg_signal msg p = None \<longleftrightarrow> p \<notin> sg_Name ` set (msg_Signals msg)"
  by (auto simp: msg_signal_def find_None_iff)

lemma DecodeEach_distinct: "distinct (map sg_Name (msg_Signals msg)) \<Longrightarrow> distinct (map fst (DecodeEach msg data))"
  by (simp add: DecodeEach_def comp_def distinct_map_filter)

lemma DecodeEach_in:
  assumes "distinct (map sg_Name (msg_Signals msg))" and "msg_signal msg p = Some sig"
  shows "(p, v) \<in> set (DecodeEach msg data) \<longleftrightarrow> sig_active msg data sig \<and> v = sig_decode sig data"
proof -
  note s = msg_signal_Some [OF assms(2)]
  have "t = sig" if "t \<in> set (msg_Signals msg)" "sg_Name t = p" for t
    using assms(1) s that by (auto simp: distinct_map dest: inj_onD)
  with s show ?thesis by (auto simp: DecodeEach_def)
qed

text \<open>Caching a payload stores the active signals of the message and leaves every other entry.\<close>

lemma cache_values_own:
  assumes "distinct (map sg_Name (msg_Signals msg))" and "msg_signal msg p = Some sig"
  shows "gm_get (cache_values msg data vs) (value_key msg p) =
    (if sig_active msg data sig then Some (sig_decode sig data) else gm_get vs (value_key msg p))"
proof -
  have inj: "inj (value_key msg)" by (simp add: inj_def value_key_def)
  show ?thesis
  proof (cases "sig_active msg data sig")
    case True
    then have "(p, sig_decode sig data) \<in> set (DecodeEach msg data)"
      by (simp add: DecodeEach_in [OF assms])
    with True show ?thesis
      unfolding cache_values_def by (simp add: fold_put_in [OF inj DecodeEach_distinct [OF assms(1)]])
  next
    case False
    then have "value_key msg p \<notin> (value_key msg \<circ> fst) ` set (DecodeEach msg data)"
      using DecodeEach_in [OF assms] by (auto simp: inj_eq [OF inj])
    with False show ?thesis
      unfolding cache_values_def by (simp add: fold_put_notin)
  qed
qed

lemma cache_values_other:
  assumes "CHR ''/'' \<notin> set (msg_Name m)" and "CHR ''/'' \<notin> set (msg_Name m')" and "msg_Name m \<noteq> msg_Name m'"
  shows "gm_get (cache_values m' data vs) (value_key m p) = gm_get vs (value_key m p)"
  unfolding cache_values_def using assms by (intro fold_put_notin) (auto simp: value_key_inj)

section \<open>The read loop\<close>

text \<open>The frames a run of the read loop handles.\<close>

fun loop_frames :: "(bool \<times> read_result \<times> bool) list \<Rightarrow> Frame list" where
  "loop_frames [] = []"
| "loop_frames ((done, r, done') # rs) =
     (if done then [] else case r of
        ReadFrame f \<Rightarrow> f # loop_frames rs
      | ReadTimeout \<Rightarrow> loop_frames rs
      | ReadError e \<Rightarrow> [])"

abbreviation process_all :: "Frame list \<Rightarrow> CanAdapter \<Rightarrow> CanAdapter" where
  "process_all fs a \<equiv> fold (\<lambda>f a. fst (ca_processFrame f a)) fs a"

lemma processFrame_fields [simp]:
  "ca_db (fst (ca_processFrame f a)) = ca_db a" "ca_sock (fst (ca_processFrame f a)) = ca_sock a"
  "ca_onUpdate (fst (ca_processFrame f a)) = ca_onUpdate a" "ca_watched (fst (ca_processFrame f a)) = ca_watched a"
  "ca_watchedByMessage (fst (ca_processFrame f a)) = ca_watchedByMessage a"
  "ca_lastReadErr (fst (ca_processFrame f a)) = ca_lastReadErr a" "ca_done (fst (ca_processFrame f a)) = ca_done a"
  by (simp_all add: ca_processFrame_def Let_def split: option.splits)

lemma process_all_db [simp]: "ca_db (process_all fs a) = ca_db a"
  by (induction fs arbitrary: a) simp_all

lemma readLoop_process: "\<exists>e. fst (ca_readLoop rs a) = (process_all (loop_frames rs) a)\<lparr>ca_lastReadErr := e\<rparr>"
proof (induction rs a rule: ca_readLoop.induct)
  case (1 a)
  have "fst (ca_readLoop [] a) = (process_all (loop_frames []) a)\<lparr>ca_lastReadErr := ca_lastReadErr a\<rparr>" by simp
  then show ?case ..
next
  case (2 dn r dn' rs a)
  have stop: "\<exists>e. b = b\<lparr>ca_lastReadErr := e\<rparr>" for b :: CanAdapter
    by (rule exI [of _ "ca_lastReadErr b"]) simp
  show ?case
  proof (cases dn)
    case True
    then show ?thesis using stop by simp
  next
    case False
    show ?thesis
    proof (cases r)
      case (ReadFrame f)
      obtain a1 evs where "ca_processFrame f a = (a1, evs)" by fastforce
      with 2(1) False ReadFrame show ?thesis
        by (simp add: case_prod_beta)
    next
      case ReadTimeout
      with 2(2) False show ?thesis by simp
    next
      case (ReadError e)
      with False stop show ?thesis by auto
    qed
  qed
qed

definition can_carries :: "Message \<Rightarrow> Signal \<Rightarrow> Frame \<Rightarrow> bool" where
  "can_carries msg sig f \<longleftrightarrow> fr_ID f = msg_ID msg \<and> sig_active msg (fr_Data f) sig"

lemma processFrame_value:
  assumes "db_ok (ca_db a)" and "MessageByName (ca_db a) n = Some msg" and "msg_signal msg p = Some sig"
  shows "gm_get (ca_values (fst (ca_processFrame f a))) (value_key msg p) =
    (if can_carries msg sig f then Some (sig_decode sig (fr_Data f)) else gm_get (ca_values a) (value_key msg p))"
proof -
  note n = db_ok_Name [OF assms(1,2)]
  show ?thesis
  proof (cases "MessageByID (ca_db a) (fr_ID f)")
    case None
    with n have "fr_ID f \<noteq> msg_ID msg" by auto
    with None show ?thesis by (simp add: ca_processFrame_def can_carries_def)
  next
    case (Some m)
    have new: "ca_values (fst (ca_processFrame f a)) = cache_values m (fr_Data f) (ca_values a)"
      using Some by (simp add: ca_processFrame_def Let_def)
    note m = db_ok_ID [OF assms(1) Some]
    show ?thesis
    proof (cases "fr_ID f = msg_ID msg")
      case True
      with Some n have "m = msg" by simp
      with True n assms(3) show ?thesis
        by (simp add: new cache_values_own can_carries_def)
    next
      case False
      with m n assms(2) have "msg_Name msg \<noteq> msg_Name m" by (metis option.inject)
      moreover have "CHR ''/'' \<notin> set (msg_Name m)" "CHR ''/'' \<notin> set (msg_Name msg)"
        using m n db_ok_Name [OF assms(1), of "msg_Name m" m] by blast+
      ultimately have "gm_get (cache_values m (fr_Data f) (ca_values a)) (value_key msg p) = gm_get (ca_values a) (value_key msg p)"
        by (intro cache_values_other)
      with False show ?thesis by (simp add: new can_carries_def)
    qed
  qed
qed

lemma process_all_value:
  assumes "db_ok (ca_db a)" and "MessageByName (ca_db a) n = Some msg" and "msg_signal msg p = Some sig"
  shows "gm_get (ca_values (process_all fs a)) (value_key msg p) =
    (case rev (filter (can_carries msg sig) fs) of
       [] \<Rightarrow> gm_get (ca_values a) (value_key msg p)
     | f # _ \<Rightarrow> Some (sig_decode sig (fr_Data f)))"
proof (induction fs rule: rev_induct)
  case Nil
  then show ?case by simp
next
  case (snoc f fs)
  then show ?case
    using processFrame_value [of "process_all fs a" n msg p sig f] assms by simp
qed


definition demo_message :: Message where
  "demo_message = \<lparr>msg_ID = 0x100, msg_Name = ''Engine'', msg_DLC = 8, msg_Signals = [demo_signal]\<rparr>"

definition demo_db :: Database where
  "demo_db = \<lparr>db_byID = [(0x100, demo_message)], db_byName = [(''Engine'', demo_message)]\<rparr>"

definition demo_device :: Device where
  "demo_device = zero_Device\<lparr>dev_ID := ''ecu'', dev_Labels := Some [(LabelMessage, ''Engine'')]\<rparr>"

lemma demo_facts:
  "db_ok demo_db" "label_at demo_device LabelMessage = ''Engine''" "MessageByName demo_db ''Engine'' = Some demo_message"
  "msg_signal demo_message ''Torque'' = Some demo_signal"
  by (auto simp: db_ok_def MessageByID_def MessageByName_def demo_db_def demo_message_def demo_device_def zero_Device_def
      label_at_def label_lookup_def msg_signal_def demo_signal_def split: if_splits)


section \<open>Watched devices\<close>

text \<open>The index by message holds exactly the watched devices labelled with that message.\<close>

definition watch_inv :: "CanAdapter \<Rightarrow> bool" where
  "watch_inv a \<longleftrightarrow> (\<forall>m. gm_ok (bucket_of a m)) \<and>
     (\<forall>i d. gm_get (ca_watched a) i = Some d \<longrightarrow> dev_ID d = i \<and> label_at d LabelMessage \<noteq> []) \<and>
     (\<forall>m i d. gm_get (bucket_of a m) i = Some d \<longleftrightarrow> gm_get (ca_watched a) i = Some d \<and> label_at d LabelMessage = m)"

lemma watch_inv_cong:
  "ca_watched b = ca_watched a \<Longrightarrow> ca_watchedByMessage b = ca_watchedByMessage a \<Longrightarrow> watch_inv b = watch_inv a"
  by (simp add: watch_inv_def bucket_of_def)

lemma bucket_of_cong: "ca_watchedByMessage b = ca_watchedByMessage a \<Longrightarrow> bucket_of b = bucket_of a"
  by (simp add: bucket_of_def fun_eq_iff)

lemma bucket_after_watch:
  assumes "ca_WatchDevice d a = (a', None)"
  shows "bucket_of a' m = (if m = label_at d LabelMessage then gm_put (dev_ID d) d (bucket_of a m)
     else case gm_get (ca_watched a) (dev_ID d) of
       Some old \<Rightarrow> if label_at old LabelMessage = m then gm_del (dev_ID d) (bucket_of a m) else bucket_of a m
     | None \<Rightarrow> bucket_of a m)"
  using assms
  by (auto simp: ca_WatchDevice_def Let_def bucket_of_def drop_old_def split: if_splits option.splits)

lemma watch_inv_New: "watch_inv (ca_New db cb)"
  by (simp add: watch_inv_def ca_New_def bucket_of_def)

lemma watch_inv_watch:
  assumes "watch_inv a"
  shows "watch_inv (fst (ca_WatchDevice d a))"
proof (cases "snd (ca_WatchDevice d a)")
  case (Some e)
  then have "fst (ca_WatchDevice d a) = a"
    by (auto simp: ca_WatchDevice_def Let_def split: if_splits)
  with assms show ?thesis by simp
next
  case None
  obtain a' where a': "ca_WatchDevice d a = (a', None)" using None by (metis prod.collapse)
  have w: "ca_watched a' = gm_put (dev_ID d) d (ca_watched a)" and ne: "label_at d LabelMessage \<noteq> []"
    using a' by (auto simp: ca_WatchDevice_def Let_def split: if_splits)
  have ok: "gm_ok (bucket_of a' m)" for m
    using assms by (auto simp: watch_inv_def bucket_after_watch [OF a'] split: option.splits)
  have b: "gm_get (bucket_of a m) i = Some e \<longleftrightarrow> gm_get (ca_watched a) i = Some e \<and> label_at e LabelMessage = m" for m i e
    using assms by (simp add: watch_inv_def)
  have "gm_get (bucket_of a' m) i = Some e \<longleftrightarrow> gm_get (ca_watched a') i = Some e \<and> label_at e LabelMessage = m" for m i e
    unfolding bucket_after_watch [OF a'] w by (auto simp: b split: option.splits)
  with assms ok ne show ?thesis
    by (simp add: a' watch_inv_def w)
qed

inductive ca_reach :: "Database \<Rightarrow> bool \<Rightarrow> CanAdapter \<Rightarrow> bool" for db cb where
  reach_New: "ca_reach db cb (ca_New db cb)"
| reach_Open: "ca_reach db cb a \<Longrightarrow> ca_reach db cb (fst (ca_Open e a))"
| reach_Close: "ca_reach db cb a \<Longrightarrow> ca_reach db cb (fst (ca_Close e a))"
| reach_Watch: "ca_reach db cb a \<Longrightarrow> ca_reach db cb (fst (ca_WatchDevice d a))"
| reach_Frame: "ca_reach db cb a \<Longrightarrow> length (fr_Data f) = 8 \<Longrightarrow> ca_reach db cb (fst (ca_processFrame f a))"
| reach_Error: "ca_reach db cb a \<Longrightarrow> ca_reach db cb (a\<lparr>ca_lastReadErr := Some e\<rparr>)"
| reach_Write: "ca_reach db cb a \<Longrightarrow> MessageByName db n = Some msg \<Longrightarrow>
    ca_reach db cb (fst (write_from conv wr msg (base_frame a msg) path v a))"

lemma write_from_frame:
  "fst (write_from conv wr msg frame path v a) = a \<or>
   (\<exists>data. msg_Encode conv msg (fr_Data frame) path v = Inr data \<and>
      fst (write_from conv wr msg frame path v a) = fst (ca_processFrame (frame\<lparr>fr_Data := data\<rparr>) a))"
  by (auto simp: write_from_def Let_def split: sum.splits option.splits prod.splits)

lemma reach_watch_inv: "ca_reach db cb a \<Longrightarrow> watch_inv a"
proof (induction rule: ca_reach.induct)
  case (reach_Open a e)
  then show ?case by (auto simp: ca_Open_def watch_inv_cong [of "a\<lparr>ca_sock := True\<rparr>" a] split: option.splits)
next
  case (reach_Close a e)
  then show ?case by (simp add: ca_Close_def watch_inv_cong [of "a\<lparr>ca_sock := False, ca_done := True\<rparr>" a])
next
  case (reach_Frame a f)
  then show ?case using watch_inv_cong [of "fst (ca_processFrame f a)" a] by simp
next
  case (reach_Error a e)
  then show ?case by (simp add: watch_inv_cong [of "a\<lparr>ca_lastReadErr := Some e\<rparr>" a])
next
  case (reach_Write a n msg conv wr path v)
  then show ?case
    using write_from_frame [of conv wr msg "base_frame a msg" path v a] watch_inv_cong [of "fst (ca_processFrame _ a)" a] by auto
qed (simp_all add: watch_inv_New watch_inv_watch)

lemma write_from_fields:
  "ca_db (fst (write_from conv wr msg f p v a)) = ca_db a" "ca_onUpdate (fst (write_from conv wr msg f p v a)) = ca_onUpdate a"
  "ca_sock (fst (write_from conv wr msg f p v a)) = ca_sock a"
  using write_from_frame [of conv wr msg f p v a] by auto

lemma reach_fields: "ca_reach db cb a \<Longrightarrow> ca_db a = db \<and> ca_onUpdate a = cb"
  by (induction rule: ca_reach.induct)
    (auto simp: ca_New_def ca_Open_def ca_Close_def ca_WatchDevice_def Let_def write_from_fields split: option.splits)

lemma processFrame_events:
  "MessageByID (ca_db a) (fr_ID f) = Some msg \<Longrightarrow> ca_onUpdate a \<Longrightarrow>
   snd (ca_processFrame f a) =
     concat (map (\<lambda>(n, v). map (\<lambda>d. (dev_ID d, n, v)) (map snd (bucket_of a (msg_Name msg)))) (DecodeEach msg (fr_Data f)))"
  by (auto simp: ca_processFrame_def Let_def)

lemma distinct_pairs:
  "distinct is \<Longrightarrow> distinct (map fst xs) \<Longrightarrow> distinct (concat (map (\<lambda>x. map (\<lambda>i. (i, fst x)) is) xs))"
  by (induction xs) (auto simp: distinct_map inj_on_def)

lemma bucket_watchers:
  assumes "watch_inv a"
  shows "set (map snd (bucket_of a m)) = {d. gm_get (ca_watched a) (dev_ID d) = Some d \<and> label_at d LabelMessage = m}"
    and "distinct (map dev_ID (map snd (bucket_of a m)))"
proof -
  have ok: "gm_ok (bucket_of a m)" and own: "\<And>i d. gm_get (ca_watched a) i = Some d \<Longrightarrow> dev_ID d = i"
    and iff: "\<And>i d. (i, d) \<in> set (bucket_of a m) \<longleftrightarrow> gm_get (ca_watched a) i = Some d \<and> label_at d LabelMessage = m"
    using assms gm_in_iff [of "bucket_of a m"] by (auto simp: watch_inv_def)
  show "set (map snd (bucket_of a m)) = {d. gm_get (ca_watched a) (dev_ID d) = Some d \<and> label_at d LabelMessage = m}"
  proof (rule set_eqI)
    fix d
    have "d \<in> snd ` set (bucket_of a m) \<longleftrightarrow> (\<exists>i. (i, d) \<in> set (bucket_of a m))"
      by force
    also have "\<dots> \<longleftrightarrow> (\<exists>i. gm_get (ca_watched a) i = Some d \<and> label_at d LabelMessage = m)"
      by (simp only: iff)
    also have "\<dots> \<longleftrightarrow> gm_get (ca_watched a) (dev_ID d) = Some d \<and> label_at d LabelMessage = m"
      using own by metis
    finally show "d \<in> set (map snd (bucket_of a m)) \<longleftrightarrow>
        d \<in> {d. gm_get (ca_watched a) (dev_ID d) = Some d \<and> label_at d LabelMessage = m}" by simp
  qed
  have "map dev_ID (map snd (bucket_of a m)) = map fst (bucket_of a m)"
    using iff own by (auto simp: comp_def)
  with ok show "distinct (map dev_ID (map snd (bucket_of a m)))" by (simp only: gm_ok_def)
qed

text \<open>C27. Fan-out. In every reachable state, a frame of a known message calls \<open>onUpdate\<close> for
  exactly the watched devices labelled with that message and its active signals, with
  the decoded value, once for each device and signal.\<close>

theorem can_fanout:
  assumes "ca_reach db True a" and "db_ok db" and "MessageByID db (fr_ID f) = Some msg"
  shows "set (snd (ca_processFrame f a)) =
      {(dev_ID d, n, v) |d n v. gm_get (ca_watched a) (dev_ID d) = Some d \<and> label_at d LabelMessage = msg_Name msg \<and>
         (n, v) \<in> set (DecodeEach msg (fr_Data f))} \<and>
    distinct (map (\<lambda>(i, n, v). (i, n)) (snd (ca_processFrame f a)))"
proof -
  let ?ws = "map snd (bucket_of a (msg_Name msg))" and ?ds = "DecodeEach msg (fr_Data f)"
  note w = bucket_watchers [OF reach_watch_inv [OF assms(1)], of "msg_Name msg"]
  have ev: "snd (ca_processFrame f a) = concat (map (\<lambda>(n, v). map (\<lambda>d. (dev_ID d, n, v)) ?ws) ?ds)"
    using assms reach_fields [OF assms(1)] by (simp add: processFrame_events)
  have "distinct (map sg_Name (msg_Signals msg))"
    using assms(2,3) db_ok_ID db_ok_Name by blast
  then have "distinct (concat (map (\<lambda>x. map (\<lambda>i. (i, fst x)) (map dev_ID ?ws)) ?ds))"
    using w(2) by (intro distinct_pairs DecodeEach_distinct)
  then have "distinct (map (\<lambda>(i, n, v). (i, n)) (snd (ca_processFrame f a)))"
    by (simp add: ev map_concat comp_def case_prod_beta)
  moreover have "set (snd (ca_processFrame f a)) = {(dev_ID d, n, v) |d n v. d \<in> set ?ws \<and> (n, v) \<in> set ?ds}"
    unfolding ev by auto
  ultimately show ?thesis using w(1) by simp
qed

theorem can_fanout_witness:
  "set (snd (ca_processFrame \<lparr>fr_ID = 0x100, fr_DLC = 8, fr_Data = replicate 8 0\<rparr>
     (fst (ca_WatchDevice demo_device (ca_New demo_db True))))) =
   {(dev_ID d, n, v) |d n v. gm_get (ca_watched (fst (ca_WatchDevice demo_device (ca_New demo_db True)))) (dev_ID d) = Some d \<and>
      label_at d LabelMessage = ''Engine'' \<and> (n, v) \<in> set (DecodeEach demo_message (replicate 8 0))}"
proof -
  let ?f = "\<lparr>fr_ID = 0x100, fr_DLC = 8, fr_Data = replicate 8 0\<rparr>"
  have "MessageByID demo_db (fr_ID ?f) = Some demo_message" by (simp add: MessageByID_def demo_db_def)
  from can_fanout [OF reach_Watch [OF reach_New] demo_facts(1) this, of demo_device]
  show ?thesis by (simp add: demo_message_def)
qed

section \<open>Writes\<close>

text \<open>Cached frames are filed under their own ID and hold eight bytes.\<close>

definition frames_ok :: "CanAdapter \<Rightarrow> bool" where
  "frames_ok a \<longleftrightarrow> (\<forall>i f. gm_get (ca_frames a) i = Some f \<longrightarrow> fr_ID f = i \<and> length (fr_Data f) = 8)"

lemma frames_ok_base: "frames_ok a \<Longrightarrow> fr_ID (base_frame a msg) = msg_ID msg \<and> length (fr_Data (base_frame a msg)) = 8"
  by (simp add: frames_ok_def base_frame_def split: option.splits)

lemma msg_Encode_length: "msg_Encode conv msg data p v = Inr data' \<Longrightarrow> length data' = length data"
  by (auto simp: msg_Encode_def sig_encode_def split: option.splits sum.splits)

lemma frames_ok_process:
  assumes "db_ok (ca_db a)" and "frames_ok a" and "length (fr_Data f) = 8"
  shows "frames_ok (fst (ca_processFrame f a))"
proof (cases "MessageByID (ca_db a) (fr_ID f)")
  case None
  then show ?thesis using assms(2) by (simp add: ca_processFrame_def)
next
  case (Some m)
  then have "ca_frames (fst (ca_processFrame f a)) = gm_put (fr_ID f) f (ca_frames a)"
    using db_ok_ID [OF assms(1) Some] by (simp add: ca_processFrame_def Let_def)
  with assms(2,3) show ?thesis by (auto simp: frames_ok_def)
qed

lemma frames_ok_cong: "ca_frames b = ca_frames a \<Longrightarrow> frames_ok b = frames_ok a"
  by (simp add: frames_ok_def)

lemma write_from_ok:
  assumes "db_ok (ca_db a)" and "frames_ok a"
  shows "frames_ok (fst (write_from conv wr msg (base_frame a msg) p v a))"
proof -
  have "frames_ok (fst (ca_processFrame ((base_frame a msg)\<lparr>fr_Data := data\<rparr>) a))"
    if "msg_Encode conv msg (fr_Data (base_frame a msg)) p v = Inr data" for data
    using assms that frames_ok_base [OF assms(2), of msg] msg_Encode_length [OF that] by (intro frames_ok_process) simp_all
  with assms(2) show ?thesis
    using write_from_frame [of conv wr msg "base_frame a msg" p v a] by auto
qed

lemma reach_frames_ok:
  assumes "ca_reach db cb a" and "db_ok db"
  shows "frames_ok a"
  using assms
proof (induction rule: ca_reach.induct)
  case (reach_Frame a f)
  then show ?case using reach_fields by (intro frames_ok_process) auto
next
  case (reach_Write a n msg conv wr path v)
  then show ?case using reach_fields by (intro write_from_ok) auto
next
  case (reach_Open a e)
  then show ?case by (simp add: ca_Open_def frames_ok_cong [of "a\<lparr>ca_sock := True\<rparr>" a] split: option.splits)
next
  case (reach_Watch a d)
  moreover have "ca_frames (fst (ca_WatchDevice d a)) = ca_frames a" by (simp add: ca_WatchDevice_def Let_def)
  ultimately show ?case by (simp add: frames_ok_def)
qed (simp_all add: ca_New_def ca_Close_def frames_ok_def)

text \<open>A multiplexed signal has a multiplexor on other bits that can hold its selector value.\<close>

definition mux_ok :: "Message \<Rightarrow> Signal \<Rightarrow> bool" where
  "mux_ok msg sig \<longleftrightarrow> (case sg_MuxValue sig of None \<Rightarrow> True
     | Some n \<Rightarrow> (case multiplexor msg of None \<Rightarrow> False
         | Some m \<Rightarrow> sig_ok 8 m \<and> sig_apart m sig \<and> sg_Length m < 64 \<and> 0 \<le> n \<and> n < 2 ^ sg_Length m))"

lemma sint_take_bit_small:
  assumes "0 \<le> n" and "n < 2 ^ l" and "l < 64"
  shows "sint (take_bit l (word_of_int n :: 64 word)) = n"
proof -
  have t: "take_bit l n = n" using assms by (simp add: take_bit_int_eq_self)
  have "n < 2 ^ 63"
    using assms(2,3) power_increasing [of l 63 "2 :: int"] by simp
  then have "sint (word_of_int n :: 64 word) = n"
    using assms(1) by (simp add: sint_sbintrunc' signed_take_bit_int_eq_self)
  then show ?thesis by (simp add: take_bit_of_int t)
qed

text \<open>Encoding a signal into a payload: the signal reads back, is active, and other signals keep.\<close>

lemma msg_Encode_int:
  assumes "msg_signal msg p = Some sig" and "length data = 8" and "sig_ok 8 sig" and "sig_integral sig"
    and "sig_range sig (sint i)" and "\<bar>sint i\<bar> \<le> 2 ^ 53" and "mux_ok msg sig"
  shows "\<exists>data'. msg_Encode conv msg data p (IntValue i) = Inr data' \<and> length data' = 8 \<and> sig_active msg data' sig \<and>
    sig_decode sig data' = IntValue i \<and>
    (\<forall>t. sig_apart sig t \<and> (\<forall>m. sg_MuxValue sig \<noteq> None \<longrightarrow> multiplexor msg = Some m \<longrightarrow> sig_apart m t) \<longrightarrow> sig_decode t data' = sig_decode t data)"
proof -
  let ?d1 = "packRaw data (sg_positions sig) (take_bit (sg_Length sig) i)"
  have enc: "sig_encode conv sig data (IntValue i) = Inr ?d1"
    using encode_int [OF assms(3,4,6)] .
  have dec: "sig_decode sig ?d1 = IntValue i"
    using decode_packed_int [of data sig i] assms(2-5) by simp
  show ?thesis
  proof (cases "sg_MuxValue sig")
    case None
    with assms(1,2) enc dec show ?thesis
      by (simp add: msg_Encode_def sig_active_def decode_apart)
  next
    case (Some n)
    with assms(7) obtain m where m: "multiplexor msg = Some m" and mok: "sig_ok 8 m" "sig_apart m sig" "sg_Length m < 64" "0 \<le> n" "n < 2 ^ sg_Length m"
      by (auto simp: mux_ok_def split: option.splits)
    let ?d2 = "packRaw ?d1 (sg_positions m) (word_of_int n)"
    have "extractRaw ?d2 (sg_positions m) = take_bit (sg_Length m) (word_of_int n)"
      using extract_pack [of ?d1 "sg_positions m" "word_of_int n"] sig_ok_fits [OF mok(1)] sig_ok_length [OF mok(1)] assms(2) by simp
    then have "sig_active msg ?d2 sig"
      using Some m mok sint_take_bit_small [OF mok(4,5,3)] by (simp add: sig_active_def mux_value_def)
    with Some m mok assms(1,2) enc dec show ?thesis
      by (simp add: msg_Encode_def decode_apart)
  qed
qed

text \<open>A write of an integer in range: the frame it sends, which the adapter then handles like a received one.\<close>

lemma write_int_run:
  assumes "ca_reach db cb a" and "db_ok db" and "label_at d LabelMessage \<noteq> []"
    and "MessageByName db (label_at d LabelMessage) = Some msg" and "msg_signal msg p = Some sig" and "ca_sock a"
    and "sig_ok 8 sig" and "sig_integral sig" and "sig_range sig (sint i)" and "\<bar>sint i\<bar> \<le> 2 ^ 53" and "mux_ok msg sig"
    and "\<And>f. wr f = None"
  shows "\<exists>f a' evs. ca_WriteProperty conv wr None d p (IntValue i) a = (a', evs, None) \<and> ca_processFrame f a = (a', evs) \<and>
    fr_ID f = msg_ID msg \<and> length (fr_Data f) = 8 \<and> sig_active msg (fr_Data f) sig \<and> sig_decode sig (fr_Data f) = IntValue i \<and>
    gm_get (ca_frames a') (msg_ID msg) = Some f \<and> ca_ReadProperty None a' d p = Inr (IntValue i) \<and>
    (\<forall>t. sig_apart sig t \<and> (\<forall>m. sg_MuxValue sig \<noteq> None \<longrightarrow> multiplexor msg = Some m \<longrightarrow> sig_apart m t) \<longrightarrow>
       sig_decode t (fr_Data f) = sig_decode t (fr_Data (base_frame a msg)))"
proof -
  have db: "ca_db a = db" using reach_fields [OF assms(1)] by simp
  note base = frames_ok_base [OF reach_frames_ok [OF assms(1,2)], of msg] and n = db_ok_Name [OF assms(2,4)]
  obtain data where enc: "msg_Encode conv msg (fr_Data (base_frame a msg)) p (IntValue i) = Inr data" "length data = 8"
    and act: "sig_active msg data sig" and dec: "sig_decode sig data = IntValue i"
    and keep: "\<forall>t. sig_apart sig t \<and> (\<forall>m. sg_MuxValue sig \<noteq> None \<longrightarrow> multiplexor msg = Some m \<longrightarrow> sig_apart m t) \<longrightarrow>
       sig_decode t data = sig_decode t (fr_Data (base_frame a msg))"
    using msg_Encode_int [OF assms(5) base [THEN conjunct2] assms(7-11)] by blast
  let ?f = "(base_frame a msg)\<lparr>fr_Data := data\<rparr>"
  obtain a' evs where pf: "ca_processFrame ?f a = (a', evs)" by fastforce
  have "ca_WriteProperty conv wr None d p (IntValue i) a = (a', evs, None)"
    using assms(3-6,12) db enc pf
    by (simp add: ca_WriteProperty_def write_guard_def ca_resolve_def write_from_def Let_def)
  moreover have "gm_get (ca_values a') (value_key msg p) = Some (IntValue i)"
    using processFrame_value [of a "label_at d LabelMessage" msg p sig ?f] assms(2,4,5) db pf base act dec
    by (simp add: can_carries_def)
  then have "ca_ReadProperty None a' d p = Inr (IntValue i)"
    using assms(3-5) db processFrame_fields(1) [of ?f a] pf by (simp add: ca_ReadProperty_def ca_resolve_def)
  moreover have "gm_get (ca_frames a') (msg_ID msg) = Some ?f"
    using n base pf db by (auto simp: ca_processFrame_def Let_def split: if_splits)
  ultimately show ?thesis using keep base enc(2) act dec pf by (intro exI [of _ ?f] exI [of _ a'] exI [of _ evs] conjI) simp_all
qed

text \<open>Read after write. On a reachable adapter with an open socket, writing an integral signal
  with an integer in range succeeds when the frame is sent; the frame sent has the message's ID
  and eight bytes, a read then gives the integer, and every signal of the message on other bits keeps the value it has in the
  last frame.\<close>

theorem can_write_read:
  assumes "ca_reach db cb a" and "db_ok db" and "label_at d LabelMessage \<noteq> []"
    and "MessageByName db (label_at d LabelMessage) = Some msg" and "msg_signal msg p = Some sig" and "ca_sock a"
    and "sig_ok 8 sig" and "sig_integral sig" and "sig_range sig (sint i)" and "\<bar>sint i\<bar> \<le> 2 ^ 53" and "mux_ok msg sig"
    and "\<And>f. wr f = None"
  shows "\<exists>a' evs f. ca_WriteProperty conv wr None d p (IntValue i) a = (a', evs, None) \<and>
    gm_get (ca_frames a') (msg_ID msg) = Some f \<and> fr_ID f = msg_ID msg \<and> length (fr_Data f) = 8 \<and>
    ca_ReadProperty None a' d p = Inr (IntValue i) \<and>
    (\<forall>t. sig_apart sig t \<and> (\<forall>m. sg_MuxValue sig \<noteq> None \<longrightarrow> multiplexor msg = Some m \<longrightarrow> sig_apart m t) \<longrightarrow>
       sig_decode t (fr_Data f) = sig_decode t (fr_Data (base_frame a msg)))"
  using write_int_run [OF assms(1-11), of wr conv] assms(12) by blast

theorem can_write_read_witness:
  "\<exists>a' evs f. ca_WriteProperty (\<lambda>_. 0) (\<lambda>_. None) None demo_device ''Torque'' (IntValue (- 5)) (fst (ca_Open None (ca_New demo_db True)))
      = (a', evs, None) \<and> gm_get (ca_frames a') 0x100 = Some f \<and> ca_ReadProperty None a' demo_device ''Torque'' = Inr (IntValue (- 5))"
proof -
  let ?a = "fst (ca_Open None (ca_New demo_db True))"
  have "ca_reach demo_db True ?a" by (intro reach_Open reach_New)
  moreover have "ca_sock ?a" "sig_ok 8 demo_signal" "sig_integral demo_signal" "mux_ok demo_message demo_signal"
    "sig_range demo_signal (sint (- 5 :: int64))" "\<bar>sint (- 5 :: int64)\<bar> \<le> 2 ^ 53"
    by (simp_all add: ca_Open_def sig_ok_def demo_signal_def last_pos_def physical_def sig_integral_def f_eq_def mux_ok_def sig_range_def)
  ultimately show ?thesis
    using can_write_read [of demo_db True ?a demo_device demo_message "''Torque''" demo_signal "- 5" "\<lambda>_. None" "\<lambda>_. 0"] demo_facts
    by (auto simp: demo_message_def)
qed

section \<open>Concurrent writes\<close>

text \<open>
  \<open>WriteProperty\<close> holds the write lock of its message from the read of the base frame to
  the update of the cache. A lock table maps a message ID to the write that holds its lock.
  Other operations interleave freely; the bus may deliver any frame except one of a message
  being written.
\<close>

record writer =
  w_msg :: Message
  w_base :: Frame
  w_path :: string
  w_val :: PropertyValue

inductive conc_reach :: "(float64 \<Rightarrow> int64) \<Rightarrow> Database \<Rightarrow> bool \<Rightarrow> CanAdapter \<Rightarrow> (32 word \<rightharpoonup> writer) \<Rightarrow> bool" for conv db cb where
  conc_New: "conc_reach conv db cb (ca_New db cb) Map.empty"
| conc_Open: "conc_reach conv db cb a L \<Longrightarrow> conc_reach conv db cb (fst (ca_Open e a)) L"
| conc_Close: "conc_reach conv db cb a L \<Longrightarrow> conc_reach conv db cb (fst (ca_Close e a)) L"
| conc_Watch: "conc_reach conv db cb a L \<Longrightarrow> conc_reach conv db cb (fst (ca_WatchDevice d a)) L"
| conc_Frame: "conc_reach conv db cb a L \<Longrightarrow> length (fr_Data f) = 8 \<Longrightarrow> L (fr_ID f) = None \<Longrightarrow>
    conc_reach conv db cb (fst (ca_processFrame f a)) L"
| conc_Lock: "conc_reach conv db cb a L \<Longrightarrow> write_guard None a0 d path = Inr msg \<Longrightarrow> ca_db a0 = db \<Longrightarrow> L (msg_ID msg) = None \<Longrightarrow>
    conc_reach conv db cb a (L(msg_ID msg \<mapsto> \<lparr>w_msg = msg, w_base = base_frame a msg, w_path = path, w_val = v\<rparr>))"
| conc_Write: "conc_reach conv db cb a L \<Longrightarrow> L i = Some w \<Longrightarrow>
    conc_reach conv db cb (fst (write_from conv wr (w_msg w) (w_base w) (w_path w) (w_val w) a)) (L(i := None))"

lemma base_frame_process:
  assumes "db_ok (ca_db a)" and "fr_ID f \<noteq> msg_ID m"
  shows "base_frame (fst (ca_processFrame f a)) m = base_frame a m"
proof (cases "MessageByID (ca_db a) (fr_ID f)")
  case None
  then show ?thesis by (simp add: ca_processFrame_def)
next
  case (Some k)
  then have "ca_frames (fst (ca_processFrame f a)) = gm_put (fr_ID f) f (ca_frames a)"
    using db_ok_ID [OF assms(1) Some] by (simp add: ca_processFrame_def Let_def)
  with assms(2) show ?thesis by (simp add: base_frame_def)
qed

lemma base_frame_cong: "ca_frames b = ca_frames a \<Longrightarrow> base_frame b m = base_frame a m"
  by (simp add: base_frame_def)

lemma watch_open_frames [simp]:
  "ca_frames (fst (ca_WatchDevice d a)) = ca_frames a" "ca_frames (fst (ca_Open e a)) = ca_frames a" "ca_frames (fst (ca_Close e a)) = ca_frames a"
  by (simp_all add: ca_WatchDevice_def Let_def ca_Open_def ca_Close_def split: option.splits)

text \<open>Every write in progress works on the current frame of its message.\<close>

definition locks_ok :: "Database \<Rightarrow> CanAdapter \<Rightarrow> (32 word \<rightharpoonup> writer) \<Rightarrow> bool" where
  "locks_ok db a L \<longleftrightarrow> (\<forall>i w. L i = Some w \<longrightarrow> msg_ID (w_msg w) = i \<and> w_base w = base_frame a (w_msg w) \<and>
     (\<exists>n. MessageByName db n = Some (w_msg w)))"

lemma locks_ok_cong: "ca_frames b = ca_frames a \<Longrightarrow> locks_ok db a L \<Longrightarrow> locks_ok db b L"
  by (simp add: locks_ok_def base_frame_cong [of b a])

lemma locks_ok_frame:
  assumes "locks_ok db a L" and "db_ok (ca_db a)" and "L (fr_ID f) = None"
  shows "locks_ok db (fst (ca_processFrame f a)) L"
  unfolding locks_ok_def
proof (intro allI impI)
  fix i w assume w: "L i = Some w"
  then have "msg_ID (w_msg w) = i \<and> w_base w = base_frame a (w_msg w) \<and> (\<exists>n. MessageByName db n = Some (w_msg w))"
    using assms(1) by (simp add: locks_ok_def)
  moreover have "fr_ID f \<noteq> i" using w assms(3) by auto
  ultimately show "msg_ID (w_msg w) = i \<and> w_base w = base_frame (fst (ca_processFrame f a)) (w_msg w) \<and> (\<exists>n. MessageByName db n = Some (w_msg w))"
    using base_frame_process [OF assms(2), of f "w_msg w"] by simp
qed

lemma write_guard_msg: "write_guard e a d p = Inr msg \<Longrightarrow> \<exists>n. MessageByName (ca_db a) n = Some msg"
  by (auto simp: write_guard_def ca_resolve_def Let_def split: option.splits if_splits sum.splits)



end
