(* ===== verification/Go_Text.thy ===== *)
theory Go_Text
  imports Api_Types
begin

text \<open>
  Parsers of Go's standard library that the gateway applies to configuration, labels and DBC files:
  \<open>strconv.Atoi\<close>, \<open>strconv.ParseUint\<close> and \<open>time.ParseDuration\<close>. Strings are lists of bytes. A
  parse error is None.
\<close>

section \<open>Integers\<close>

definition is_dec :: "char \<Rightarrow> bool" where
  "is_dec c \<longleftrightarrow> 48 \<le> (of_char c :: nat) \<and> (of_char c :: nat) \<le> 57"

definition dec_val :: "char \<Rightarrow> int" where
  "dec_val c = int (of_char c) - 48"

definition digits_val :: "string \<Rightarrow> int" where
  "digits_val s = foldl (\<lambda>n c. 10 * n + dec_val c) 0 s"

text \<open>\<open>strconv.ParseUint(s, 10, bits)\<close>: decimal digits only, and in range.\<close>

definition ParseUint :: "nat \<Rightarrow> string \<Rightarrow> int option" where
  "ParseUint bits s = (if s \<noteq> [] \<and> list_all is_dec s \<and> digits_val s < 2 ^ bits then Some (digits_val s) else None)"

definition Atoi :: "string \<Rightarrow> int option" where
  "Atoi s =
     (let neg = (s \<noteq> [] \<and> hd s = CHR ''-'');
          ds = (if s \<noteq> [] \<and> (hd s = CHR ''-'' \<or> hd s = CHR ''+'') then tl s else s);
          n = (if neg then - digits_val ds else digits_val ds)
      in if ds \<noteq> [] \<and> list_all is_dec ds \<and> - (2 ^ 63) \<le> n \<and> n < 2 ^ 63 then Some n else None)"

section \<open>Durations\<close>

text \<open>Leading digits: an integer beyond 2 to the 63 is an error; a fraction stops growing instead.\<close>

fun leadingInt :: "int \<Rightarrow> string \<Rightarrow> (int \<times> string) option" where
  "leadingInt x [] = Some (x, [])"
| "leadingInt x (c # cs) =
     (if \<not> is_dec c then Some (x, c # cs)
      else if 2 ^ 63 div 10 < x then None
      else let y = 10 * x + dec_val c in if 2 ^ 63 < y then None else leadingInt y cs)"

fun leadingFraction :: "int \<Rightarrow> int \<Rightarrow> bool \<Rightarrow> string \<Rightarrow> int \<times> int \<times> string" where
  "leadingFraction x scale over [] = (x, scale, [])"
| "leadingFraction x scale over (c # cs) =
     (if \<not> is_dec c then (x, scale, c # cs)
      else if over then leadingFraction x scale True cs
      else if (2 ^ 63 - 1) div 10 < x then leadingFraction x scale True cs
      else let y = 10 * x + dec_val c in
        if 2 ^ 63 < y then leadingFraction x scale True cs else leadingFraction y (10 * scale) False cs)"

definition unitMap :: "(string \<times> int) list" where
  "unitMap = [(''ns'', 1), (''us'', 1000), ([CHR 0xC2, CHR 0xB5, CHR ''s''], 1000), ([CHR 0xCE, CHR 0xBC, CHR ''s''], 1000),
     (''ms'', 1000000), (''s'', 1000000000), (''m'', 60000000000), (''h'', 3600000000000)]"

text \<open>\<open>uint64(float64(f) * (float64(unit) / scale))\<close>; \<open>scale\<close> is a power of ten, built by multiplication in \<open>float64\<close>.\<close>

definition scale_float :: "int \<Rightarrow> float64" where
  "scale_float scale = f_of_int scale"

definition frac_ns :: "int \<Rightarrow> int \<Rightarrow> int \<Rightarrow> int" where
  "frac_ns f u scale = (case f_mul (f_of_int f) (f_div (f_of_int u) (scale_float scale)) of
     FFin q \<Rightarrow> trunc_rat q | _ \<Rightarrow> 0)"

definition unit_char :: "char \<Rightarrow> bool" where
  "unit_char c \<longleftrightarrow> \<not> (c = CHR ''.'' \<or> is_dec c)"

text \<open>One number with its unit: its nanoseconds and the rest of the string.\<close>

definition dur_step :: "string \<Rightarrow> (int \<times> string) option" where
  "dur_step s =
     (if s = [] \<or> \<not> (hd s = CHR ''.'' \<or> is_dec (hd s)) then None
      else case leadingInt 0 s of
        None \<Rightarrow> None
      | Some (v, s1) \<Rightarrow>
          (let pre = (length s1 \<noteq> length s);
               (f, scale, s2, post) =
                 (if s1 \<noteq> [] \<and> hd s1 = CHR ''.''
                  then (case leadingFraction 0 1 False (tl s1) of (f, sc, r) \<Rightarrow> (f, sc, r, length r \<noteq> length (tl s1)))
                  else (0, 1, s1, False));
               u = takeWhile unit_char s2; s3 = dropWhile unit_char s2
           in if \<not> pre \<and> \<not> post then None
              else if u = [] then None
              else case map_of unitMap u of
                None \<Rightarrow> None
              | Some un \<Rightarrow>
                  if 2 ^ 63 div un < v then None
                  else let v1 = v * un; v2 = (if 0 < f then v1 + frac_ns f un scale else v1) in
                    if 2 ^ 63 < v2 then None else Some (v2, s3)))"

lemma leadingInt_rest: "leadingInt x s = Some (y, r) \<Longrightarrow> length r \<le> length s"
  by (induction x s rule: leadingInt.induct) (auto simp: Let_def split: if_splits)

lemma leadingFraction_rest: "leadingFraction x sc ov s = (y, z, r) \<Longrightarrow> length r \<le> length s"
  by (induction x sc ov s rule: leadingFraction.induct) (auto simp: Let_def split: if_splits)

lemma dropWhile_shorter: "takeWhile P s \<noteq> [] \<Longrightarrow> length (dropWhile P s) < length s"
  by (cases s) (auto simp: le_imp_less_Suc length_dropWhile_le split: if_splits)

lemma dur_step_shorter:
  assumes "dur_step s = Some (v, r)"
  shows "length r < length s"
proof -
  obtain x s1 where i: "leadingInt 0 s = Some (x, s1)"
    using assms by (auto simp: dur_step_def split: if_splits option.splits)
  define s2 where "s2 = (if s1 \<noteq> [] \<and> hd s1 = CHR ''.'' then snd (snd (leadingFraction 0 1 False (tl s1))) else s1)"
  have "length (snd (snd (leadingFraction 0 1 False (tl s1)))) \<le> length (tl s1)"
    using leadingFraction_rest by (metis prod.collapse)
  then have "length s2 \<le> length s1" by (auto simp: s2_def)
  moreover have "takeWhile unit_char s2 \<noteq> [] \<and> r = dropWhile unit_char s2"
    using assms i by (auto simp: dur_step_def s2_def Let_def split: if_splits option.splits prod.splits)
  ultimately show ?thesis
    using leadingInt_rest [OF i] dropWhile_shorter [of unit_char s2] by simp
qed

text \<open>The sum is kept in a \<open>uint64\<close>.\<close>

function dur_loop :: "int \<Rightarrow> string \<Rightarrow> int option" where
  "dur_loop d s =
     (if s = [] then Some d
      else case dur_step s of
        None \<Rightarrow> None
      | Some (v, r) \<Rightarrow> (let d' = (d + v) mod 2 ^ 64 in if 2 ^ 63 < d' then None else dur_loop d' r))"
  by pat_completeness auto
termination
  by (relation "measure (\<lambda>(d, s). length s)") (auto dest: dur_step_shorter)

declare dur_loop.simps [simp del]

definition ParseDuration :: "string \<Rightarrow> duration option" where
  "ParseDuration s =
     (let neg = (s \<noteq> [] \<and> hd s = CHR ''-'');
          t = (if s \<noteq> [] \<and> (hd s = CHR ''-'' \<or> hd s = CHR ''+'') then tl s else s)
      in if t = ''0'' then Some 0
         else if t = [] then None
         else case dur_loop 0 t of
           None \<Rightarrow> None
         | Some d \<Rightarrow> if neg then Some (- d) else if 2 ^ 63 - 1 < d then None else Some d)"

text \<open>A parsed duration is an \<open>int64\<close>.\<close>

lemma dur_loop_bound: "dur_loop d s = Some n \<Longrightarrow> 0 \<le> d \<Longrightarrow> d \<le> 2 ^ 63 \<Longrightarrow> 0 \<le> n \<and> n \<le> 2 ^ 63"
  by (induction d s rule: dur_loop.induct)
    (subst (asm) (2) dur_loop.simps, auto simp: Let_def split: if_splits option.splits prod.splits)

lemma ParseDuration_bound: "ParseDuration s = Some d \<Longrightarrow> minDuration \<le> d \<and> d \<le> maxDuration"
  by (auto simp: ParseDuration_def Let_def minDuration_def maxDuration_def split: if_splits option.splits dest!: dur_loop_bound)

end
