(* ===== verification/Dbc.thy ===== *)
theory Dbc
  imports Can_Adapter Go_Text "HOL-Library.Monad_Syntax"
begin

text \<open>
  The DBC file parser (\<open>internal/adapters/can/dbc.go\<close>), from the lines of the file to the database of
  messages, with \<open>strconv.ParseFloat\<close>. The two regular expressions have disjoint character classes next
  to each other, so the greedy match that takes each class as far as it goes is the only one,
  and a pattern is a chain of such steps, None where it does not match.
\<close>

section \<open>Floating-point numbers\<close>

definition hex_val :: "char \<Rightarrow> int option" where
  "hex_val c = (let n = int (of_char c) in
     if 48 \<le> n \<and> n \<le> 57 then Some (n - 48) else if 97 \<le> n \<and> n \<le> 102 then Some (n - 87)
     else if 65 \<le> n \<and> n \<le> 70 then Some (n - 55) else None)"

definition digit_in :: "bool \<Rightarrow> char \<Rightarrow> int option" where
  "digit_in hex c = (if hex then hex_val c else if is_dec c then Some (dec_val c) else None)"

text \<open>The mantissa loop of \<open>readFloat\<close>: the value so far, the digits after the point, whether a point and a digit were seen.\<close>

fun read_mantissa :: "bool \<Rightarrow> int \<Rightarrow> nat \<Rightarrow> bool \<Rightarrow> bool \<Rightarrow> string \<Rightarrow> int \<times> nat \<times> bool \<times> string" where
  "read_mantissa hex m fds dot digits [] = (m, fds, digits, [])"
| "read_mantissa hex m fds dot digits (c # cs) =
     (if c = CHR ''_'' then read_mantissa hex m fds dot digits cs
      else if c = CHR ''.'' then (if dot then (m, fds, digits, c # cs) else read_mantissa hex m fds True digits cs)
      else case digit_in hex c of
        None \<Rightarrow> (m, fds, digits, c # cs)
      | Some d \<Rightarrow> read_mantissa hex ((if hex then 16 else 10) * m + d) (if dot then Suc fds else fds) dot True cs)"

text \<open>The exponent stops growing once it has reached 10000.\<close>

fun read_exp :: "int \<Rightarrow> string \<Rightarrow> int \<times> string" where
  "read_exp e [] = (e, [])"
| "read_exp e (c # cs) =
     (if c = CHR ''_'' then read_exp e cs
      else if is_dec c then read_exp (if e < 10000 then 10 * e + dec_val c else e) cs
      else (e, c # cs))"

text \<open>\<open>underscoreOK\<close>: underscores only between digits, or between a base prefix and a digit; the state is the kind of the last character.\<close>

datatype us_state = UsStart | UsDigit | UsUnder | UsOther

fun us_scan :: "bool \<Rightarrow> us_state \<Rightarrow> string \<Rightarrow> bool" where
  "us_scan hex i [] = (i \<noteq> UsUnder)"
| "us_scan hex i (c # cs) =
     (if digit_in hex c \<noteq> None then us_scan hex UsDigit cs
      else if c = CHR ''_'' then i = UsDigit \<and> us_scan hex UsUnder cs
      else i \<noteq> UsUnder \<and> us_scan hex UsOther cs)"

definition split_sign :: "string \<Rightarrow> bool \<times> bool \<times> string" where
  "split_sign s = (case s of c # cs \<Rightarrow> if c = CHR ''-'' then (True, True, cs) else if c = CHR ''+'' then (True, False, cs) else (False, False, s)
     | [] \<Rightarrow> (False, False, []))"

fun base_prefix :: "string \<Rightarrow> char option" where
  "base_prefix (z # x # cs) = (if z = CHR ''0'' then Some (to_lower x) else None)"
| "base_prefix _ = None"

definition underscoreOK :: "string \<Rightarrow> bool" where
  "underscoreOK s =
     (let u = snd (snd (split_sign s)) in
      case base_prefix u of
        Some x \<Rightarrow> if x = CHR ''b'' \<or> x = CHR ''o'' \<or> x = CHR ''x'' then us_scan (x = CHR ''x'') UsDigit (drop 2 u)
                 else us_scan False UsStart u
      | None \<Rightarrow> us_scan False UsStart u)"

text \<open>\<open>inf\<close>, \<open>infinity\<close> with an optional sign and \<open>nan\<close>, in any case.\<close>

definition special_float :: "string \<Rightarrow> float64 option" where
  "special_float s = (case split_sign s of (has_sign, neg, u) \<Rightarrow>
     if ToLower u = ''inf'' \<or> ToLower u = ''infinity'' then Some (FInf neg)
     else if \<not> has_sign \<and> ToLower u = ''nan'' then Some FNaN
     else None)"

text \<open>
  \<open>ParseFloat(s, 64)\<close>: the exact value, rounded once; None for a syntax error and for a value out of range.
\<close>

definition ParseFloat :: "string \<Rightarrow> float64 option" where
  "ParseFloat s =
     (case special_float s of Some f \<Rightarrow> Some f | None \<Rightarrow>
      (case split_sign s of (_, neg, u) \<Rightarrow>
       let hex = (base_prefix u = Some CHR ''x'' \<and> 2 < length u); body = (if hex then drop 2 u else u) in
       case read_mantissa hex 0 0 False False body of (m, fds, digits, rest) \<Rightarrow>
       let has_exp = (rest \<noteq> [] \<and> to_lower (hd rest) = (if hex then CHR ''p'' else CHR ''e''));
           (_, eneg, eu) = split_sign (tl rest);
           (e, rest') = (if has_exp then read_exp 0 eu else (0, rest));
           x = (if eneg \<and> has_exp then - e else e);
           q = (if hex then of_int m * 2 powi (x - 4 * int fds) else of_int m * 10 powi (x - int fds));
           f = fround neg q
       in if \<not> digits \<or> (has_exp \<and> (eu = [] \<or> \<not> is_dec (hd eu))) \<or> (hex \<and> \<not> has_exp) \<or> rest' \<noteq> [] then None
          else if CHR ''_'' \<in> set s \<and> \<not> underscoreOK s then None
          else if f_is_inf f then None
          else Some f))"

section \<open>Patterns\<close>

definition re_space :: "char \<Rightarrow> bool" where
  "re_space c \<longleftrightarrow> c \<in> {CHR '' '', CHR 0x09, CHR 0x0A, CHR 0x0C, CHR 0x0D}"

definition re_word :: "char \<Rightarrow> bool" where
  "re_word c \<longleftrightarrow> is_dec c \<or> c = CHR ''_'' \<or> (let n = of_char c :: nat in 65 \<le> n \<and> n \<le> 90 \<or> 97 \<le> n \<and> n \<le> 122)"

definition re_many :: "(char \<Rightarrow> bool) \<Rightarrow> string \<Rightarrow> string \<times> string" where
  "re_many p s = (takeWhile p s, dropWhile p s)"

definition re_some :: "(char \<Rightarrow> bool) \<Rightarrow> string \<Rightarrow> (string \<times> string) option" where
  "re_some p s = (if s \<noteq> [] \<and> p (hd s) then Some (re_many p s) else None)"

fun re_lit :: "string \<Rightarrow> string \<Rightarrow> string option" where
  "re_lit [] s = Some s"
| "re_lit (x # xs) [] = None"
| "re_lit (x # xs) (c # cs) = (if x = c then re_lit xs cs else None)"

definition re_skip :: "string \<Rightarrow> string" where
  "re_skip s = dropWhile re_space s"

definition boLineRE :: "string \<Rightarrow> (string \<times> string \<times> string) option" where
  "boLineRE s = do {
     s \<leftarrow> re_lit ''BO_'' s;
     (_, s) \<leftarrow> re_some re_space s;
     (mid, s) \<leftarrow> re_some is_dec s;
     (_, s) \<leftarrow> re_some re_space s;
     (name, s) \<leftarrow> re_some re_word s;
     s \<leftarrow> re_lit '':'' (re_skip s);
     (dlc, s) \<leftarrow> re_some is_dec (re_skip s);
     (_, s) \<leftarrow> re_some re_space s;
     (_, _) \<leftarrow> re_some (\<lambda>c. \<not> re_space c) s;
     Some (mid, name, dlc) }"

text \<open>The optional group \<open>(M|m\d+)?\<close>: an empty match where it does not match.\<close>

definition re_mux :: "string \<Rightarrow> string \<times> string" where
  "re_mux s = (case s of
     [] \<Rightarrow> ([], s)
   | c # cs \<Rightarrow>
       if c = CHR ''M'' then (''M'', cs)
       else if c = CHR ''m'' then (case re_some is_dec cs of None \<Rightarrow> ([], s) | Some (ds, t) \<Rightarrow> (c # ds, t))
       else ([], s))"

record sg_match =
  sm_name :: string
  sm_mux :: string
  sm_start :: string
  sm_length :: string
  sm_order :: char
  sm_sign :: char
  sm_factor :: string
  sm_offset :: string
  sm_unit :: string

definition re_char :: "char set \<Rightarrow> string \<Rightarrow> (char \<times> string) option" where
  "re_char cs s = (case s of [] \<Rightarrow> None | c # t \<Rightarrow> if c \<in> cs then Some (c, t) else None)"

text \<open>The pattern in three parts: the name with the multiplexing group, the bit layout, and scaling, range and unit.\<close>

definition sg_head :: "string \<Rightarrow> (string \<times> string \<times> string) option" where
  "sg_head s = do {
     s \<leftarrow> re_lit ''SG_'' (re_skip s);
     (_, s) \<leftarrow> re_some re_space s;
     (name, s) \<leftarrow> re_some re_word s;
     let (mux, s) = re_mux (re_skip s);
     s \<leftarrow> re_lit '':'' (re_skip s);
     Some (name, mux, s) }"

definition sg_layout :: "string \<Rightarrow> (string \<times> string \<times> char \<times> char \<times> string) option" where
  "sg_layout s = do {
     (start, s) \<leftarrow> re_some is_dec (re_skip s);
     s \<leftarrow> re_lit ''|'' s;
     (len, s) \<leftarrow> re_some is_dec s;
     s \<leftarrow> re_lit ''@'' s;
     (order, s) \<leftarrow> re_char {CHR ''0'', CHR ''1''} s;
     (sign, s) \<leftarrow> re_char {CHR ''+'', CHR ''-''} s;
     Some (start, len, order, sign, s) }"

definition sg_scale :: "string \<Rightarrow> (string \<times> string \<times> string) option" where
  "sg_scale s = do {
     s \<leftarrow> re_lit ''('' (re_skip s);
     (factor, s) \<leftarrow> re_some (\<lambda>c. c \<noteq> CHR '','') s;
     s \<leftarrow> re_lit '','' s;
     (offset, s) \<leftarrow> re_some (\<lambda>c. c \<noteq> CHR '')'') s;
     s \<leftarrow> re_lit '')'' s;
     s \<leftarrow> re_lit ''['' (re_skip s);
     s \<leftarrow> re_lit ''|'' (dropWhile (\<lambda>c. c \<noteq> CHR ''|'') s);
     s \<leftarrow> re_lit '']'' (dropWhile (\<lambda>c. c \<noteq> CHR '']'') s);
     s \<leftarrow> re_lit [CHR 0x22] (re_skip s);
     let (unt, s) = re_many (\<lambda>c. c \<noteq> CHR 0x22) s;
     _ \<leftarrow> re_lit [CHR 0x22] s;
     Some (factor, offset, unt) }"

definition sgLineRE :: "string \<Rightarrow> sg_match option" where
  "sgLineRE s = do {
     (name, mux, s) \<leftarrow> sg_head s;
     (start, len, order, sign, s) \<leftarrow> sg_layout s;
     (factor, offset, unt) \<leftarrow> sg_scale s;
     Some \<lparr>sm_name = name, sm_mux = mux, sm_start = start, sm_length = len, sm_order = order, sm_sign = sign,
       sm_factor = factor, sm_offset = offset, sm_unit = unt\<rparr> }"

section \<open>The parser\<close>

text \<open>
  \<open>Atoi\<close> with its error ignored: the largest \<open>int\<close> for digits out of range. Bit numbers of \<open>2 ^ 45\<close> and
  more are outside the model (None): \<open>make\<close> panics for such a length, and positions next to the largest
  start bits wrap around.
\<close>

definition bit_number :: "string \<Rightarrow> nat option" where
  "bit_number s = (let n = (case Atoi s of Some n \<Rightarrow> n | None \<Rightarrow> 2 ^ 63 - 1) in if n < 2 ^ 45 then Some (nat n) else None)"

text \<open>A line: nothing to do, a message, a signal, or an error. The outer None is outside the model.\<close>

datatype dbc_line = LineSkip | LineMessage Message | LineSignal Signal | LineErr

definition bo_line :: "string \<times> string \<times> string \<Rightarrow> dbc_line" where
  "bo_line m = (case m of (mid, name, dlc) \<Rightarrow>
     case ParseUint 32 mid of None \<Rightarrow> LineErr | Some i \<Rightarrow>
     case ParseUint 8 dlc of None \<Rightarrow> LineErr | Some n \<Rightarrow>
     LineMessage \<lparr>msg_ID = word_of_int i, msg_Name = name, msg_DLC = word_of_int n, msg_Signals = []\<rparr>)"

definition sg_line :: "sg_match \<Rightarrow> dbc_line option" where
  "sg_line m =
     (case (ParseFloat (sm_factor m), ParseFloat (sm_offset m)) of
        (Some factor, Some offset) \<Rightarrow>
          (case (if sm_mux m = [] \<or> sm_mux m = ''M'' then Some None else map_option Some (Atoi (tl (sm_mux m)))) of
             None \<Rightarrow> Some LineErr
           | Some mux \<Rightarrow> do {
               start \<leftarrow> bit_number (sm_start m);
               len \<leftarrow> bit_number (sm_length m);
               Some (LineSignal \<lparr>sg_Name = sm_name m, sg_StartBit = start, sg_Length = len, sg_LittleEndian = (sm_order m = CHR ''1''),
                 sg_Signed = (sm_sign m = CHR ''-''), sg_Factor = factor, sg_Offset = offset, sg_Unit = sm_unit m,
                 sg_IsMultiplexor = (sm_mux m = ''M''), sg_MuxValue = mux,
                 sg_positions = bitPositions start len (sm_order m = CHR ''1'')\<rparr>) })
      | _ \<Rightarrow> Some LineErr)"

definition dbc_line_of :: "string \<Rightarrow> dbc_line option" where
  "dbc_line_of line =
     (let trimmed = TrimSpace line in
      if trimmed = [] then Some LineSkip
      else case boLineRE trimmed of
        Some m \<Rightarrow> Some (bo_line m)
      | None \<Rightarrow>
          (case sgLineRE (rev (dropWhile (\<lambda>c. c = CHR '' '' \<or> c = CHR 0x09) (rev line))) of
             None \<Rightarrow> Some LineSkip
           | Some m \<Rightarrow> sg_line m))"

text \<open>The messages in the order of the file, the current one last; an \<open>SG_\<close> line before any message is an error.\<close>

definition add_signal :: "Signal \<Rightarrow> Message list \<Rightarrow> Message list" where
  "add_signal sig ms = butlast ms @ [(last ms)\<lparr>msg_Signals := msg_Signals (last ms) @ [sig]\<rparr>]"

fun parse_lines :: "string list \<Rightarrow> Message list \<Rightarrow> Message list option option" where
  "parse_lines [] ms = Some (Some ms)"
| "parse_lines (line # lines) ms =
     (case dbc_line_of line of
        None \<Rightarrow> None
      | Some LineSkip \<Rightarrow> parse_lines lines ms
      | Some (LineMessage m) \<Rightarrow> parse_lines lines (ms @ [m])
      | Some (LineSignal sig) \<Rightarrow> if ms = [] then Some None else parse_lines lines (add_signal sig ms)
      | Some LineErr \<Rightarrow> Some None)"

text \<open>The two maps point to the messages; a later message takes the key of an earlier one.\<close>

definition db_of :: "Message list \<Rightarrow> Database" where
  "db_of ms = \<lparr>db_byID = fold (\<lambda>m. gm_put (msg_ID m) m) ms [], db_byName = fold (\<lambda>m. gm_put (msg_Name m) m) ms []\<rparr>"

text \<open>The lines the scanner returns, and whether it stopped with an error; Some None is a parse error.\<close>

definition ParseDBC :: "string list \<Rightarrow> bool \<Rightarrow> Database option option" where
  "ParseDBC lines read_error =
     (case parse_lines lines [] of
        None \<Rightarrow> None
      | Some None \<Rightarrow> Some None
      | Some (Some ms) \<Rightarrow> if read_error then Some None else Some (Some (db_of ms)))"

section \<open>Well-formed databases\<close>

definition is_word :: "string \<Rightarrow> bool" where
  "is_word s \<longleftrightarrow> s \<noteq> [] \<and> list_all re_word s"

definition signal_wf :: "Signal \<Rightarrow> bool" where
  "signal_wf sig \<longleftrightarrow> is_word (sg_Name sig) \<and>
     sg_positions sig = bitPositions (sg_StartBit sig) (sg_Length sig) (sg_LittleEndian sig) \<and>
     (sg_IsMultiplexor sig \<longrightarrow> sg_MuxValue sig = None) \<and> (\<forall>n. sg_MuxValue sig = Some n \<longrightarrow> 0 \<le> n)"

definition message_wf :: "Message \<Rightarrow> bool" where
  "message_wf m \<longleftrightarrow> is_word (msg_Name m) \<and> list_all signal_wf (msg_Signals m)"

definition database_wf :: "Database \<Rightarrow> bool" where
  "database_wf db \<longleftrightarrow>
     (\<forall>i m. MessageByID db i = Some m \<longrightarrow> msg_ID m = i \<and> message_wf m) \<and>
     (\<forall>n m. MessageByName db n = Some m \<longrightarrow> msg_Name m = n \<and> message_wf m) \<and>
     (\<forall>m. (\<exists>i. MessageByID db i = Some m) \<longrightarrow> (\<exists>m'. MessageByName db (msg_Name m) = Some m'))"

lemma word_no_slash: "is_word s \<Longrightarrow> CHR ''/'' \<notin> set s"
  by (auto simp: is_word_def list_all_iff re_word_def is_dec_def Let_def)

lemma re_some_word: "re_some re_word s = Some (w, t) \<Longrightarrow> is_word w"
  by (cases s) (auto simp: re_some_def re_many_def is_word_def list_all_iff dest: set_takeWhileD split: if_splits)

lemma re_some_digits: "re_some is_dec s = Some (w, t) \<Longrightarrow> w \<noteq> [] \<and> list_all is_dec w"
  by (cases s) (auto simp: re_some_def re_many_def list_all_iff dest: set_takeWhileD split: if_splits)

definition mux_form :: "string \<Rightarrow> bool" where
  "mux_form s \<longleftrightarrow> s = [] \<or> s = ''M'' \<or> (\<exists>ds. s = CHR ''m'' # ds \<and> ds \<noteq> [] \<and> list_all is_dec ds)"

lemma re_mux_form: "mux_form (fst (re_mux s))"
  by (auto simp: re_mux_def mux_form_def split: list.split option.split dest: re_some_digits)

lemma boLineRE_name: "boLineRE s = Some (i, name, dlc) \<Longrightarrow> is_word name"
  by (auto simp: boLineRE_def Option.bind_eq_Some_conv dest: re_some_word)

lemma sg_head_form: "sg_head s = Some (name, mux, t) \<Longrightarrow> is_word name \<and> mux_form mux"
  by (auto simp: sg_head_def Option.bind_eq_Some_conv Let_def re_mux_form case_prod_unfold dest: re_some_word)

lemma sgLineRE_match: "sgLineRE s = Some m \<Longrightarrow> is_word (sm_name m) \<and> mux_form (sm_mux m)"
  by (auto simp: sgLineRE_def Option.bind_eq_Some_conv dest: sg_head_form)

lemma digits_val_nonneg: "list_all is_dec s \<Longrightarrow> 0 \<le> n \<Longrightarrow> 0 \<le> foldl (\<lambda>n c. 10 * n + dec_val c) n s"
  by (induction s arbitrary: n) (auto simp: dec_val_def is_dec_def)

lemma Atoi_digits: "list_all is_dec ds \<Longrightarrow> ds \<noteq> [] \<Longrightarrow> Atoi ds = Some n \<Longrightarrow> 0 \<le> n"
proof -
  assume a: "list_all is_dec ds" "ds \<noteq> []" "Atoi ds = Some n"
  then have "hd ds \<noteq> CHR ''-''" "hd ds \<noteq> CHR ''+''" by (cases ds; auto simp: is_dec_def)+
  with a digits_val_nonneg [of ds 0] show "0 \<le> n"
    by (auto simp: Atoi_def Let_def digits_val_def split: if_splits)
qed

lemma sg_line_wf:
  assumes "is_word (sm_name m)" and "mux_form (sm_mux m)" and "sg_line m = Some (LineSignal sig)"
  shows "signal_wf sig"
  using assms Atoi_digits
  by (auto simp: sg_line_def signal_wf_def mux_form_def Option.bind_eq_Some_conv split: option.splits if_splits)

lemma sg_line_signal: "sg_line m \<noteq> Some (LineMessage x)"
  by (auto simp: sg_line_def Option.bind_eq_Some_conv split: option.splits)

lemma line_wf:
  "dbc_line_of line = Some (LineMessage m) \<Longrightarrow> message_wf m"
  "dbc_line_of line = Some (LineSignal sig) \<Longrightarrow> signal_wf sig"
  by (auto simp: dbc_line_of_def bo_line_def message_wf_def sg_line_signal Let_def split: if_splits option.splits prod.splits
      dest: boLineRE_name sgLineRE_match sg_line_wf)

lemma add_signal_wf: "list_all message_wf ms \<Longrightarrow> ms \<noteq> [] \<Longrightarrow> signal_wf sig \<Longrightarrow> list_all message_wf (add_signal sig ms)"
  by (auto simp: add_signal_def list_all_iff message_wf_def dest: in_set_butlastD)

lemma parse_lines_wf: "list_all message_wf ms \<Longrightarrow> parse_lines lines ms = Some (Some ms') \<Longrightarrow> list_all message_wf ms'"
  by (induction lines ms rule: parse_lines.induct)
    (auto simp: line_wf add_signal_wf split: option.splits dbc_line.splits if_splits)

lemma fold_put_get:
  "gm_get (fold (\<lambda>m. gm_put (f m) m) ms acc) k =
     (case rev (filter (\<lambda>m. f m = k) ms) of [] \<Rightarrow> gm_get acc k | m # _ \<Rightarrow> Some m)"
  by (induction ms arbitrary: acc) (auto split: list.split simp: append_eq_Cons_conv)

lemma db_lookup:
  "MessageByID (db_of ms) i = (case rev (filter (\<lambda>m. msg_ID m = i) ms) of [] \<Rightarrow> None | m # _ \<Rightarrow> Some m)"
  "MessageByName (db_of ms) n = (case rev (filter (\<lambda>m. msg_Name m = n) ms) of [] \<Rightarrow> None | m # _ \<Rightarrow> Some m)"
  by (simp_all add: MessageByID_def MessageByName_def db_of_def fold_put_get split: list.split)

lemma last_match:
  assumes "(case rev (filter P ms) of [] \<Rightarrow> None | m # _ \<Rightarrow> Some m) = Some x"
  shows "x \<in> set ms \<and> P x"
proof -
  obtain ys where "rev (filter P ms) = x # ys"
    using assms by (cases "rev (filter P ms)") (simp_all del: rev_is_Nil_conv rev_eq_Cons_iff)
  then have "set (rev (filter P ms)) = set (x # ys)" by (simp only:)
  then show ?thesis by auto
qed

lemma only_match:
  assumes "distinct (map f ms)" and "m \<in> set ms"
  shows "(case rev (filter (\<lambda>x. f x = f m) ms) of [] \<Rightarrow> None | x # _ \<Rightarrow> Some x) = Some m"
proof -
  have "x = m" if "x \<in> set ms" "f x = f m" for x
    using assms that by (auto simp: distinct_map inj_on_def)
  then have "set (rev (filter (\<lambda>x. f x = f m) ms)) = {m}" using assms(2) by auto
  then show ?thesis by (cases "rev (filter (\<lambda>x. f x = f m) ms)") auto
qed

lemma database_wf_db_of: "list_all message_wf ms \<Longrightarrow> database_wf (db_of ms)"
proof -
  assume wf: "list_all message_wf ms"
  have "MessageByName (db_of ms) (msg_Name m) \<noteq> None" if "m \<in> set ms" for m
    using that by (auto simp: db_lookup filter_empty_conv split: list.splits)
  with wf show ?thesis
    unfolding database_wf_def db_lookup list_all_iff by (auto dest!: last_match simp: db_lookup)
qed

text \<open>A file whose messages have distinct IDs and names and, within each message, distinct signal names.\<close>

definition unambiguous :: "Message list \<Rightarrow> bool" where
  "unambiguous ms \<longleftrightarrow> distinct (map msg_ID ms) \<and> distinct (map msg_Name ms) \<and> (\<forall>m \<in> set ms. distinct (map sg_Name (msg_Signals m)))"

lemma db_ok_db_of: "list_all message_wf ms \<Longrightarrow> unambiguous ms \<Longrightarrow> db_ok (db_of ms)"
  unfolding db_ok_def db_lookup unambiguous_def
  by (auto dest!: last_match simp: only_match list_all_iff message_wf_def dest: word_no_slash)

text \<open>C16. The parser builds well-formed databases. Whatever file it accepts, a message found by ID or by name has that ID or name, names are
  non-empty words, every signal carries the bit positions of its start bit, length and byte
  order, no signal is both multiplexor and multiplexed, and multiplexor values are not negative; for a file without duplicate IDs and names the
  two maps agree and the database has the well-formedness the adapter relies on.\<close>

theorem parsed_database:
  assumes "ParseDBC lines read_error = Some (Some db)"
  shows "database_wf db \<and> (\<exists>ms. parse_lines lines [] = Some (Some ms) \<and> db = db_of ms \<and> (unambiguous ms \<longrightarrow> db_ok db))"
proof -
  obtain ms where ms: "parse_lines lines [] = Some (Some ms)" "db = db_of ms"
    using assms by (auto simp: ParseDBC_def split: option.splits if_splits)
  then have "list_all message_wf ms" using parse_lines_wf [of "[]"] by simp
  with ms database_wf_db_of db_ok_db_of show ?thesis by blast
qed

definition demo_file :: "string list" where
  "demo_file = [''VERSION'', [], ''BO_ 256 Engine: 8 ECU'',
     '' SG_ Mode M : 0|8@1+ (1,0) [0|255] '' @ [CHR 0x22, CHR 0x22] @ '' ECU'',
     '' SG_ Torque m1 : 15|12@0- (1,0) [0|0] '' @ [CHR 0x22] @ ''Nm'' @ [CHR 0x22] @ '' ECU'']"

definition demo_messages :: "Message list" where
  "demo_messages = [\<lparr>msg_ID = 256, msg_Name = ''Engine'', msg_DLC = 8, msg_Signals =
     [\<lparr>sg_Name = ''Mode'', sg_StartBit = 0, sg_Length = 8, sg_LittleEndian = True, sg_Signed = False, sg_Factor = FFin 1, sg_Offset = FZero False,
        sg_Unit = [], sg_IsMultiplexor = True, sg_MuxValue = None, sg_positions = [0, 1, 2, 3, 4, 5, 6, 7]\<rparr>,
      \<lparr>sg_Name = ''Torque'', sg_StartBit = 15, sg_Length = 12, sg_LittleEndian = False, sg_Signed = True, sg_Factor = FFin 1, sg_Offset = FZero False,
        sg_Unit = ''Nm'', sg_IsMultiplexor = False, sg_MuxValue = Some 1, sg_positions = [20, 21, 22, 23, 8, 9, 10, 11, 12, 13, 14, 15]\<rparr>]\<rparr>]"

lemma ParseFloat_demo: "ParseFloat ''1'' = Some (FFin 1)" "ParseFloat ''0'' = Some (FZero False)"
proof -
  have "fround False 1 = FFin 1" using f_of_int_exact [of 1] by (simp add: f_of_int_def frnd_def)
  moreover have "fround False 0 = FZero False" by (simp add: fround_def)
  moreover have "special_float ''1'' = None" "split_sign ''1'' = (False, False, ''1'')" "base_prefix ''1'' = None"
      "read_mantissa False 0 0 False False ''1'' = (1, 0, True, [])" by code_simp+
  moreover have "special_float ''0'' = None" "split_sign ''0'' = (False, False, ''0'')" "base_prefix ''0'' = None"
      "read_mantissa False 0 0 False False ''0'' = (0, 0, True, [])" by code_simp+
  ultimately show "ParseFloat ''1'' = Some (FFin 1)" "ParseFloat ''0'' = Some (FZero False)"
    by (simp_all add: ParseFloat_def split_sign_def)
qed

lemma demo_lines:
  "dbc_line_of ''VERSION'' = Some LineSkip" "dbc_line_of [] = Some LineSkip"
  "dbc_line_of ''BO_ 256 Engine: 8 ECU'' = Some (LineMessage \<lparr>msg_ID = 256, msg_Name = ''Engine'', msg_DLC = 8, msg_Signals = []\<rparr>)"
  by code_simp+

lemma demo_signals:
  "boLineRE (TrimSpace (demo_file ! 3)) = None" "boLineRE (TrimSpace (demo_file ! 4)) = None"
  "TrimSpace (demo_file ! 3) \<noteq> []" "TrimSpace (demo_file ! 4) \<noteq> []"
  "sgLineRE (rev (dropWhile (\<lambda>c. c = CHR '' '' \<or> c = CHR 0x09) (rev (demo_file ! 3)))) =
     Some \<lparr>sm_name = ''Mode'', sm_mux = ''M'', sm_start = ''0'', sm_length = ''8'', sm_order = CHR ''1'', sm_sign = CHR ''+'',
       sm_factor = ''1'', sm_offset = ''0'', sm_unit = []\<rparr>"
  "sgLineRE (rev (dropWhile (\<lambda>c. c = CHR '' '' \<or> c = CHR 0x09) (rev (demo_file ! 4)))) =
     Some \<lparr>sm_name = ''Torque'', sm_mux = ''m1'', sm_start = ''15'', sm_length = ''12'', sm_order = CHR ''0'', sm_sign = CHR ''-'',
       sm_factor = ''1'', sm_offset = ''0'', sm_unit = ''Nm''\<rparr>"
  "bit_number ''0'' = Some 0" "bit_number ''8'' = Some 8" "bit_number ''15'' = Some 15" "bit_number ''12'' = Some 12" "Atoi ''1'' = Some 1"
  by code_simp+

lemma demo_file_parses: "parse_lines demo_file [] = Some (Some demo_messages)"
proof -
  have pos: "bitPositions 0 8 True = [0, 1, 2, 3, 4, 5, 6, 7]" "bitPositions 15 12 False = [20, 21, 22, 23, 8, 9, 10, 11, 12, 13, 14, 15]"
    by code_simp+
  have sig: "dbc_line_of (demo_file ! 3) = Some (LineSignal (msg_Signals (hd demo_messages) ! 0))"
      "dbc_line_of (demo_file ! 4) = Some (LineSignal (msg_Signals (hd demo_messages) ! 1))"
    using pos by (simp_all add: dbc_line_of_def demo_signals sg_line_def ParseFloat_demo demo_messages_def Let_def)
  have "demo_file = [''VERSION'', [], ''BO_ 256 Engine: 8 ECU'', demo_file ! 3, demo_file ! 4]" by (simp add: demo_file_def)
  moreover have "parse_lines [''VERSION'', [], ''BO_ 256 Engine: 8 ECU'', demo_file ! 3, demo_file ! 4] [] = Some (Some demo_messages)"
    by (simp add: demo_lines sig add_signal_def) (simp add: demo_messages_def)
  ultimately show ?thesis by metis
qed

theorem parsed_database_witness: "ParseDBC demo_file False = Some (Some (db_of demo_messages)) \<and> db_ok (db_of demo_messages)"
proof -
  have "ParseDBC demo_file False = Some (Some (db_of demo_messages))" by (simp add: ParseDBC_def demo_file_parses)
  moreover have "unambiguous demo_messages" by (simp add: unambiguous_def demo_messages_def)
  ultimately show ?thesis using parsed_database [of demo_file False "db_of demo_messages"] demo_file_parses by auto
qed

end
