(* ===== verification/Http_Adapter.thy ===== *)
theory Http_Adapter
  imports Mqtt_Protocol Go_Text
begin

text \<open>
  The HTTP adapter (\<open>internal/adapters/http\<close>): on-demand reads, the per-device poll loop and the
  webhook. The HTTP client is a parameter: a request to a URL fails (its error in the
  chain) or is answered with a status and a body, a body that is not JSON being None. The
  envelope of a value has the fields of the MQTT one, so its JSON mapping is shared.
  The calls of \<open>onUpdate\<close> are returned in order; Go iterates over a snapshot map in an
  unspecified order, the model in the order of the document.
\<close>

section \<open>State and configuration\<close>

definition LabelEndpoint :: string where
  "LabelEndpoint = ''http.endpoint''"

definition LabelPollInterval :: string where
  "LabelPollInterval = ''http.poll_interval''"

definition defaultPollInterval :: duration where
  "defaultPollInterval = 5 * second"

datatype http_reply = HttpFail fault | HttpReply int "json option"

type_synonym http_client = "string \<Rightarrow> http_reply"

record HttpAdapter =
  ha_onUpdate :: bool
  ha_pollInterval :: duration
  ha_polling :: "(string, string \<times> duration) gomap"   \<comment> \<open>\<open>pollCancel\<close>: the running poll loops\<close>
  ha_webhookDevices :: "string set"

definition ha_New :: "bool \<Rightarrow> duration option \<Rightarrow> HttpAdapter" where
  "ha_New onUpdate poll = \<lparr>ha_onUpdate = onUpdate,
     ha_pollInterval = (case poll of None \<Rightarrow> defaultPollInterval | Some d \<Rightarrow> d), ha_polling = [], ha_webhookDevices = {}\<rparr>"

definition propertyURL :: "string \<Rightarrow> string \<Rightarrow> string" where
  "propertyURL endpoint path = TrimRight1 CHR ''/'' endpoint @ ''/properties/'' @ path"

definition snapshotURL :: "string \<Rightarrow> string" where
  "snapshotURL endpoint = TrimRight1 CHR ''/'' endpoint @ ''/properties''"

section \<open>Values\<close>

definition http_decodeValue :: "wireValue \<Rightarrow> PropertyValue" where
  "http_decodeValue w = \<lparr>pv_Bool = w_Bool w, pv_Int = w_Int w, pv_Float = w_Float w, pv_String = w_String w,
     pv_Bytes = w_Bytes w, pv_JSON = None\<rparr>"

definition http_encodeValue :: "PropertyValue \<Rightarrow> wireValue" where
  "http_encodeValue v = \<lparr>w_Bool = pv_Bool v, w_Int = pv_Int v, w_Float = pv_Float v, w_String = pv_String v, w_Bytes = pv_Bytes v\<rparr>"

text \<open>The JSON text of a value, by its tree; None is the empty string of a failed marshalling.\<close>

definition snapshotKey :: "wireValue \<Rightarrow> json option" where
  "snapshotKey w = marshal_wire w"

section \<open>Reads\<close>

definition getValue :: "http_client \<Rightarrow> string \<Rightarrow> fault + wireValue" where
  "getValue client url =
     (case client url of
        HttpFail e \<Rightarrow> Inl e
      | HttpReply code body \<Rightarrow>
          if 400 \<le> code then Inl (Fault [HttpStatusE code])
          else case body of
            None \<Rightarrow> Inl opaque_fault
          | Some j \<Rightarrow> (case unmarshal_wire j of None \<Rightarrow> Inl opaque_fault | Some w \<Rightarrow> Inr w))"

definition ha_ReadProperty :: "http_client \<Rightarrow> Device \<Rightarrow> string \<Rightarrow> fault + PropertyValue" where
  "ha_ReadProperty client d path =
     (let endpoint = label_at d LabelEndpoint in
      if endpoint = [] then Inl opaque_fault
      else case getValue client (propertyURL endpoint path) of
             Inl e \<Rightarrow> Inl e
           | Inr w \<Rightarrow> Inr (http_decodeValue w))"

section \<open>Polling\<close>

text \<open>\<open>json.Decode\<close> into \<open>map[string]wireValue\<close>: later duplicates replace earlier ones, \<open>null\<close> is the nil map.\<close>

fun dec_snapshot :: "json \<Rightarrow> (string, wireValue) gomap option" where
  "dec_snapshot (JObj kvs) = dec_fold (\<lambda>(k, j) m. map_option (\<lambda>w. gm_put k w m) (unmarshal_wire j)) kvs []"
| "dec_snapshot JNull = Some []"
| "dec_snapshot _ = None"

type_synonym http_event = "string \<times> string \<times> PropertyValue"

definition set_last :: "string \<Rightarrow> json option \<Rightarrow> (string, json) gomap \<Rightarrow> (string, json) gomap" where
  "set_last path key m = (case key of None \<Rightarrow> gm_del path m | Some j \<Rightarrow> gm_put path j m)"

fun poll_entries :: "bool \<Rightarrow> string \<Rightarrow> (string \<times> wireValue) list \<Rightarrow> (string, json) gomap \<Rightarrow> (string, json) gomap \<times> http_event list" where
  "poll_entries cb dev [] seen = (seen, [])"
| "poll_entries cb dev ((path, w) # es) seen =
     (if gm_get seen path = snapshotKey w then poll_entries cb dev es seen
      else case poll_entries cb dev es (set_last path (snapshotKey w) seen) of
        (seen', evs) \<Rightarrow> (seen', (if cb then [(dev, path, http_decodeValue w)] else []) @ evs))"

definition poll :: "http_client \<Rightarrow> bool \<Rightarrow> string \<Rightarrow> string \<Rightarrow> (string, json) gomap \<Rightarrow> (string, json) gomap \<times> http_event list" where
  "poll client cb dev endpoint seen =
     (case client (snapshotURL endpoint) of
        HttpFail e \<Rightarrow> (seen, [])
      | HttpReply code body \<Rightarrow>
          if 400 \<le> code then (seen, [])
          else case body of
            None \<Rightarrow> (seen, [])
          | Some j \<Rightarrow> (case dec_snapshot j of None \<Rightarrow> (seen, []) | Some snap \<Rightarrow> poll_entries cb dev snap seen))"

text \<open>
  The poll loop, with the client's behaviour at the first poll and at each tick until it is cancelled.
  \<open>time.NewTicker\<close> panics on a non-positive interval (None).
\<close>

fun poll_rounds :: "http_client list \<Rightarrow> bool \<Rightarrow> string \<Rightarrow> string \<Rightarrow> (string, json) gomap \<Rightarrow> (string, json) gomap \<times> http_event list" where
  "poll_rounds [] cb dev endpoint seen = (seen, [])"
| "poll_rounds (c # cs) cb dev endpoint seen =
     (case poll c cb dev endpoint seen of (seen', evs) \<Rightarrow>
        (case poll_rounds cs cb dev endpoint seen' of (seen'', evs') \<Rightarrow> (seen'', evs @ evs')))"

definition pollLoop :: "http_client list \<Rightarrow> bool \<Rightarrow> string \<Rightarrow> string \<Rightarrow> duration \<Rightarrow> http_event list option" where
  "pollLoop clients cb dev endpoint interval =
     (if interval \<le> 0 then None else Some (snd (poll_rounds clients cb dev endpoint [])))"

definition poll_interval_of :: "HttpAdapter \<Rightarrow> Device \<Rightarrow> duration" where
  "poll_interval_of a d =
     (let raw = label_at d LabelPollInterval in
      if raw = [] then ha_pollInterval a
      else case ParseDuration raw of None \<Rightarrow> ha_pollInterval a | Some p \<Rightarrow> p)"

definition ha_WatchDevice :: "fault option \<Rightarrow> Device \<Rightarrow> HttpAdapter \<Rightarrow> HttpAdapter \<times> fault option" where
  "ha_WatchDevice ctxErr d a =
     (case ctxErr of Some e \<Rightarrow> (a, Some e) | None \<Rightarrow>
      (let endpoint = label_at d LabelEndpoint in
       if endpoint = [] then (a, Some opaque_fault)
       else if gm_get (ha_polling a) (dev_ID d) \<noteq> None then (a, None)
       else (a\<lparr>ha_polling := gm_put (dev_ID d) (endpoint, poll_interval_of a d) (ha_polling a),
               ha_webhookDevices := insert (dev_ID d) (ha_webhookDevices a)\<rparr>, None)))"

definition ha_Close :: "HttpAdapter \<Rightarrow> HttpAdapter" where
  "ha_Close a = a\<lparr>ha_polling := []\<rparr>"

section \<open>Webhook\<close>

fun dec_event_field :: "string \<times> json \<Rightarrow> string \<times> wireValue \<Rightarrow> (string \<times> wireValue) option" where
  "dec_event_field (k, j) (p, w) =
     (if EqualFold k ''path'' then map_option (\<lambda>p'. (p', w)) (dec_string j p)
      else if EqualFold k ''value'' then
        (case j of JObj kvs \<Rightarrow> map_option (\<lambda>w'. (p, w')) (dec_fold dec_wire_field kvs w) | JNull \<Rightarrow> Some (p, w) | _ \<Rightarrow> None)
      else Some (p, w))"

fun dec_event :: "json \<Rightarrow> (string \<times> wireValue) option" where
  "dec_event (JObj kvs) = dec_fold dec_event_field kvs ([], zero_wire)"
| "dec_event JNull = Some ([], zero_wire)"
| "dec_event _ = None"

text \<open>The HTTP status of the answer and the calls of \<open>onUpdate\<close>.\<close>

definition handleWebhookEvent :: "HttpAdapter \<Rightarrow> string \<Rightarrow> json option \<Rightarrow> int \<times> http_event list" where
  "handleWebhookEvent a deviceID body =
     (if deviceID \<notin> ha_webhookDevices a then (404, [])
      else case (case body of None \<Rightarrow> None | Some j \<Rightarrow> dec_event j) of
        None \<Rightarrow> (400, [])
      | Some (path, w) \<Rightarrow>
          if path = [] then (400, [])
          else (204, if ha_onUpdate a then [(deviceID, path, http_decodeValue w)] else []))"

section \<open>Properties\<close>

text \<open>What a run of snapshots has reported for one path: its successive different values.\<close>

definition snapshot_of :: "http_client \<Rightarrow> string \<Rightarrow> (string, wireValue) gomap" where
  "snapshot_of client endpoint =
     (case client (snapshotURL endpoint) of
        HttpFail e \<Rightarrow> []
      | HttpReply code body \<Rightarrow> if 400 \<le> code then [] else
          (case body of None \<Rightarrow> [] | Some j \<Rightarrow> (case dec_snapshot j of None \<Rightarrow> [] | Some s \<Rightarrow> s)))"

lemma poll_snapshot: "poll client cb dev endpoint seen = poll_entries cb dev (snapshot_of client endpoint) seen"
  by (simp add: poll_def snapshot_of_def split: http_reply.split option.split)

lemma dec_fold_put_ok:
  "dec_fold (\<lambda>(k, j) m. map_option (\<lambda>w. gm_put k w m) (f j)) kvs m = Some m' \<Longrightarrow> gm_ok m \<Longrightarrow> gm_ok m'"
  by (induction kvs arbitrary: m) (auto split: option.splits)

lemma snapshot_ok: "gm_ok (snapshot_of client endpoint)"
proof -
  have "dec_snapshot j = Some s \<Longrightarrow> gm_ok s" for j s
    by (cases j rule: dec_snapshot.cases) (auto dest: dec_fold_put_ok)
  then show ?thesis by (auto simp: snapshot_of_def split: http_reply.split option.split)
qed

lemma set_last_get [simp]: "gm_get (set_last p k m) = (gm_get m)(p := k)"
  by (cases k) (simp_all add: set_last_def)

definition reports :: "string \<Rightarrow> http_event list \<Rightarrow> PropertyValue list" where
  "reports p evs = map (\<lambda>(d, q, v). v) (filter (\<lambda>(d, q, v). q = p) evs)"

lemma reports_simps [simp]:
  "reports p [] = []" "reports p ((d, q, v) # evs) = (if q = p then [v] else []) @ reports p evs"
  "reports p (xs @ ys) = reports p xs @ reports p ys"
  by (simp_all add: reports_def)

text \<open>One poll reports a path of the snapshot when its key differs from the one seen, and remembers the snapshot's keys.\<close>

lemma poll_entries_path:
  assumes "gm_ok snap"
  shows "reports p (snd (poll_entries True dev snap seen)) =
      (case gm_get snap p of None \<Rightarrow> [] | Some w \<Rightarrow> if gm_get seen p = snapshotKey w then [] else [http_decodeValue w]) \<and>
    gm_get (fst (poll_entries True dev snap seen)) p = (case gm_get snap p of Some w \<Rightarrow> snapshotKey w | None \<Rightarrow> gm_get seen p)"
  using assms
proof (induction snap arbitrary: seen)
  case Nil
  then show ?case by simp
next
  case (Cons e es)
  obtain q w where e: "e = (q, w)" by fastforce
  with Cons.prems have ok: "gm_ok es" and q: "gm_get es q = None"
    by (auto simp: gm_ok_def map_of_eq_None_iff)
  show ?case
  proof (cases "gm_get seen q = snapshotKey w")
    case True
    with Cons.IH [OF ok, of seen] e q show ?thesis by (cases "q = p") auto
  next
    case False
    with Cons.IH [OF ok, of "set_last q (snapshotKey w) seen"] e q show ?thesis
      by (cases "q = p") (auto simp: case_prod_beta split: option.splits)
  qed
qed

text \<open>The values of a sequence whose key differs from the one before.\<close>

fun changes :: "json option \<Rightarrow> wireValue list \<Rightarrow> PropertyValue list" where
  "changes old [] = []"
| "changes old (w # ws) = (if old = snapshotKey w then changes old ws else http_decodeValue w # changes (snapshotKey w) ws)"

lemma poll_rounds_path:
  "reports p (snd (poll_rounds clients True dev endpoint seen)) =
     changes (gm_get seen p) (List.map_filter (\<lambda>c. gm_get (snapshot_of c endpoint) p) clients)"
proof (induction clients arbitrary: seen)
  case Nil
  then show ?case by (simp add: List.map_filter_simps)
next
  case (Cons c cs)
  obtain seen' evs where r: "poll c True dev endpoint seen = (seen', evs)" by fastforce
  note e = poll_entries_path [OF snapshot_ok [of c endpoint], of p dev seen, folded poll_snapshot, unfolded r, simplified]
  show ?case
    using e Cons.IH [of seen'] r by (auto simp: List.map_filter_simps case_prod_beta split: option.split)
qed


definition snap_client :: "int \<Rightarrow> http_client" where
  "snap_client n = (\<lambda>_. HttpReply 200 (Some (JObj [(''t'', JObj [(''int'', JNum (NInt n))])])))"


text \<open>
  A device label with a non-positive poll interval is accepted by \<open>WatchDevice\<close>, and the poll loop it starts
  panics.
\<close>

lemma zero_interval_panics:
  assumes "label_at d LabelEndpoint \<noteq> []" and "label_at d LabelPollInterval = ''0s''" and "gm_get (ha_polling a) (dev_ID d) = None"
  shows "snd (ha_WatchDevice None d a) = None \<and>
    gm_get (ha_polling (fst (ha_WatchDevice None d a))) (dev_ID d) = Some (label_at d LabelEndpoint, 0) \<and>
    pollLoop clients cb (dev_ID d) (label_at d LabelEndpoint) 0 = None"
proof -
  have "ParseDuration ''0s'' = Some 0" by code_simp
  with assms show ?thesis by (simp add: ha_WatchDevice_def poll_interval_of_def pollLoop_def Let_def)
qed

text \<open>Watched devices: the webhook accepts exactly the devices whose watch succeeded, and polling is started once for each.\<close>

lemma watch_accepts:
  assumes "snd (ha_WatchDevice None d a) = None" and "gm_get (ha_polling a) (dev_ID d) \<noteq> None \<Longrightarrow> dev_ID d \<in> ha_webhookDevices a"
  shows "ha_webhookDevices (fst (ha_WatchDevice None d a)) = insert (dev_ID d) (ha_webhookDevices a)"
  using assms by (auto simp: ha_WatchDevice_def Let_def split: if_splits)

lemma watch_twice: "snd (ha_WatchDevice None d a) = None \<Longrightarrow> ha_WatchDevice None d (fst (ha_WatchDevice None d a)) = (fst (ha_WatchDevice None d a), None)"
  by (auto simp: ha_WatchDevice_def Let_def split: if_splits)

text \<open>After \<open>Close\<close> the webhook still accepts the devices that were watched.\<close>

lemma close_keeps_webhook: "ha_webhookDevices (ha_Close a) = ha_webhookDevices a"
  by (simp add: ha_Close_def)

lemma webhook_statuses:
  "fst (handleWebhookEvent a d b) \<in> {204, 400, 404} \<and> (snd (handleWebhookEvent a d b) \<noteq> [] \<longrightarrow> d \<in> ha_webhookDevices a \<and> fst (handleWebhookEvent a d b) = 204)"
  by (auto simp: handleWebhookEvent_def split: option.split)

text \<open>A device's error status reaches the caller of a read as that status.\<close>

lemma read_status:
  "label_at d LabelEndpoint \<noteq> [] \<Longrightarrow> client (propertyURL (label_at d LabelEndpoint) path) = HttpReply code body \<Longrightarrow> 400 \<le> code \<Longrightarrow>
   ha_ReadProperty client d path = Inl (Fault [HttpStatusE code])"
  by (simp add: ha_ReadProperty_def getValue_def Let_def)

end
