(* ===== verification/Config.thy ===== *)
theory Config
  imports Go_Text
begin

text \<open>
  The gateway's configuration (\<open>internal/config/config.go\<close>) and the small pure parts of its
  operations endpoints: the log level (\<open>internal/logging\<close>), the health endpoint
  (\<open>internal/health\<close>), the metrics label (\<open>internal/metrics\<close>) and the table of custom
  transports (\<open>internal/adapter/registry.go\<close>). The YAML reader is third-party code: \<open>Load\<close> takes
  what it makes of the file. The environment is a function from variable names to values,
  an unset variable being the empty string, as \<open>os.Getenv\<close> has it.
\<close>

section \<open>Configuration\<close>

record TLS =
  tls_Cert :: string
  tls_Key :: string
  tls_CA :: string

record AuthConf =
  auth_APIKeyHeader :: string
  auth_JWKSURL :: string

record HTTPConf =
  hc_PollInterval :: duration
  hc_WebhookPort :: int
  hc_MTLSCert :: string
  hc_MTLSKey :: string

record Adapters =
  ad_MQTTBroker :: string
  ad_MQTTClientID :: string
  ad_HTTP :: HTTPConf
  ad_CANInterface :: string
  ad_CANDBCPath :: string
  ad_Custom :: "string list"

record Gateway =
  gw_GRPCPort :: int
  gw_HTTPPort :: int
  gw_MetricsPort :: int
  gw_TLS :: TLS
  gw_Auth :: AuthConf
  gw_RegistryPath :: string
  gw_Adapters :: Adapters
  gw_HeartbeatInterval :: duration
  gw_DeviceTimeout :: duration

definition zero_Gateway :: Gateway where
  "zero_Gateway = \<lparr>gw_GRPCPort = 0, gw_HTTPPort = 0, gw_MetricsPort = 0,
     gw_TLS = \<lparr>tls_Cert = [], tls_Key = [], tls_CA = []\<rparr>, gw_Auth = \<lparr>auth_APIKeyHeader = [], auth_JWKSURL = []\<rparr>,
     gw_RegistryPath = [], gw_Adapters = \<lparr>ad_MQTTBroker = [], ad_MQTTClientID = [],
       ad_HTTP = \<lparr>hc_PollInterval = 0, hc_WebhookPort = 0, hc_MTLSCert = [], hc_MTLSKey = []\<rparr>,
       ad_CANInterface = [], ad_CANDBCPath = [], ad_Custom = []\<rparr>,
     gw_HeartbeatInterval = 0, gw_DeviceTimeout = 0\<rparr>"

datatype config_file = Missing | Unreadable | Malformed | Parsed Gateway

fun Load :: "config_file \<Rightarrow> Gateway option" where
  "Load Missing = Some zero_Gateway"
| "Load Unreadable = None"
| "Load Malformed = None"
| "Load (Parsed c) = Some c"

type_synonym env = "string \<Rightarrow> string"

text \<open>
  An override writes one field when its variable is set, and fails when the value does not parse.
  \<open>upd f\<close> applies \<open>f\<close> to the field.
\<close>

type_synonym step = "Gateway \<Rightarrow> Gateway \<times> fault option"

definition override :: "(string \<Rightarrow> 'a option) \<Rightarrow> (('a \<Rightarrow> 'a) \<Rightarrow> Gateway \<Rightarrow> Gateway) \<Rightarrow> env \<Rightarrow> string \<Rightarrow> step" where
  "override parse upd env key c =
     (let v = env key in
      if v = [] then (c, None)
      else case parse v of None \<Rightarrow> (c, Some opaque_fault) | Some x \<Rightarrow> (upd (\<lambda>_. x) c, None))"

abbreviation overrideString :: "((string \<Rightarrow> string) \<Rightarrow> Gateway \<Rightarrow> Gateway) \<Rightarrow> env \<Rightarrow> string \<Rightarrow> step" where
  "overrideString \<equiv> override Some"

abbreviation overrideInt :: "((int \<Rightarrow> int) \<Rightarrow> Gateway \<Rightarrow> Gateway) \<Rightarrow> env \<Rightarrow> string \<Rightarrow> step" where
  "overrideInt \<equiv> override Atoi"

abbreviation overrideDuration :: "((duration \<Rightarrow> duration) \<Rightarrow> Gateway \<Rightarrow> Gateway) \<Rightarrow> env \<Rightarrow> string \<Rightarrow> step" where
  "overrideDuration \<equiv> override ParseDuration"

definition split_names :: "string \<Rightarrow> string list" where
  "split_names v = filter (\<lambda>p. p \<noteq> []) (map TrimSpace (Split1 CHR '','' v))"

abbreviation overrideStringSlice :: "((string list \<Rightarrow> string list) \<Rightarrow> Gateway \<Rightarrow> Gateway) \<Rightarrow> env \<Rightarrow> string \<Rightarrow> step" where
  "overrideStringSlice \<equiv> override (\<lambda>v. Some (split_names v))"

fun run_steps :: "step list \<Rightarrow> step" where
  "run_steps [] c = (c, None)"
| "run_steps (f # fs) c = (case f c of (c', Some e) \<Rightarrow> (c', Some e) | (c', None) \<Rightarrow> run_steps fs c')"

definition env_steps :: "env \<Rightarrow> step list" where
  "env_steps env =
     [overrideInt gw_GRPCPort_update env ''UDAL_GRPC_PORT'',
      overrideInt gw_HTTPPort_update env ''UDAL_HTTP_PORT'',
      overrideInt gw_MetricsPort_update env ''UDAL_METRICS_PORT'',
      overrideString (gw_TLS_update \<circ> tls_Cert_update) env ''UDAL_TLS_CERT'',
      overrideString (gw_TLS_update \<circ> tls_Key_update) env ''UDAL_TLS_KEY'',
      overrideString (gw_TLS_update \<circ> tls_CA_update) env ''UDAL_MTLS_CA_CERT'',
      overrideString (gw_Auth_update \<circ> auth_APIKeyHeader_update) env ''UDAL_API_KEY_HEADER'',
      overrideString (gw_Auth_update \<circ> auth_JWKSURL_update) env ''UDAL_JWT_JWKS_URL'',
      overrideString gw_RegistryPath_update env ''UDAL_REGISTRY_PATH'',
      overrideString (gw_Adapters_update \<circ> ad_MQTTBroker_update) env ''UDAL_MQTT_BROKER'',
      overrideString (gw_Adapters_update \<circ> ad_MQTTClientID_update) env ''UDAL_MQTT_CLIENT_ID'',
      overrideDuration (gw_Adapters_update \<circ> ad_HTTP_update \<circ> hc_PollInterval_update) env ''UDAL_HTTP_POLL_INTERVAL'',
      overrideInt (gw_Adapters_update \<circ> ad_HTTP_update \<circ> hc_WebhookPort_update) env ''UDAL_HTTP_WEBHOOK_PORT'',
      overrideString (gw_Adapters_update \<circ> ad_HTTP_update \<circ> hc_MTLSCert_update) env ''UDAL_HTTP_MTLS_CERT'',
      overrideString (gw_Adapters_update \<circ> ad_HTTP_update \<circ> hc_MTLSKey_update) env ''UDAL_HTTP_MTLS_KEY'',
      overrideString (gw_Adapters_update \<circ> ad_CANInterface_update) env ''UDAL_CAN_INTERFACE'',
      overrideString (gw_Adapters_update \<circ> ad_CANDBCPath_update) env ''UDAL_CAN_DBC_FILE'',
      overrideStringSlice (gw_Adapters_update \<circ> ad_Custom_update) env ''UDAL_CUSTOM_ADAPTERS'',
      overrideDuration gw_HeartbeatInterval_update env ''UDAL_HEARTBEAT_INTERVAL'',
      overrideDuration gw_DeviceTimeout_update env ''UDAL_DEVICE_TIMEOUT'']"

definition ApplyEnv :: "env \<Rightarrow> Gateway \<Rightarrow> Gateway \<times> fault option" where
  "ApplyEnv env c = run_steps (env_steps env) c"

definition ResolveString :: "string \<Rightarrow> string \<Rightarrow> string \<Rightarrow> string" where
  "ResolveString existingEnvValue configValue fallback =
     (if existingEnvValue \<noteq> [] then existingEnvValue else if configValue \<noteq> [] then configValue else fallback)"

definition int_digits :: "int \<Rightarrow> string" where
  "int_digits n = (if n < 0 then CHR ''-'' # dec_digits (nat (- n)) else dec_digits (nat n))"

definition ResolveAddr :: "string \<Rightarrow> int \<Rightarrow> int \<Rightarrow> string" where
  "ResolveAddr existingEnvValue configPort defaultPort =
     (if existingEnvValue \<noteq> [] then existingEnvValue
      else CHR '':'' # int_digits (if configPort = 0 then defaultPort else configPort))"

section \<open>Log level\<close>

datatype level = LevelDebug | LevelInfo | LevelWarn | LevelError

definition ParseLevel :: "string \<Rightarrow> level option" where
  "ParseLevel s =
     (let t = ToLower (TrimSpace s) in
      if t = ''debug'' then Some LevelDebug
      else if t = ''info'' \<or> t = '''' then Some LevelInfo
      else if t = ''warn'' \<or> t = ''warning'' then Some LevelWarn
      else if t = ''error'' then Some LevelError
      else None)"

fun level_String :: "level \<Rightarrow> string" where
  "level_String LevelDebug = ''DEBUG''"
| "level_String LevelInfo = ''INFO''"
| "level_String LevelWarn = ''WARN''"
| "level_String LevelError = ''ERROR''"

text \<open>\<open>LevelHandler\<close>: at most 64 bytes of the body are read; the status and, on success, the level in the answer.\<close>

definition LevelHandler :: "string \<Rightarrow> string \<Rightarrow> level \<Rightarrow> level \<times> int \<times> string option" where
  "LevelHandler method body lvl =
     (if method = ''GET'' then (lvl, 200, Some (level_String lvl))
      else if method = ''PUT'' \<or> method = ''POST'' then
        (case ParseLevel (TrimSpace (take 64 body)) of
           None \<Rightarrow> (lvl, 400, None)
         | Some l \<Rightarrow> (l, 200, Some (level_String l)))
      else (lvl, 405, None))"

section \<open>Health\<close>

record Checker =
  hk_ready :: bool
  hk_rep :: "(string, bool \<times> string) gomap"    \<comment> \<open>what each reporter answers when asked\<close>

definition NewChecker :: Checker where
  "NewChecker = \<lparr>hk_ready = False, hk_rep = []\<rparr>"

definition SetReady :: "bool \<Rightarrow> Checker \<Rightarrow> Checker" where
  "SetReady r c = c\<lparr>hk_ready := r\<rparr>"

definition hk_Register :: "string \<Rightarrow> bool \<times> string \<Rightarrow> Checker \<Rightarrow> Checker" where
  "hk_Register name r c = c\<lparr>hk_rep := gm_put name r (hk_rep c)\<rparr>"

record health_response =
  hr_Status :: string
  hr_Adapters :: "(string, string \<times> string) gomap"   \<comment> \<open>status and detail\<close>

definition health_Handler :: "Checker \<Rightarrow> string \<Rightarrow> int \<times> health_response option" where
  "health_Handler c method =
     (if method \<noteq> ''GET'' then (405, None)
      else if \<not> hk_ready c then (503, Some \<lparr>hr_Status = ''starting'', hr_Adapters = []\<rparr>)
      else (200, Some \<lparr>hr_Status = ''ok'', hr_Adapters =
             map (\<lambda>(n, ok, detail). (n, if ok then (''ok'', []) else (''degraded'', detail))) (hk_rep c)\<rparr>))"

section \<open>Metrics label and custom transports\<close>

definition operationName :: "string \<Rightarrow> string" where
  "operationName fullMethod =
     (if CHR ''/'' \<in> set fullMethod then rev (takeWhile (\<lambda>c. c \<noteq> CHR ''/'') (rev fullMethod)) else fullMethod)"

text \<open>\<open>adapter.Register\<close> panics (None) on a nil transport and on a name in use.\<close>

definition ad_Register :: "string \<Rightarrow> 't option \<Rightarrow> (string, 't) gomap \<Rightarrow> (string, 't) gomap option" where
  "ad_Register name t reg =
     (case t of None \<Rightarrow> None | Some x \<Rightarrow> if gm_get reg name \<noteq> None then None else Some (gm_put name x reg))"

definition ad_Lookup :: "string \<Rightarrow> (string, 't) gomap \<Rightarrow> 't option" where
  "ad_Lookup name reg = gm_get reg name"

section \<open>Properties\<close>

text \<open>The variables that hold numbers or durations, with the parser of each.\<close>

definition env_wf :: "env \<Rightarrow> bool" where
  "env_wf env \<longleftrightarrow>
     (\<forall>k \<in> {''UDAL_GRPC_PORT'', ''UDAL_HTTP_PORT'', ''UDAL_METRICS_PORT'', ''UDAL_HTTP_WEBHOOK_PORT''}. env k = [] \<or> Atoi (env k) \<noteq> None) \<and>
     (\<forall>k \<in> {''UDAL_HTTP_POLL_INTERVAL'', ''UDAL_HEARTBEAT_INTERVAL'', ''UDAL_DEVICE_TIMEOUT''}. env k = [] \<or> ParseDuration (env k) \<noteq> None)"

definition eff :: "(string \<Rightarrow> 'a option) \<Rightarrow> string \<Rightarrow> 'a \<Rightarrow> 'a" where
  "eff parse v x = (if v = [] then x else the (parse v))"

lemma eff_simps [simp]: "eff parse [] x = x" "eff parse v (eff parse v x) = eff parse v x"
  by (simp_all add: eff_def)

definition var_ok :: "(string \<Rightarrow> 'a option) \<Rightarrow> string \<Rightarrow> bool" where
  "var_ok parse v \<longleftrightarrow> v = [] \<or> parse v \<noteq> None"

lemma override_eq:
  assumes "upd (\<lambda>x. x) c = c"
  shows "override parse upd env key c =
    (if var_ok parse (env key) then (if env key = [] then c else upd (\<lambda>_. the (parse (env key))) c, None) else (c, Some opaque_fault))"
  using assms by (auto simp: override_def var_ok_def Let_def split: option.splits)

lemma override_ok:
  assumes "upd (\<lambda>x. x) c = c" and "var_ok parse (env key)"
  shows "override parse upd env key c = (upd (eff parse (env key)) c, None)"
  using assms by (auto simp: override_eq eff_def [abs_def])

lemma run_steps_ok: "f c = (c', None) \<Longrightarrow> run_steps (f # fs) c = run_steps fs c'"
  by simp

lemma override_fails: "\<not> var_ok parse (env key) \<Longrightarrow> override parse upd env key c = (c, Some opaque_fault)"
  by (auto simp: override_def var_ok_def Let_def)

lemma var_ok_total [simp]: "var_ok Some v" "var_ok (\<lambda>v. Some (g v)) v"
  by (simp_all add: var_ok_def)

lemma env_wf_iff:
  "env_wf env \<longleftrightarrow> var_ok Atoi (env ''UDAL_GRPC_PORT'') \<and> var_ok Atoi (env ''UDAL_HTTP_PORT'') \<and> var_ok Atoi (env ''UDAL_METRICS_PORT'') \<and>
     var_ok Atoi (env ''UDAL_HTTP_WEBHOOK_PORT'') \<and> var_ok ParseDuration (env ''UDAL_HTTP_POLL_INTERVAL'') \<and>
     var_ok ParseDuration (env ''UDAL_HEARTBEAT_INTERVAL'') \<and> var_ok ParseDuration (env ''UDAL_DEVICE_TIMEOUT'')"
  by (auto simp: env_wf_def var_ok_def)

text \<open>The configuration an environment makes of another: each field replaced where its variable is set.\<close>

definition env_config :: "env \<Rightarrow> Gateway \<Rightarrow> Gateway" where
  "env_config env c = \<lparr>gw_GRPCPort = eff Atoi (env ''UDAL_GRPC_PORT'') (gw_GRPCPort c),
     gw_HTTPPort = eff Atoi (env ''UDAL_HTTP_PORT'') (gw_HTTPPort c),
     gw_MetricsPort = eff Atoi (env ''UDAL_METRICS_PORT'') (gw_MetricsPort c),
     gw_TLS = \<lparr>tls_Cert = eff Some (env ''UDAL_TLS_CERT'') (tls_Cert (gw_TLS c)), tls_Key = eff Some (env ''UDAL_TLS_KEY'') (tls_Key (gw_TLS c)),
       tls_CA = eff Some (env ''UDAL_MTLS_CA_CERT'') (tls_CA (gw_TLS c))\<rparr>,
     gw_Auth = \<lparr>auth_APIKeyHeader = eff Some (env ''UDAL_API_KEY_HEADER'') (auth_APIKeyHeader (gw_Auth c)),
       auth_JWKSURL = eff Some (env ''UDAL_JWT_JWKS_URL'') (auth_JWKSURL (gw_Auth c))\<rparr>,
     gw_RegistryPath = eff Some (env ''UDAL_REGISTRY_PATH'') (gw_RegistryPath c),
     gw_Adapters = \<lparr>ad_MQTTBroker = eff Some (env ''UDAL_MQTT_BROKER'') (ad_MQTTBroker (gw_Adapters c)),
       ad_MQTTClientID = eff Some (env ''UDAL_MQTT_CLIENT_ID'') (ad_MQTTClientID (gw_Adapters c)),
       ad_HTTP = \<lparr>hc_PollInterval = eff ParseDuration (env ''UDAL_HTTP_POLL_INTERVAL'') (hc_PollInterval (ad_HTTP (gw_Adapters c))),
         hc_WebhookPort = eff Atoi (env ''UDAL_HTTP_WEBHOOK_PORT'') (hc_WebhookPort (ad_HTTP (gw_Adapters c))),
         hc_MTLSCert = eff Some (env ''UDAL_HTTP_MTLS_CERT'') (hc_MTLSCert (ad_HTTP (gw_Adapters c))),
         hc_MTLSKey = eff Some (env ''UDAL_HTTP_MTLS_KEY'') (hc_MTLSKey (ad_HTTP (gw_Adapters c)))\<rparr>,
       ad_CANInterface = eff Some (env ''UDAL_CAN_INTERFACE'') (ad_CANInterface (gw_Adapters c)),
       ad_CANDBCPath = eff Some (env ''UDAL_CAN_DBC_FILE'') (ad_CANDBCPath (gw_Adapters c)),
       ad_Custom = eff (\<lambda>v. Some (split_names v)) (env ''UDAL_CUSTOM_ADAPTERS'') (ad_Custom (gw_Adapters c))\<rparr>,
     gw_HeartbeatInterval = eff ParseDuration (env ''UDAL_HEARTBEAT_INTERVAL'') (gw_HeartbeatInterval c),
     gw_DeviceTimeout = eff ParseDuration (env ''UDAL_DEVICE_TIMEOUT'') (gw_DeviceTimeout c)\<rparr>"

lemma ApplyEnv_ok: "env_wf env \<Longrightarrow> ApplyEnv env c = (env_config env c, None)"
  unfolding ApplyEnv_def env_steps_def env_config_def env_wf_iff
  by (simp add: override_ok)

lemma run_steps_fails: "list_ex (\<lambda>f. \<forall>c. snd (f c) \<noteq> None) fs \<Longrightarrow> snd (run_steps fs c) \<noteq> None"
proof (induction fs arbitrary: c)
  case (Cons g fs)
  show ?case
  proof (cases "snd (g c)")
    case None
    with Cons.prems have "list_ex (\<lambda>f. \<forall>c. snd (f c) \<noteq> None) fs"
      by (simp del: not_None_eq) (metis None)
    from Cons.IH [OF this, of "fst (g c)"] None show ?thesis by (cases "g c") simp
  next
    case (Some e)
    then show ?thesis by (cases "g c") simp
  qed
qed simp

lemma ApplyEnv_fails:
  assumes "\<not> env_wf env"
  shows "snd (ApplyEnv env c) \<noteq> None"
  unfolding ApplyEnv_def
proof (rule run_steps_fails)
  from assms show "list_ex (\<lambda>f. \<forall>c. snd (f c) \<noteq> None) (env_steps env)"
    unfolding env_wf_iff de_Morgan_conj env_steps_def by (elim disjE) (simp_all add: override_fails)
qed

text \<open>C40. Environment overrides. \<open>ApplyEnv\<close> succeeds exactly when every numeric variable that is set parses; then every field
  whose variable is set has the variable's value and every other field keeps its own, applying it
  again changes nothing, and an empty environment leaves the file's configuration as it is.\<close>

theorem env_overrides:
  "(snd (ApplyEnv env c) = None \<longleftrightarrow> env_wf env) \<and>
   (env_wf env \<longrightarrow> fst (ApplyEnv env c) = env_config env c \<and> ApplyEnv env (env_config env c) = (env_config env c, None)) \<and>
   ApplyEnv (\<lambda>_. []) c = (c, None)"
proof (intro conjI impI)
  show "snd (ApplyEnv env c) = None \<longleftrightarrow> env_wf env"
    using ApplyEnv_ok [of env c] ApplyEnv_fails [of env c] by (cases "env_wf env") auto
  show "ApplyEnv (\<lambda>_. []) c = (c, None)"
    by (simp add: ApplyEnv_ok env_wf_def) (simp add: env_config_def)
qed (simp_all add: ApplyEnv_ok, simp add: env_config_def)

theorem env_overrides_witness:
  "fst (ApplyEnv ((\<lambda>_. [])(''UDAL_GRPC_PORT'' := ''9000'')) zero_Gateway) =
     env_config ((\<lambda>_. [])(''UDAL_GRPC_PORT'' := ''9000'')) zero_Gateway"
proof -
  have "Atoi ''9000'' = Some 9000" by code_simp
  then have "env_wf ((\<lambda>_. [])(''UDAL_GRPC_PORT'' := ''9000''))" by (simp add: env_wf_def)
  with env_overrides [of "(\<lambda>_. [])(''UDAL_GRPC_PORT'' := ''9000'')" zero_Gateway] show ?thesis by blast
qed

text \<open>The level printed by the endpoint parses back, so a level read with GET can be set with PUT.\<close>

lemma level_roundtrip: "ParseLevel (level_String l) = Some l"
proof (cases l)
  case LevelDebug
  moreover have "ParseLevel (level_String LevelDebug) = Some LevelDebug" by code_simp
  ultimately show ?thesis by simp
next
  case LevelInfo
  moreover have "ParseLevel (level_String LevelInfo) = Some LevelInfo" by code_simp
  ultimately show ?thesis by simp
next
  case LevelWarn
  moreover have "ParseLevel (level_String LevelWarn) = Some LevelWarn" by code_simp
  ultimately show ?thesis by simp
next
  case LevelError
  moreover have "ParseLevel (level_String LevelError) = Some LevelError" by code_simp
  ultimately show ?thesis by simp
qed

lemma level_put_get:
  "method \<in> {''PUT'', ''POST''} \<Longrightarrow> ParseLevel (TrimSpace (take 64 body)) = Some l \<Longrightarrow>
   LevelHandler ''GET'' b (fst (LevelHandler method body old)) = (l, 200, Some (level_String l))"
  by (auto simp: LevelHandler_def)

lemma health_ready: "fst (health_Handler c ''GET'') = (if hk_ready c then 200 else 503)"
  by (simp add: health_Handler_def)

lemma operationName_short: "CHR ''/'' \<notin> set (operationName m) \<and> (\<exists>p. m = p @ operationName m)"
proof (cases "CHR ''/'' \<in> set m")
  case True
  have "m = rev (dropWhile (\<lambda>c. c \<noteq> CHR ''/'') (rev m)) @ rev (takeWhile (\<lambda>c. c \<noteq> CHR ''/'') (rev m))"
    by (metis rev_append rev_rev_ident takeWhile_dropWhile_id)
  with True show ?thesis
    by (auto simp: operationName_def dest: set_takeWhileD)
qed (simp add: operationName_def)

lemma ad_Register_Lookup:
  "ad_Register n t reg = Some reg' \<Longrightarrow> ad_Lookup m reg' = (if m = n then t else ad_Lookup m reg)"
  by (auto simp: ad_Register_def ad_Lookup_def split: option.splits if_splits)

end
