(* ===== verification/Sdk.thy ===== *)
theory Sdk
  imports Device_Service "HOL-Library.Multiset"
begin

text \<open>
  The Go SDK (\<open>code/sdk/go\<close>): the conversion of native values, the client calls, and the device side
  that registers, answers commands and reconnects with exponential backoff. The gRPC stub is a
  parameter, instantiated with the gateway's handlers where a property spans both sides. An error
  is kept as its code; message texts are built with \<open>quote\<close>, the \<open>%q\<close> of \<open>fmt\<close>.
\<close>

section \<open>Errors and values\<close>

datatype rpc_err = StatusErr code | PlainErr

fun wrapError :: "rpc_err option \<Rightarrow> code option" where
  "wrapError None = None"
| "wrapError (Some (StatusErr c)) = Some c"
| "wrapError (Some PlainErr) = Some CodeUnknown"

text \<open>A Go \<open>any\<close>, as far as the SDK looks into it; a \<open>float32\<close> is given by the value it converts to, \<open>[]byte\<close> by its bytes.\<close>

datatype goval =
    GoNil | GoBool bool | GoInt int64 | GoInt64 int64 | GoFloat32 float64 | GoFloat64 float64
  | GoString string | GoBytes "byte list" | GoOther

fun valueFromProto :: "proto_value option \<Rightarrow> goval" where
  "valueFromProto (Some (PvBool b)) = GoBool b"
| "valueFromProto (Some (PvInt i)) = GoInt64 i"
| "valueFromProto (Some (PvFloat f)) = GoFloat64 f"
| "valueFromProto (Some (PvString s)) = GoString s"
| "valueFromProto (Some (PvBytes bs)) = GoBytes (case bs of None \<Rightarrow> [] | Some b \<Rightarrow> b)"
| "valueFromProto _ = GoNil"

fun valueToProto :: "goval \<Rightarrow> proto_value option" where
  "valueToProto (GoBool b) = Some (PvBool b)"
| "valueToProto (GoInt i) = Some (PvInt i)"
| "valueToProto (GoInt64 i) = Some (PvInt i)"
| "valueToProto (GoFloat32 f) = Some (PvFloat f)"
| "valueToProto (GoFloat64 f) = Some (PvFloat f)"
| "valueToProto (GoString s) = Some (PvString s)"
| "valueToProto (GoBytes b) = Some (PvBytes (Some b))"
| "valueToProto _ = None"

definition withAPIKey :: "(string \<times> string) list \<Rightarrow> string \<Rightarrow> (string \<times> string) list" where
  "withAPIKey md apiKey = (if apiKey = [] then md else md @ [(''x-api-key'', apiKey)])"

section \<open>Client\<close>

text \<open>A stub call returns the gateway's new state and its answer.\<close>

type_synonym ('w, 'a) reply = "'w \<times> (rpc_err + 'a)"

definition cl_GetProperty :: "(string \<Rightarrow> string \<Rightarrow> 'w \<Rightarrow> ('w, proto_value option) reply) \<Rightarrow> string \<Rightarrow> string \<Rightarrow> 'w \<Rightarrow> 'w \<times> (code + goval)" where
  "cl_GetProperty stub i path w =
     (case stub i path w of
        (w', Inl e) \<Rightarrow> (w', Inl (the (wrapError (Some e))))
      | (w', Inr p) \<Rightarrow> (w', Inr (valueFromProto p)))"

definition cl_WriteProperty ::
    "(string \<Rightarrow> string \<Rightarrow> proto_value \<Rightarrow> 'w \<Rightarrow> ('w, unit) reply) \<Rightarrow> string \<Rightarrow> string \<Rightarrow> goval \<Rightarrow> 'w \<Rightarrow> 'w \<times> code option" where
  "cl_WriteProperty stub i path v w =
     (case valueToProto v of
        None \<Rightarrow> (w, Some CodeInvalidArgument)
      | Some p \<Rightarrow>
          (case stub i path p w of
             (w', Inl e) \<Rightarrow> (w', wrapError (Some e))
           | (w', Inr _) \<Rightarrow> (w', wrapError None)))"

text \<open>\<open>newStruct\<close> is \<open>structpb.NewStruct\<close>, None where it refuses the parameters.\<close>

definition cl_SendCommand ::
    "('p \<Rightarrow> (string \<times> pbval) list option) \<Rightarrow> (string \<Rightarrow> string \<Rightarrow> (string \<times> pbval) list \<Rightarrow> 'w \<Rightarrow> ('w, pbval) reply)
       \<Rightarrow> string \<Rightarrow> string \<Rightarrow> 'p \<Rightarrow> 'w \<Rightarrow> 'w \<times> (code + pbval)" where
  "cl_SendCommand newStruct stub i command params w =
     (case newStruct params of
        None \<Rightarrow> (w, Inl CodeInvalidArgument)
      | Some ps \<Rightarrow>
          (case stub i command ps w of
             (w', Inl e) \<Rightarrow> (w', Inl (the (wrapError (Some e))))
           | (w', Inr r) \<Rightarrow> (w', Inr r)))"

text \<open>\<open>Subscribe\<close>: what \<open>Recv\<close> returns in order, each with whether the context was done while the update waited to be taken.\<close>

record sdk_update =
  up_DeviceID :: string
  up_PropertyPath :: string
  up_Value :: goval
  up_Timestamp :: time

datatype sub_recv = RecvEvent sub_response bool | RecvEOF | RecvErr rpc_err bool    \<comment> \<open>the flags: context done\<close>

fun cl_subscribe_loop :: "sub_recv list \<Rightarrow> sdk_update list \<times> code option" where
  "cl_subscribe_loop [] = ([], None)"
| "cl_subscribe_loop (RecvEOF # rs) = ([], None)"
| "cl_subscribe_loop (RecvErr e cancelled # rs) = ([], if cancelled then None else wrapError (Some e))"
| "cl_subscribe_loop (RecvEvent ev cancelled # rs) =
     (if cancelled then ([], None)
      else case cl_subscribe_loop rs of (us, c) \<Rightarrow>
        (\<lparr>up_DeviceID = sr_DeviceId ev, up_PropertyPath = sr_PropertyPath ev, up_Value = valueFromProto (sr_Value ev),
          up_Timestamp = sr_Timestamp ev\<rparr> # us, c))"

definition cl_Subscribe :: "rpc_err option \<Rightarrow> sub_recv list \<Rightarrow> sdk_update list \<times> code option" where
  "cl_Subscribe startErr rs = (case startErr of Some e \<Rightarrow> ([], wrapError (Some e)) | None \<Rightarrow> cl_subscribe_loop rs)"

section \<open>Device\<close>

text \<open>Accessors of command parameters: the zero value for an absent key or another type.\<close>

definition params_Float :: "(string \<times> pbval) list \<Rightarrow> string \<Rightarrow> float64" where
  "params_Float p key = (case map_of p key of Some (PNum f) \<Rightarrow> f | _ \<Rightarrow> FZero False)"

definition params_String :: "(string \<times> pbval) list \<Rightarrow> string \<Rightarrow> string" where
  "params_String p key = (case map_of p key of Some (PStr s) \<Rightarrow> s | _ \<Rightarrow> [])"

definition params_Bool :: "(string \<times> pbval) list \<Rightarrow> string \<Rightarrow> bool" where
  "params_Bool p key = (case map_of p key of Some (PBool b) \<Rightarrow> b | _ \<Rightarrow> False)"

text \<open>A handler returns an error message or a result, which may be nil.\<close>

type_synonym 'o handler = "(string \<times> pbval) list \<Rightarrow> string + 'o option"

record sdk_Config =
  cfg_DeviceID :: string
  cfg_Name :: string
  cfg_Capability :: string
  cfg_Transport :: string
  cfg_Labels :: "(string, string) gomap option"

record 'o SdkDevice =
  sd_cfg :: sdk_Config
  sd_deviceID :: string
  sd_handlers :: "(string, 'o handler) gomap"

definition NewDevice :: "sdk_Config \<Rightarrow> 'o SdkDevice" where
  "NewDevice cfg = \<lparr>sd_cfg = cfg, sd_deviceID = cfg_DeviceID cfg, sd_handlers = []\<rparr>"

definition OnCommand :: "string \<Rightarrow> 'o handler \<Rightarrow> 'o SdkDevice \<Rightarrow> 'o SdkDevice" where
  "OnCommand name h d = d\<lparr>sd_handlers := gm_put name h (sd_handlers d)\<rparr>"

definition sdk_request :: "sdk_Config \<Rightarrow> register_request" where
  "sdk_request cfg = \<lparr>rr_Id = cfg_DeviceID cfg, rr_Name = cfg_Name cfg, rr_Capability = cfg_Capability cfg,
     rr_Transport = cfg_Transport cfg, rr_Labels = cfg_Labels cfg\<rparr>"

definition sdk_register ::
    "(register_request \<Rightarrow> 'w \<Rightarrow> ('w, string) reply) \<Rightarrow> 'o SdkDevice \<Rightarrow> 'w \<Rightarrow> 'o SdkDevice \<times> 'w \<times> code option" where
  "sdk_register stub d w =
     (case stub (sdk_request (sd_cfg d)) w of
        (w', Inl e) \<Rightarrow>
          if e = StatusErr CodeAlreadyExists \<and> cfg_DeviceID (sd_cfg d) \<noteq> []
          then (d\<lparr>sd_deviceID := cfg_DeviceID (sd_cfg d)\<rparr>, w', None)
          else (d, w', wrapError (Some e))
      | (w', Inr i) \<Rightarrow> (d\<lparr>sd_deviceID := i\<rparr>, w', None))"

definition sdk_PublishProperty ::
    "(string \<Rightarrow> string \<Rightarrow> proto_value \<Rightarrow> 'w \<Rightarrow> ('w, unit) reply) \<Rightarrow> 'o SdkDevice \<Rightarrow> string \<Rightarrow> goval \<Rightarrow> 'w \<Rightarrow> 'w \<times> code option" where
  "sdk_PublishProperty stub d path v w =
     (case valueToProto v of
        None \<Rightarrow> (w, Some CodeInvalidArgument)
      | Some p \<Rightarrow>
          (case stub (sd_deviceID d) path p w of
             (w', Inl e) \<Rightarrow> (w', wrapError (Some e))
           | (w', Inr _) \<Rightarrow> (w', wrapError None)))"

text \<open>\<open>newValue\<close> is \<open>structpb.NewValue\<close> on a handler's result, a value or an error message; an absent result is read as null by the gateway.\<close>

definition handleCommand :: "('o \<Rightarrow> string + pbval) \<Rightarrow> (string \<Rightarrow> string) \<Rightarrow> 'o SdkDevice \<Rightarrow> Command \<Rightarrow> CommandResult" where
  "handleCommand newValue quote d cmd =
     (let result = \<lparr>res_ID = cmd_ID cmd, res_Success = False, res_Error = [], res_Result = PNull\<rparr> in
      case gm_get (sd_handlers d) (cmd_Name cmd) of
        None \<Rightarrow> result\<lparr>res_Error := ''no handler registered for command '' @ quote (cmd_Name cmd)\<rparr>
      | Some handler \<Rightarrow>
          (case handler (cmd_Params cmd) of
             Inl err \<Rightarrow> result\<lparr>res_Error := err\<rparr>
           | Inr None \<Rightarrow> result\<lparr>res_Success := True\<rparr>
           | Inr (Some out) \<Rightarrow>
               (case newValue out of
                  Inl verr \<Rightarrow> result\<lparr>res_Error := ''encode result: '' @ verr\<rparr>
                | Inr v \<Rightarrow> result\<lparr>res_Success := True, res_Result := v\<rparr>)))"

text \<open>
  The command stream of a device: what \<open>Recv\<close> gives until it ends. Each command is handled in a goroutine of its own, so the
  results are sent in any order; a stream that ends with \<open>io.EOF\<close> ends without an error.
\<close>

datatype cmd_recv = CmdRecv Command | CmdEOF | CmdErr rpc_err

fun recv_commands :: "cmd_recv list \<Rightarrow> Command list \<times> rpc_err option" where
  "recv_commands [] = ([], None)"
| "recv_commands (CmdRecv c # rs) = (case recv_commands rs of (cs, e) \<Rightarrow> (c # cs, e))"
| "recv_commands (CmdEOF # rs) = ([], None)"
| "recv_commands (CmdErr e # rs) = ([], Some e)"

definition stream_metadata :: "'o SdkDevice \<Rightarrow> string \<Rightarrow> (string \<times> string) list" where
  "stream_metadata d apiKey = withAPIKey [] apiKey @ [(''x-device-id'', sd_deviceID d)]"

definition runCommandStream :: "rpc_err option \<Rightarrow> cmd_recv list \<Rightarrow> Command list \<times> rpc_err option" where
  "runCommandStream startErr rs = (case startErr of Some e \<Rightarrow> ([], Some e) | None \<Rightarrow> recv_commands rs)"

lemma handleCommand_ID: "res_ID (handleCommand newValue quote d cmd) = cmd_ID cmd"
  by (simp add: handleCommand_def Let_def split: option.split sum.split)

text \<open>Results carry the ID of their command, so in whatever order they arrive, the one with a command's ID is that command's.\<close>

lemma results_by_id:
  assumes "mset rs = mset (map (handleCommand newValue quote d) cmds)" and "distinct (map cmd_ID cmds)" and "c \<in> set cmds"
  shows "filter (\<lambda>r. res_ID r = cmd_ID c) rs = [handleCommand newValue quote d c]"
proof -
  have "filter (\<lambda>x. cmd_ID x = cmd_ID c) cmds = [c]"
    using assms(2,3) by (induction cmds) (auto simp: filter_empty_conv rev_image_eqI)
  then have "filter (\<lambda>r. res_ID r = cmd_ID c) (map (handleCommand newValue quote d) cmds) = [handleCommand newValue quote d c]"
    by (simp add: filter_map comp_def handleCommand_ID)
  then have "mset (filter (\<lambda>r. res_ID r = cmd_ID c) rs) = {#handleCommand newValue quote d c#}"
    using assms(1) by (metis mset_filter mset_single_iff)
  then show ?thesis by (simp only: mset_single_iff)
qed

text \<open>
  One turn of \<open>Run\<close>: the context is done at the head of the loop or when the stream ends; the stream
  ended after \<open>d\<close> and the context is done while waiting; it ended after \<open>d\<close> and the device
  registers again at \<open>t\<close>.
\<close>

datatype run_turn = TurnDone | TurnDoneInWait duration | TurnReconnect duration time

definition baseBackoff :: duration where
  "baseBackoff = second"

definition maxBackoff :: duration where
  "maxBackoff = 30 * second"

definition healthy_after :: duration where
  "healthy_after = 5 * second"

definition turn_backoff :: "duration \<Rightarrow> duration \<Rightarrow> duration" where
  "turn_backoff lasted backoff = (if healthy_after < lasted then baseBackoff else backoff)"

definition next_backoff :: "duration \<Rightarrow> duration" where
  "next_backoff backoff = (if maxBackoff < backoff * 2 then maxBackoff else backoff * 2)"

text \<open>The waits that were started are returned in order.\<close>

fun run_loop ::
    "(time \<Rightarrow> register_request \<Rightarrow> 'w \<Rightarrow> ('w, string) reply) \<Rightarrow> run_turn list \<Rightarrow> duration \<Rightarrow> 'o SdkDevice \<Rightarrow> 'w
       \<Rightarrow> 'o SdkDevice \<times> 'w \<times> duration list" where
  "run_loop stub [] backoff d w = (d, w, [])"
| "run_loop stub (TurnDone # ts) backoff d w = (d, w, [])"
| "run_loop stub (TurnDoneInWait lasted # ts) backoff d w = (d, w, [turn_backoff lasted backoff])"
| "run_loop stub (TurnReconnect lasted t # ts) backoff d w =
     (let b = turn_backoff lasted backoff in
      case sdk_register (stub t) d w of (d1, w1, _) \<Rightarrow>
      case run_loop stub ts (next_backoff b) d1 w1 of (d2, w2, bs) \<Rightarrow> (d2, w2, b # bs))"

definition Run ::
    "(time \<Rightarrow> register_request \<Rightarrow> 'w \<Rightarrow> ('w, string) reply) \<Rightarrow> time \<Rightarrow> run_turn list \<Rightarrow> 'o SdkDevice \<Rightarrow> 'w
       \<Rightarrow> 'o SdkDevice \<times> 'w \<times> duration list \<times> code option" where
  "Run stub now ts d w =
     (case sdk_register (stub now) d w of
        (d1, w1, Some c) \<Rightarrow> (d1, w1, [], Some c)
      | (d1, w1, None) \<Rightarrow> (case run_loop stub ts baseBackoff d1 w1 of (d2, w2, bs) \<Rightarrow> (d2, w2, bs, None)))"

section \<open>The gateway as the stub\<close>

text \<open>The handlers of the device service behind the stub; a handler that panics ends the connection.\<close>

definition gw_register :: "('s, 'x) DeviceService \<Rightarrow> Identity option \<Rightarrow> time \<Rightarrow> register_request \<Rightarrow> ('s, 'x) ds_world \<Rightarrow> (('s, 'x) ds_world, string) reply" where
  "gw_register sv caller now req w =
     (case RegisterDevice sv now caller req w of
        None \<Rightarrow> (w, Inl (StatusErr CodeUnavailable))
      | Some (w', Inl c) \<Rightarrow> (w', Inl (StatusErr c))
      | Some (w', Inr p) \<Rightarrow> (w', Inr (pd_Id p)))"

definition gw_set :: "('s, 'x) DeviceService \<Rightarrow> Identity option \<Rightarrow> time \<Rightarrow> string \<Rightarrow> string \<Rightarrow> proto_value \<Rightarrow> ('s, 'x) ds_world \<Rightarrow> (('s, 'x) ds_world, unit) reply" where
  "gw_set sv caller now i path p w =
     (case SetProperty sv now caller i path (Some p) w of
        None \<Rightarrow> (w, Inl (StatusErr CodeUnavailable))
      | Some (w', Inl c) \<Rightarrow> (w', Inl (StatusErr c))
      | Some (w', Inr _) \<Rightarrow> (w', Inr ()))"

definition gw_get :: "('s, 'x) DeviceService \<Rightarrow> Identity option \<Rightarrow> string \<Rightarrow> string \<Rightarrow> ('s, 'x) ds_world \<Rightarrow> (('s, 'x) ds_world, proto_value option) reply" where
  "gw_get sv caller i path w =
     (case GetProperty sv caller i path w of (w', Inl c) \<Rightarrow> (w', Inl (StatusErr c)) | (w', Inr p) \<Rightarrow> (w', Inr (Some p)))"

section \<open>Backoff\<close>

fun turn_lasted :: "run_turn \<Rightarrow> duration" where
  "turn_lasted TurnDone = 0"
| "turn_lasted (TurnDoneInWait l) = l"
| "turn_lasted (TurnReconnect l t) = l"

definition backoff_at :: "nat \<Rightarrow> duration" where
  "backoff_at k = min (baseBackoff * 2 ^ k) maxBackoff"

lemma backoff_range [simp]: "baseBackoff \<le> backoff_at k" "backoff_at k \<le> maxBackoff"
proof -
  have "(1 :: int) \<le> 2 ^ k" by simp
  then show "baseBackoff \<le> backoff_at k" by (simp add: backoff_at_def baseBackoff_def maxBackoff_def second_def)
qed (simp add: backoff_at_def)

lemma next_backoff_range:
  "baseBackoff \<le> b \<Longrightarrow> b \<le> maxBackoff \<Longrightarrow> baseBackoff \<le> next_backoff b \<and> next_backoff b \<le> maxBackoff"
  by (auto simp: next_backoff_def baseBackoff_def maxBackoff_def second_def)

lemma next_backoff_at [simp]: "next_backoff (backoff_at k) = backoff_at (Suc k)"
proof -
  have "(1 :: int) \<le> 2 ^ k" by simp
  then show ?thesis by (auto simp: next_backoff_def backoff_at_def min_def baseBackoff_def maxBackoff_def second_def)
qed

lemma run_loop_range:
  "run_loop stub ts b d w = (d', w', bs) \<Longrightarrow> baseBackoff \<le> b \<Longrightarrow> b \<le> maxBackoff \<Longrightarrow>
   x \<in> set bs \<Longrightarrow> baseBackoff \<le> x \<and> x \<le> maxBackoff"
proof (induction stub ts b d w arbitrary: d' w' bs rule: run_loop.induct)
  case (4 stub lasted t ts b d w)
  obtain d1 w1 c where r: "sdk_register (stub t) d w = (d1, w1, c)" by (metis prod_cases3)
  obtain d2 w2 bs' where l: "run_loop stub ts (next_backoff (turn_backoff lasted b)) d1 w1 = (d2, w2, bs')" by (metis prod_cases3)
  have b: "baseBackoff \<le> turn_backoff lasted b \<and> turn_backoff lasted b \<le> maxBackoff"
    using 4 by (simp add: turn_backoff_def baseBackoff_def maxBackoff_def second_def)
  with 4 r l next_backoff_range show ?case by auto
qed (auto simp: turn_backoff_def baseBackoff_def maxBackoff_def second_def)

lemma run_loop_short:
  "run_loop stub ts b d w = (d', w', bs) \<Longrightarrow> b = backoff_at k \<Longrightarrow> \<forall>t \<in> set ts. turn_lasted t \<le> healthy_after \<Longrightarrow>
   j < length bs \<Longrightarrow> bs ! j = backoff_at (k + j)"
proof (induction stub ts b d w arbitrary: d' w' bs k j rule: run_loop.induct)
  case (4 stub lasted t ts b d w)
  obtain d1 w1 c where r: "sdk_register (stub t) d w = (d1, w1, c)" by (metis prod_cases3)
  have b: "turn_backoff lasted b = backoff_at k" using 4 by (simp add: turn_backoff_def)
  obtain d2 w2 bs' where l: "run_loop stub ts (backoff_at (Suc k)) d1 w1 = (d2, w2, bs')" by (metis prod_cases3)
  have "bs = backoff_at k # bs'" using 4(2) r l b by simp
  with 4(1) [OF refl r [symmetric] refl, of d2 w2 bs' "Suc k" "j - 1"] l b 4(4,5) show ?case by (cases j) auto
qed (auto simp: turn_backoff_def)

text \<open>C33. Reconnection backoff. Between two attempts a device waits at least one second and at most thirty; while streams keep failing
  within five seconds the waits double from one second up to thirty.\<close>

theorem backoff_bounds:
  assumes "Run stub now ts d w = (d', w', bs, e)"
  shows "(\<forall>b \<in> set bs. second \<le> b \<and> b \<le> 30 * second) \<and>
     ((\<forall>t \<in> set ts. turn_lasted t \<le> 5 * second) \<longrightarrow> (\<forall>k < length bs. bs ! k = min (second * 2 ^ k) (30 * second)))"
proof -
  consider "bs = []" | d1 w1 where "run_loop stub ts (backoff_at 0) d1 w1 = (d', w', bs)"
    using assms by (auto simp: Run_def backoff_at_def baseBackoff_def maxBackoff_def second_def split: prod.splits option.splits)
  then show ?thesis
  proof cases
    case 2
    show ?thesis
      using run_loop_range [OF 2] run_loop_short [OF 2 refl]
      by (simp add: backoff_at_def [symmetric]) (simp add: backoff_at_def baseBackoff_def maxBackoff_def healthy_after_def)
  qed simp
qed

definition demo_cfg :: sdk_Config where
  "demo_cfg = \<lparr>cfg_DeviceID = ''dev-7'', cfg_Name = ''pump'', cfg_Capability = ''pump'', cfg_Transport = ''grpc'', cfg_Labels = None\<rparr>"

theorem backoff_bounds_witness:
  "\<exists>d' w' bs e. Run (gw_register demo_sv (Some demo_admin)) 1 [TurnReconnect 0 2, TurnReconnect 0 3] (NewDevice demo_cfg :: unit SdkDevice) demo_world = (d', w', bs, e) \<and>
     (\<forall>k < length bs. bs ! k = min (second * 2 ^ k) (30 * second))"
proof -
  obtain d' w' bs e where r: "Run (gw_register demo_sv (Some demo_admin)) 1 [TurnReconnect 0 2, TurnReconnect 0 3] (NewDevice demo_cfg :: unit SdkDevice) demo_world
      = (d', w', bs, e)"
    by (metis prod_cases4)
  from backoff_bounds [OF r] r show ?thesis by (simp add: second_def)
qed

section \<open>Identity across reconnects\<close>

context registry_contract
begin

lemma gw_register_step:
  assumes "sv_reg sv = R" and "ds_ok inv w" and "wf_labels (request_device req)" and "rr_Id req \<noteq> []" and "rr_Name req \<noteq> []"
    and "rr_Capability req \<noteq> []" and "rr_Transport req \<noteq> []" and "may caller OpRegisterDevice [] []"
    and "check_capability sv (rr_Capability req) = None"
    and "storable (init_device (request_device req))" and "storable (online now (init_device (request_device req)))"
  shows "\<exists>w' r. gw_register sv caller now req w = (w', r) \<and> ds_ok inv w' \<and> r \<in> {Inr (rr_Id req), Inl (StatusErr CodeAlreadyExists)} \<and>
     devs (ds_reg w') (rr_Id req) \<noteq> None \<and> (\<forall>j. j \<noteq> rr_Id req \<longrightarrow> devs (ds_reg w') j = devs (ds_reg w) j) \<and>
     (devs (ds_reg w) (rr_Id req) \<noteq> None \<longrightarrow> devs (ds_reg w') = devs (ds_reg w))"
proof -
  obtain w' q where q: "RegisterDevice sv now caller req w = Some (w', q)" "ds_ok inv w'"
    using RegisterDevice_ok [OF assms(1,2,3)] by blast
  have id: "pd_Id (toProtoDevice (registered_device sv now req)) = rr_Id req"
    by (simp add: toProtoDevice_def registered_device_def request_device_def Let_def)
  from register_request [OF assms] q id show ?thesis
    by (auto simp: gw_register_def split: if_splits)
qed

end

lemma sdk_register_cfg: "sdk_register stub d w = (d', w', e) \<Longrightarrow> sd_cfg d' = sd_cfg d \<and> sd_handlers d' = sd_handlers d"
  by (auto simp: sdk_register_def split: prod.splits sum.splits if_splits)

text \<open>What registering needs to succeed: a complete configuration with an ID, a permitted caller, a known capability and a device the registry can store.\<close>

definition registrable ::
    "('s, 'x) DeviceService \<Rightarrow> (Device \<Rightarrow> bool) \<Rightarrow> Identity option \<Rightarrow> sdk_Config \<Rightarrow> bool" where
  "registrable sv storable caller cfg \<longleftrightarrow> (let d = init_device (request_device (sdk_request cfg)) in
     wf_labels (request_device (sdk_request cfg)) \<and> cfg_DeviceID cfg \<noteq> [] \<and> cfg_Name cfg \<noteq> [] \<and> cfg_Capability cfg \<noteq> [] \<and>
     cfg_Transport cfg \<noteq> [] \<and> may caller OpRegisterDevice [] [] \<and> check_capability sv (cfg_Capability cfg) = None \<and>
     storable d \<and> (\<forall>t. storable (online t d)))"

context registry_contract
begin

lemma sdk_register_step:
  assumes "sv_reg sv = R" and "ds_ok inv w" and "registrable sv storable caller (sd_cfg d)"
  shows "\<exists>w'. sdk_register (gw_register sv caller now) d w = (d\<lparr>sd_deviceID := cfg_DeviceID (sd_cfg d)\<rparr>, w', None) \<and> ds_ok inv w' \<and>
     devs (ds_reg w') (cfg_DeviceID (sd_cfg d)) \<noteq> None \<and>
     (\<forall>j. j \<noteq> cfg_DeviceID (sd_cfg d) \<longrightarrow> devs (ds_reg w') j = devs (ds_reg w) j) \<and>
     (devs (ds_reg w) (cfg_DeviceID (sd_cfg d)) \<noteq> None \<longrightarrow> devs (ds_reg w') = devs (ds_reg w))"
proof -
  let ?req = "sdk_request (sd_cfg d)"
  have req: "rr_Id ?req = cfg_DeviceID (sd_cfg d)" "rr_Name ?req = cfg_Name (sd_cfg d)" "rr_Capability ?req = cfg_Capability (sd_cfg d)"
    "rr_Transport ?req = cfg_Transport (sd_cfg d)"
    by (simp_all add: sdk_request_def)
  obtain w' r where "gw_register sv caller now ?req w = (w', r)" "ds_ok inv w'" "r \<in> {Inr (rr_Id ?req), Inl (StatusErr CodeAlreadyExists)}"
    "devs (ds_reg w') (rr_Id ?req) \<noteq> None" "\<forall>j. j \<noteq> rr_Id ?req \<longrightarrow> devs (ds_reg w') j = devs (ds_reg w) j"
    "devs (ds_reg w) (rr_Id ?req) \<noteq> None \<longrightarrow> devs (ds_reg w') = devs (ds_reg w)"
    using gw_register_step [OF assms(1,2), of ?req caller now] assms(3) req by (auto simp: registrable_def Let_def)
  with assms(3) req show ?thesis
    by (auto simp: sdk_register_def registrable_def Let_def)
qed

lemma run_loop_identity:
  "sv_reg sv = R \<Longrightarrow> ds_ok inv w \<Longrightarrow> registrable sv storable caller (sd_cfg d) \<Longrightarrow> sd_deviceID d = cfg_DeviceID (sd_cfg d) \<Longrightarrow>
   devs (ds_reg w) (cfg_DeviceID (sd_cfg d)) \<noteq> None \<Longrightarrow>
   \<exists>w' bs. run_loop (gw_register sv caller) ts b d w = (d, w', bs) \<and> devs (ds_reg w') = devs (ds_reg w)"
proof (induction ts arbitrary: b w)
  case (Cons t ts)
  show ?case
  proof (cases t)
    case (TurnReconnect lasted now)
    have d: "d\<lparr>sd_deviceID := cfg_DeviceID (sd_cfg d)\<rparr> = d" using Cons.prems(4) by simp
    obtain w1 where w1: "sdk_register (gw_register sv caller now) d w = (d, w1, None)" "ds_ok inv w1" "devs (ds_reg w1) = devs (ds_reg w)"
      using sdk_register_step [OF Cons.prems(1,2,3), of now] Cons.prems(5) d by metis
    with Cons.IH [OF Cons.prems(1) w1(2) Cons.prems(3,4), of "next_backoff (turn_backoff lasted b)"] Cons.prems(5) TurnReconnect
    show ?thesis by fastforce
  qed simp_all
qed simp

end



text \<open>
  Without a configured ID every reconnect registers another device: after two reconnects the gateway holds
  three records for one device.
\<close>

lemma reconnect_registers_anew:
  "sd_deviceID (fst (Run (gw_register demo_sv (Some demo_admin)) 1 [TurnReconnect 0 2, TurnReconnect 0 3]
      (NewDevice (demo_cfg\<lparr>cfg_DeviceID := []\<rparr>) :: unit SdkDevice) demo_world)) = ''dev-00003'' \<and>
   map fst (mr_devices (ds_reg (fst (snd (Run (gw_register demo_sv (Some demo_admin)) 1 [TurnReconnect 0 2, TurnReconnect 0 3]
      (NewDevice (demo_cfg\<lparr>cfg_DeviceID := []\<rparr>) :: unit SdkDevice) demo_world))))) = [''lamp'', ''dev-00001'', ''dev-00002'', ''dev-00003'']"
  by code_simp

section \<open>Across the API\<close>

text \<open>What a value becomes on its way through the API: \<open>int\<close> comes back as \<open>int64\<close> and \<open>float32\<close> as \<open>float64\<close>.\<close>

fun widened :: "goval \<Rightarrow> goval" where
  "widened (GoInt i) = GoInt64 i"
| "widened (GoFloat32 f) = GoFloat64 f"
| "widened v = v"

lemma value_through_proto:
  "valueToProto v = Some p \<Longrightarrow> valueFromProto (Some p) = widened v \<and> p \<notin> {PvUnset, PvJson, PvBytes None}"
  by (cases v) auto

lemma valueFromProto_stable: "valueFromProto (Some p) = v \<Longrightarrow> v \<noteq> GoNil \<Longrightarrow> widened v = v \<and> valueToProto v \<noteq> None"
  by (cases p) auto

text \<open>A client reads what was written. For a device that no adapter serves, a permitted write of a supported value succeeds
  and a permitted read then returns the value, \<open>int\<close> as \<open>int64\<close> and \<open>float32\<close> as \<open>float64\<close>; other values are
  refused by the client without a request.\<close>

theorem client_write_read:
  assumes "registry_contract R devs I st" and "sv_reg sv = R" and "ds_ok I w" and "devs (ds_reg w) i = Some d" and "st (online now d)"
    and "i \<noteq> []" and "path \<noteq> []" and "may caller OpSetProperty i (dev_ACL d)" and "may reader OpGetProperty i (dev_ACL d)"
    and "route_of sv (dev_Transport d) = ViaStore" and "sv_capability sv = None"
  shows "if v \<in> {GoNil, GoOther} then cl_WriteProperty (gw_set sv caller now) i path v w = (w, Some CodeInvalidArgument)
    else \<exists>w'. cl_WriteProperty (gw_set sv caller now) i path v w = (w', None) \<and>
      cl_GetProperty (gw_get sv reader) i path w' = (w', Inr (widened v))"
proof (cases "valueToProto v")
  case None
  then have "v \<in> {GoNil, GoOther}" by (cases v) auto
  with None show ?thesis by (simp add: cl_WriteProperty_def)
next
  case (Some p)
  then have v: "v \<notin> {GoNil, GoOther}" by auto
  have "check_value sv (dev_Capability d) path (fromProtoValue (Some p)) = None" by (simp add: check_value_def assms(11))
  then obtain w' where "SetProperty sv now caller i path (Some p) w = Some (w', Inr p)" "GetProperty sv reader i path w' = (w', Inr p)"
    using registry_contract.set_get_store [OF assms(1-10), of p] value_through_proto [OF Some] by blast
  with v Some value_through_proto [OF Some] show ?thesis
    by (simp add: cl_WriteProperty_def cl_GetProperty_def gw_set_def gw_get_def)
qed

theorem client_write_read_witness:
  "\<exists>w'. cl_WriteProperty (gw_set demo_sv (Some demo_admin) 5) ''lamp'' ''level'' (GoInt 40) demo_world = (w', None) \<and>
     cl_GetProperty (gw_get demo_sv (Some demo_admin)) ''lamp'' ''level'' w' = (w', Inr (GoInt64 40))"
proof -
  let ?d = "init_device (zero_Device\<lparr>dev_ID := ''lamp'', dev_Transport := ''grpc''\<rparr>)"
  have "may (Some demo_admin) op ''lamp'' (dev_ACL ?d)" if "op \<in> {OpSetProperty, OpGetProperty}" for op
    using that by (auto simp: may_def demo_admin_def init_device_def zero_Device_def rbacAllows_def row_def role_defs)
  moreover have "route_of demo_sv (dev_Transport ?d) = ViaStore" "sv_capability demo_sv = None"
    by (simp_all add: route_of_def custom_route_def demo_sv_def New_DeviceService_def init_device_def zero_Device_def)
  ultimately show ?thesis
    using client_write_read [OF mr.registry_contract_axioms demo_reg demo_ok demo_lamp, where now = 5 and path = "''level''"
        and caller = "Some demo_admin" and reader = "Some demo_admin" and v = "GoInt 40"] by simp
qed

text \<open>A command's outcome is the handler's. A permitted \<open>SendCommand\<close> that is dispatched to a device running the SDK returns the result of
  the handler registered for the command's name, null where it has none; without a
  handler, when the handler fails or its result cannot be encoded, it is \<open>FailedPrecondition\<close>.
  The device's answer carries the ID of the command it answers.\<close>

theorem command_outcome:
  assumes "checked_device sv caller OpSendCommand w i = Inr d" and "i \<noteq> []" and "command \<noteq> []" and "\<And>v. newValue v = Some v"
  shows "SendCommand sv (\<lambda>_ cmd. Inr (handleCommand encode quote dev cmd)) newValue cid caller i command params w =
    (case gm_get (sd_handlers dev) command of
       None \<Rightarrow> Inl CodeFailedPrecondition
     | Some h \<Rightarrow>
         (case h params of
            Inl err \<Rightarrow> Inl CodeFailedPrecondition
          | Inr None \<Rightarrow> Inr PNull
          | Inr (Some out) \<Rightarrow> (case encode out of Inl err \<Rightarrow> Inl CodeFailedPrecondition | Inr v \<Rightarrow> Inr v))) \<and>
    res_ID (handleCommand encode quote dev \<lparr>cmd_ID = cid, cmd_Name = command, cmd_Params = params\<rparr>) = cid"
  using assms by (simp add: SendCommand_def handleCommand_def Let_def split: option.split sum.split)

theorem command_outcome_witness:
  "SendCommand demo_sv (\<lambda>_ cmd. Inr (handleCommand Inr id (OnCommand ''get'' (\<lambda>ps. Inr (Some (PNum (params_Float ps ''x'')))) (NewDevice demo_cfg)) cmd))
      Some ''1'' (Some demo_admin) ''lamp'' ''get'' [(''x'', PNum (FFin 2))] demo_world = Inr (PNum (FFin 2))"
proof -
  have "checked_device demo_sv (Some demo_admin) OpSendCommand demo_world ''lamp'' =
      Inr (init_device (zero_Device\<lparr>dev_ID := ''lamp'', dev_Transport := ''grpc''\<rparr>))"
    using mr.checked_ok [OF demo_reg, of demo_world] demo_ok demo_lamp
    by (simp add: ds_ok_def may_def demo_admin_def init_device_def zero_Device_def rbacAllows_def row_def role_defs)
  from command_outcome [OF this, of "''get''" Some Inr id] show ?thesis
    by (simp add: OnCommand_def NewDevice_def params_Float_def)
qed

end
