(* ===== verification/Gateway_Start.thy ===== *)
theory Gateway_Start
  imports Config Device_Service
begin

text \<open>
  Start-up decisions of the gateway process (\<open>cmd/gateway/main.go\<close>): the settings it resolves, the
  modes of its TLS listeners, the headers it forwards from REST to gRPC, the custom transports it
  activates, the API key it provisions, and when it reports itself ready. What opens files, ports and
  connections is an argument: the outcome of the call. Exiting the process with an error is None or
  Inl.
\<close>

section \<open>Settings\<close>

definition envOr :: "env \<Rightarrow> string \<Rightarrow> string \<Rightarrow> string" where
  "envOr env key fallback = (if env key \<noteq> [] then env key else fallback)"

definition configPath :: "env \<Rightarrow> string \<Rightarrow> string" where
  "configPath env flag = (if flag = [] then envOr env ''UDAL_CONFIG_PATH'' ''gateway.yaml'' else flag)"

record Settings =
  st_level :: level
  st_cfg :: Gateway
  st_grpcAddr :: string
  st_httpAddr :: string
  st_registryPath :: string
  st_tlsCertPath :: string
  st_tlsKeyPath :: string
  st_devInsecure :: bool
  st_mtlsCACertPath :: string
  st_mtlsRequired :: bool
  st_bootstrapAPIKey :: string
  st_jwksURL :: string
  st_jwtAudience :: string
  st_jwtIssuer :: string

definition resolve_settings :: "env \<Rightarrow> level \<Rightarrow> Gateway \<Rightarrow> Settings" where
  "resolve_settings env lvl c = \<lparr>st_level = lvl, st_cfg = c,
     st_grpcAddr = ResolveAddr (env ''UDAL_GRPC_ADDR'') (gw_GRPCPort c) 50051,
     st_httpAddr = ResolveAddr (env ''UDAL_HTTP_ADDR'') (gw_HTTPPort c) 8080,
     st_registryPath = ResolveString (env ''UDAL_REGISTRY_PATH'') (gw_RegistryPath c) ''./udal-registry.db'',
     st_tlsCertPath = ResolveString (env ''UDAL_TLS_CERT'') (tls_Cert (gw_TLS c)) [],
     st_tlsKeyPath = ResolveString (env ''UDAL_TLS_KEY'') (tls_Key (gw_TLS c)) [],
     st_devInsecure = (envOr env ''UDAL_DEV_INSECURE'' ''false'' = ''true''),
     st_mtlsCACertPath = ResolveString (env ''UDAL_MTLS_CA_CERT'') (tls_CA (gw_TLS c)) [],
     st_mtlsRequired = (envOr env ''UDAL_MTLS_REQUIRED'' ''false'' = ''true''),
     st_bootstrapAPIKey = env ''UDAL_BOOTSTRAP_API_KEY'',
     st_jwksURL = ResolveString (env ''UDAL_JWT_JWKS_URL'') (auth_JWKSURL (gw_Auth c)) [],
     st_jwtAudience = env ''UDAL_JWT_AUDIENCE'', st_jwtIssuer = env ''UDAL_JWT_ISSUER''\<rparr>"

text \<open>\<open>file\<close> is what reading a path gives; None: the process exits.\<close>

definition start_settings :: "env \<Rightarrow> string \<Rightarrow> (string \<Rightarrow> config_file) \<Rightarrow> Settings option" where
  "start_settings env flag file =
     (case ParseLevel (env ''UDAL_LOG_LEVEL'') of
        None \<Rightarrow> None
      | Some lvl \<Rightarrow>
          (case Load (file (configPath env flag)) of
             None \<Rightarrow> None
           | Some c0 \<Rightarrow>
               (case ApplyEnv env c0 of
                  (c, Some e) \<Rightarrow> None
                | (c, None) \<Rightarrow>
                    (let s = resolve_settings env lvl c in
                     if st_tlsCertPath s = [] \<and> \<not> st_devInsecure s then None else Some s))))"

text \<open>The settings of the adapters, of capability enforcement and of the two side listeners. Without a broker there is no MQTT adapter, without an interface no CAN adapter; a CAN interface without a DBC file is an error (None).\<close>

definition enforcement :: "env \<Rightarrow> bool" where
  "enforcement env \<longleftrightarrow> envOr env ''UDAL_CAPABILITY_ENFORCEMENT'' ''false'' = ''true''"

definition mqtt_broker :: "env \<Rightarrow> Adapters \<Rightarrow> string" where
  "mqtt_broker env a = ResolveString (env ''UDAL_MQTT_BROKER'') (ad_MQTTBroker a) []"

definition poll_option :: "Adapters \<Rightarrow> duration option" where
  "poll_option a = (if 0 < hc_PollInterval (ad_HTTP a) then Some (hc_PollInterval (ad_HTTP a)) else None)"

definition webhook_addr :: "env \<Rightarrow> Adapters \<Rightarrow> string" where
  "webhook_addr env a = ResolveAddr (env ''UDAL_HTTP_WEBHOOK_ADDR'') (hc_WebhookPort (ad_HTTP a)) 8090"

definition metrics_addr :: "env \<Rightarrow> Gateway \<Rightarrow> string" where
  "metrics_addr env c = ResolveAddr (env ''UDAL_METRICS_ADDR'') (gw_MetricsPort c) 9090"

definition can_settings :: "env \<Rightarrow> Adapters \<Rightarrow> (string \<times> string) option option" where
  "can_settings env a =
     (let canIface = ResolveString (env ''UDAL_CAN_INTERFACE'') (ad_CANInterface a) [] in
      if canIface = [] then Some None
      else let dbcPath = ResolveString (env ''UDAL_CAN_DBC_FILE'') (ad_CANDBCPath a) [] in
           if dbcPath = [] then None else Some (Some (canIface, dbcPath)))"

definition http_mtls :: "env \<Rightarrow> Adapters \<Rightarrow> (string \<times> string) option" where
  "http_mtls env a =
     (let cert = ResolveString (env ''UDAL_HTTP_MTLS_CERT'') (hc_MTLSCert (ad_HTTP a)) [] in
      if cert = [] then None else Some (cert, ResolveString (env ''UDAL_HTTP_MTLS_KEY'') (hc_MTLSKey (ad_HTTP a)) []))"

section \<open>TLS\<close>

datatype client_auth = NoClientCert | VerifyClientCertIfGiven | RequireAndVerifyClientCert

record tls_config =
  tc_ClientCAs :: bool           \<comment> \<open>a pool of client CAs is set\<close>
  tc_ClientAuth :: client_auth
  tc_exempt :: bool              \<comment> \<open>\<open>GetConfigForClient\<close> exempts loopback connections\<close>

text \<open>A TCP address; an IP has 4 or 16 bytes, and a zone makes \<open>ParseIP\<close> fail.\<close>

record tcp_addr =
  ta_ip :: "byte list"
  ta_zone :: string

definition To4 :: "byte list \<Rightarrow> byte list option" where
  "To4 ip = (if length ip = 4 then Some ip
     else if length ip = 16 \<and> take 12 ip = replicate 10 0 @ [255, 255] then Some (drop 12 ip) else None)"

definition IsLoopback :: "byte list \<Rightarrow> bool" where
  "IsLoopback ip = (case To4 ip of Some ip4 \<Rightarrow> ip4 ! 0 = 127 | None \<Rightarrow> ip = replicate 15 0 @ [1])"

definition isLoopback :: "tcp_addr \<Rightarrow> bool" where
  "isLoopback a \<longleftrightarrow> ta_zone a = [] \<and> length (ta_ip a) \<in> {4, 16} \<and> IsLoopback (ta_ip a)"

text \<open>
  \<open>pair\<close>: the certificate and key load; \<open>ca\<close>: reading the CA file gives at least one certificate. Some None: no TLS.
\<close>

definition server_tls :: "Settings \<Rightarrow> bool \<Rightarrow> bool \<Rightarrow> tls_config option option" where
  "server_tls s pair ca =
     (if st_tlsCertPath s = [] then Some None
      else if \<not> pair then None
      else if st_mtlsCACertPath s = [] then Some (Some \<lparr>tc_ClientCAs = False, tc_ClientAuth = NoClientCert, tc_exempt = False\<rparr>)
      else if \<not> ca then None
      else if st_mtlsRequired s
           then Some (Some \<lparr>tc_ClientCAs = True, tc_ClientAuth = RequireAndVerifyClientCert, tc_exempt = True\<rparr>)
           else Some (Some \<lparr>tc_ClientCAs = True, tc_ClientAuth = VerifyClientCertIfGiven, tc_exempt = False\<rparr>))"

definition client_auth_for :: "tls_config \<Rightarrow> tcp_addr \<Rightarrow> client_auth" where
  "client_auth_for c remote = (if tc_exempt c \<and> isLoopback remote then NoClientCert else tc_ClientAuth c)"

text \<open>
  The handshake of \<open>crypto/tls\<close>, as far as the client's certificate goes: the certificate is asked for by the mode, and what is given has to
  verify. The peer of an established connection, or None when the handshake fails.
\<close>

datatype client_cert = CertNone | CertBad | CertOk "string list"

fun handshake :: "client_auth \<Rightarrow> client_cert \<Rightarrow> peer option" where
  "handshake NoClientCert c = Some (PeerTLS [])"
| "handshake VerifyClientCertIfGiven CertNone = Some (PeerTLS [])"
| "handshake VerifyClientCertIfGiven CertBad = None"
| "handshake VerifyClientCertIfGiven (CertOk cns) = Some (PeerTLS cns)"
| "handshake RequireAndVerifyClientCert (CertOk cns) = Some (PeerTLS cns)"
| "handshake RequireAndVerifyClientCert _ = None"

definition connect_peer :: "tls_config option \<Rightarrow> tcp_addr \<Rightarrow> client_cert \<Rightarrow> peer option" where
  "connect_peer c remote cert = (case c of None \<Rightarrow> Some PeerPlain | Some t \<Rightarrow> handshake (client_auth_for t remote) cert)"

section \<open>REST headers\<close>

text \<open>
  \<open>dflt\<close> is grpc-gateway's \<open>DefaultHeaderMatcher\<close>: the metadata key a header is forwarded under. Metadata keys are lower case.
\<close>

definition incomingHeader :: "(string \<Rightarrow> string option) \<Rightarrow> string \<Rightarrow> string option" where
  "incomingHeader dflt key =
     (if ToLower key = ''x-api-key'' \<or> ToLower key = ''authorization'' then Some key else dflt key)"

definition rest_metadata :: "(string \<Rightarrow> string option) \<Rightarrow> (string \<times> string) list \<Rightarrow> string \<Rightarrow> string list" where
  "rest_metadata dflt headers k =
     map snd (filter (\<lambda>(h, v). map_option ToLower (incomingHeader dflt h) = Some k) headers)"

section \<open>Custom transports\<close>

fun activate :: "(string, 't) gomap \<Rightarrow> string list \<Rightarrow> (string, 't) gomap \<Rightarrow> (string, 't) gomap option" where
  "activate reg [] acc = Some acc"
| "activate reg (name # names) acc =
     (if name = ''mqtt'' \<or> name = ''http'' \<or> name = ''can'' then None
      else case ad_Lookup name reg of
        None \<Rightarrow> None
      | Some t \<Rightarrow> activate reg names (gm_put name t acc))"

section \<open>Bootstrap key\<close>

definition SplitN3 :: "string \<Rightarrow> (string \<times> string \<times> string) option" where
  "SplitN3 s = (case Cut s '':'' of (a, r, ok) \<Rightarrow> if \<not> ok then None else
     (case Cut r '':'' of (b, c, ok') \<Rightarrow> if \<not> ok' then None else Some (a, b, c)))"

text \<open>None: the process exits.\<close>

definition bootstrap_key ::
    "'b bucket_ops \<Rightarrow> (string \<Rightarrow> byte list option) \<Rightarrow> string \<Rightarrow> 'b \<Rightarrow> 'b option" where
  "bootstrap_key B gen key b =
     (if key = [] then Some b
      else case SplitN3 key of
        None \<Rightarrow> None
      | Some (subject, role, rawKey) \<Rightarrow>
          if ak_Has B b subject then Some b
          else (case ak_Put B gen b subject role rawKey of (b', None) \<Rightarrow> Some b' | (b', Some e) \<Rightarrow> None))"

section \<open>Token validation\<close>

text \<open>Without a URL for the key set no token is accepted; with one the first fetch has to succeed. Some None: no validator.\<close>

definition jwt_validator :: "Settings \<Rightarrow> (string \<Rightarrow> jwks_reply) \<Rightarrow> time \<Rightarrow> JWTValidator option option" where
  "jwt_validator s fetch now =
     (if st_jwksURL s = [] then Some None
      else case NewJWTValidator (st_jwtAudience s) (st_jwtIssuer s) (fetch (st_jwksURL s)) now of
        Inl e \<Rightarrow> None
      | Inr v \<Rightarrow> Some (Some v))"

section \<open>Readiness\<close>

text \<open>
  What the process does with its listeners and the health flag, in order; \<open>oks\<close> tells whether the four binds
  succeed. A failed bind ends the process.
\<close>

datatype listener = LWebhook | LMetrics | LGrpc | LRest

datatype gw_act = Bind listener | Ready bool | Stop listener

definition start_acts :: "(listener \<Rightarrow> bool) \<Rightarrow> gw_act list" where
  "start_acts oks =
     (let binds = takeWhile oks [LWebhook, LMetrics, LGrpc, LRest]
      in map Bind binds @ (if length binds = 4 then [Ready True] else []))"

definition stop_acts :: "gw_act list" where
  "stop_acts = [Ready False, Stop LGrpc, Stop LRest, Stop LWebhook, Stop LMetrics]"

definition gw_trace :: "(listener \<Rightarrow> bool) \<Rightarrow> gw_act list" where
  "gw_trace oks = (let st = start_acts oks in if Ready True \<in> set st then st @ stop_acts else st)"

fun act :: "gw_act \<Rightarrow> listener set \<times> Checker \<Rightarrow> listener set \<times> Checker" where
  "act (Bind l) (L, c) = (insert l L, c)"
| "act (Ready r) (L, c) = (L, SetReady r c)"
| "act (Stop l) (L, c) = (L - {l}, c)"

section \<open>Facts\<close>

lemma start_settings_Some:
  assumes "start_settings env flag file = Some s"
  obtains lvl c0 c where "ParseLevel (env ''UDAL_LOG_LEVEL'') = Some lvl" and "Load (file (configPath env flag)) = Some c0"
    and "ApplyEnv env c0 = (c, None)" and "s = resolve_settings env lvl c"
    and "st_tlsCertPath s \<noteq> [] \<or> st_devInsecure s"
  using assms by (auto simp: start_settings_def Let_def split: option.splits prod.splits if_splits)

lemma poll_option_positive: "poll_option a = Some n \<Longrightarrow> 0 < n"
  by (auto simp: poll_option_def split: if_splits)

lemma handshake_peer:
  "handshake m cert = Some p \<Longrightarrow> p = PeerTLS [] \<or> (\<exists>cns. cert = CertOk cns \<and> p = PeerTLS cns \<and> m \<noteq> NoClientCert)"
  by (cases m; cases cert) auto

lemma handshake_required: "handshake RequireAndVerifyClientCert cert = Some p \<Longrightarrow> \<exists>cns. cert = CertOk cns \<and> p = PeerTLS cns"
  by (cases cert) auto

lemma incomingHeader_credential:
  "ToLower k \<in> {''x-api-key'', ''authorization''} \<Longrightarrow> incomingHeader dflt k = Some k"
  by (auto simp: incomingHeader_def)

text \<open>The REST server dials the gRPC listener from a loopback address and presents no certificate.\<close>

lemma rest_hop:
  assumes "server_tls s pair ca = Some c" and "isLoopback remote"
  shows "connect_peer c remote CertNone = Some (if c = None then PeerPlain else PeerTLS [])"
  using assms by (auto simp: server_tls_def connect_peer_def client_auth_for_def split: if_splits)

text \<open>Required mTLS without a CA file is not required at all: no certificate is asked for.\<close>

lemma required_without_ca:
  assumes "st_tlsCertPath s \<noteq> []" and "st_mtlsCACertPath s = []"
  shows "connect_peer (the (server_tls s True ca)) remote cert = Some (PeerTLS [])"
  using assms by (simp add: server_tls_def connect_peer_def client_auth_for_def)

definition builtin :: "string \<Rightarrow> bool" where
  "builtin n \<longleftrightarrow> n = ''mqtt'' \<or> n = ''http'' \<or> n = ''can''"

lemma activate_Cons:
  "activate reg (name # names) acc = Some m \<longleftrightarrow>
     \<not> builtin name \<and> (\<exists>t. ad_Lookup name reg = Some t \<and> activate reg names (gm_put name t acc) = Some m)"
  unfolding activate.simps builtin_def [symmetric] by (simp split: option.split)

lemma activate_get:
  "activate reg names acc = Some m \<Longrightarrow>
     gm_get m n = (if n \<in> set names then ad_Lookup n reg else gm_get acc n) \<and> (n \<in> set names \<longrightarrow> \<not> builtin n \<and> ad_Lookup n reg \<noteq> None)"
proof (induction names arbitrary: acc)
  case (Cons a names)
  then obtain t where t: "\<not> builtin a" "ad_Lookup a reg = Some t" "activate reg names (gm_put a t acc) = Some m"
    unfolding activate_Cons by blast
  from Cons.IH [OF t(3)] t(1,2) show ?case by auto
qed simp

lemma activate_total:
  assumes "\<forall>n \<in> set names. \<not> builtin n \<and> ad_Lookup n reg \<noteq> None"
  shows "\<exists>m. activate reg names acc = Some m"
  using assms
proof (induction names arbitrary: acc)
  case (Cons a names)
  then obtain t where t: "ad_Lookup a reg = Some t" by auto
  obtain m where "activate reg names (gm_put a t acc) = Some m" using Cons.IH Cons.prems by auto
  with t Cons.prems have "activate reg (a # names) acc = Some m" unfolding activate_Cons by auto
  then show ?case by blast
qed simp

section \<open>Properties\<close>

text \<open>C24. Access to the listeners. A gateway with no TLS certificate starts only when insecure mode is asked for. With a CA and required mTLS no connection but a
  loopback one comes about without a verified certificate, and the gateway's own REST hop connects without one; with a CA and optional mTLS a
  connection has either no certificate or a verified one; the peer's certificate names reach
  authentication in no other way.\<close>

theorem tls_modes:
  assumes "start_settings env flag file = Some s" and "server_tls s pair ca = Some c"
  shows "(c = None \<longrightarrow> env ''UDAL_DEV_INSECURE'' = ''true'') \<and>
    (st_tlsCertPath s \<noteq> [] \<and> st_mtlsCACertPath s \<noteq> [] \<and> st_mtlsRequired s \<longrightarrow>
       (\<forall>remote cert p. connect_peer c remote cert = Some p \<longrightarrow>
          (if isLoopback remote then p = PeerTLS [] else \<exists>cns. cert = CertOk cns \<and> p = PeerTLS cns))) \<and>
    (\<forall>remote cert cn cns. connect_peer c remote cert = Some (PeerTLS (cn # cns)) \<longrightarrow> cert = CertOk (cn # cns) \<and> st_mtlsCACertPath s \<noteq> [])"
proof -
  have insecure: "c = None \<Longrightarrow> env ''UDAL_DEV_INSECURE'' = ''true''"
  proof -
    assume "c = None"
    then have "st_tlsCertPath s = []" using assms(2) by (auto simp: server_tls_def split: if_splits)
    moreover have "st_tlsCertPath s \<noteq> [] \<or> st_devInsecure s" and "st_devInsecure s = (envOr env ''UDAL_DEV_INSECURE'' ''false'' = ''true'')"
      using assms(1) by (auto elim!: start_settings_Some simp: resolve_settings_def)
    ultimately show "env ''UDAL_DEV_INSECURE'' = ''true''" by (auto simp: envOr_def split: if_splits)
  qed
  have required: "if isLoopback remote then p = PeerTLS [] else \<exists>cns. cert = CertOk cns \<and> p = PeerTLS cns"
    if "connect_peer c remote cert = Some p" "st_tlsCertPath s \<noteq> []" "st_mtlsCACertPath s \<noteq> []" "st_mtlsRequired s" for remote cert p
  proof -
    have "c = Some \<lparr>tc_ClientCAs = True, tc_ClientAuth = RequireAndVerifyClientCert, tc_exempt = True\<rparr>"
      using assms(2) that by (auto simp: server_tls_def split: if_splits)
    then show ?thesis using that(1) handshake_required [of cert p] by (auto simp: connect_peer_def client_auth_for_def)
  qed
  have names: "cert = CertOk (cn # cns) \<and> st_mtlsCACertPath s \<noteq> []" if hop: "connect_peer c remote cert = Some (PeerTLS (cn # cns))" for remote cert cn cns
  proof -
    obtain t where t: "c = Some t" "handshake (client_auth_for t remote) cert = Some (PeerTLS (cn # cns))"
      using hop by (auto simp: connect_peer_def split: option.splits)
    then have "cert = CertOk (cn # cns)" "tc_ClientAuth t \<noteq> NoClientCert"
      using handshake_peer [OF t(2)] by (auto simp: client_auth_for_def split: if_splits)
    with assms(2) t(1) show ?thesis by (auto simp: server_tls_def split: if_splits)
  qed
  show ?thesis using insecure required names by blast
qed

definition tls_env :: env where
  "tls_env = (\<lambda>_. [])(''UDAL_TLS_CERT'' := ''c.pem'', ''UDAL_TLS_KEY'' := ''k.pem'', ''UDAL_MTLS_CA_CERT'' := ''ca.pem'', ''UDAL_MTLS_REQUIRED'' := ''true'')"

definition tls_demo :: Settings where
  "tls_demo = resolve_settings tls_env LevelInfo (env_config tls_env zero_Gateway)"

lemma tls_demo:
  "start_settings tls_env [] (\<lambda>_. Missing) = Some tls_demo"
  "server_tls tls_demo True True = Some (Some \<lparr>tc_ClientCAs = True, tc_ClientAuth = RequireAndVerifyClientCert, tc_exempt = True\<rparr>)"
  "st_tlsCertPath tls_demo \<noteq> []" "st_mtlsCACertPath tls_demo \<noteq> []" "st_mtlsRequired tls_demo"
proof -
  have wf: "env_wf tls_env" by (simp add: env_wf_def tls_env_def)
  have lvl: "ParseLevel [] = Some LevelInfo" by code_simp
  show st: "st_tlsCertPath tls_demo \<noteq> []" "st_mtlsCACertPath tls_demo \<noteq> []" "st_mtlsRequired tls_demo"
    by (simp_all add: tls_demo_def resolve_settings_def tls_env_def ResolveString_def envOr_def)
  then show "server_tls tls_demo True True = Some (Some \<lparr>tc_ClientCAs = True, tc_ClientAuth = RequireAndVerifyClientCert, tc_exempt = True\<rparr>)"
    by (simp add: server_tls_def)
  have "tls_env ''UDAL_LOG_LEVEL'' = []" by (simp add: tls_env_def)
  with st(1) show "start_settings tls_env [] (\<lambda>_. Missing) = Some tls_demo"
    by (simp add: start_settings_def lvl ApplyEnv_ok [OF wf] tls_demo_def)
qed

theorem tls_modes_witness:
  "connect_peer (the (server_tls tls_demo True True)) \<lparr>ta_ip = [10, 0, 0, 7], ta_zone = []\<rparr> CertNone = None"
proof -
  have "\<not> isLoopback \<lparr>ta_ip = [10, 0, 0, 7], ta_zone = []\<rparr>" by code_simp
  with tls_modes [of tls_env "[]" "\<lambda>_. Missing" tls_demo True True] tls_demo show ?thesis
    by (cases "connect_peer (the (server_tls tls_demo True True)) \<lparr>ta_ip = [10, 0, 0, 7], ta_zone = []\<rparr> CertNone") force+
qed

lemma gw_trace_eq:
  "gw_trace oks = (if \<not> oks LWebhook then [] else if \<not> oks LMetrics then [Bind LWebhook]
     else if \<not> oks LGrpc then [Bind LWebhook, Bind LMetrics]
     else if \<not> oks LRest then [Bind LWebhook, Bind LMetrics, Bind LGrpc]
     else [Bind LWebhook, Bind LMetrics, Bind LGrpc, Bind LRest, Ready True] @ stop_acts)"
  by (auto simp: gw_trace_def start_acts_def Let_def)

lemma ready_needs_listeners:
  assumes "hk_ready (snd (fold act (take n (gw_trace oks)) ({}, NewChecker)))"
  shows "fst (fold act (take n (gw_trace oks)) ({}, NewChecker)) = {LWebhook, LMetrics, LGrpc, LRest} \<and>
     oks LWebhook \<and> oks LMetrics \<and> oks LGrpc \<and> oks LRest"
  using assms by (auto simp: gw_trace_eq stop_acts_def NewChecker_def SetReady_def take_Cons split: if_splits nat.splits)

text \<open>Readiness. At every moment of a run, from the first bind to the last shut-down and wherever the process exits on the way, the health endpoint
  answers 200 only while all four listeners are bound; a run in which a bind fails never answers 200, and a run
  whose binds all succeed does before the shut-down begins.\<close>

theorem ready_iff_listening:
  "(\<forall>n. fst (health_Handler (snd (fold act (take n (gw_trace oks)) ({}, NewChecker))) ''GET'') = 200 \<longrightarrow>
      (\<forall>l. l \<in> fst (fold act (take n (gw_trace oks)) ({}, NewChecker)) \<and> oks l)) \<and>
   ((\<forall>l. oks l) \<longrightarrow> fst (health_Handler (snd (fold act (take 5 (gw_trace oks)) ({}, NewChecker))) ''GET'') = 200)"
proof (intro conjI allI impI)
  fix n l assume "fst (health_Handler (snd (fold act (take n (gw_trace oks)) ({}, NewChecker))) ''GET'') = 200"
  then have "hk_ready (snd (fold act (take n (gw_trace oks)) ({}, NewChecker)))" by (simp add: health_ready split: if_splits)
  from ready_needs_listeners [OF this] show "l \<in> fst (fold act (take n (gw_trace oks)) ({}, NewChecker))" "oks l"
    by (cases l; simp)+
qed (simp add: gw_trace_eq health_ready stop_acts_def NewChecker_def SetReady_def)

theorem ready_iff_listening_witness:
  "\<forall>n. fst (health_Handler (snd (fold act (take n (gw_trace (\<lambda>l. l \<noteq> LRest))) ({}, NewChecker))) ''GET'') \<noteq> 200"
  using ready_iff_listening [of "\<lambda>l. l \<noteq> LRest"] by blast

text \<open>The bootstrap key. A setting \<open>subject:role:key\<close> gives a new subject that key, so that it authenticates, and never
  replaces the key of an existing one; starting again with the same setting changes nothing, and a
  setting that is not of that form stops the process.\<close>

theorem bootstrap_provisions:
  assumes "key_store B sq fits gen verify" and "ak_table B gen b T" and "plain_key k" and "valid_key s"
    and "\<And>h. gen k = Some h \<Longrightarrow> fits (marshal_apiKey \<lparr>ak_Subject = s, ak_Role = role, ak_HashedKey = Some h\<rparr>)"
    and "CHR '':'' \<notin> set s" and "CHR '':'' \<notin> set role"
  shows "\<exists>b'. bootstrap_key B gen (s @ '':'' @ role @ '':'' @ k) b = Some b' \<and>
     ak_table B gen b' (if T s = None then T(s \<mapsto> (role, k)) else T) \<and>
     (T s = None \<longrightarrow> (\<exists>i. ak_Authenticate B verify b' k = Inr i)) \<and>
     bootstrap_key B gen (s @ '':'' @ role @ '':'' @ k) b' = Some b' \<and>
     bootstrap_key B gen (s @ '':'' @ role) b = None"
proof -
  have split: "SplitN3 (s @ '':'' @ role @ '':'' @ k) = Some (s, role, k)" "SplitN3 (s @ '':'' @ role) = None"
    using Cut_first [OF assms(6), of "[]" "role @ '':'' @ k"] Cut_first [OF assms(7), of "[]" k]
      Cut_first [OF assms(6), of "[]" role] Cut_notin [OF assms(7), of "[]"] by (simp_all add: SplitN3_def)
  have has: "ak_Has B b' s \<longleftrightarrow> T' s \<noteq> None" if "ak_table B gen b' T'" for b' T'
    using that by (cases "T' s") (auto simp: ak_table_def ak_Has_def dest!: spec [of _ s])
  have bad: "bootstrap_key B gen (s @ '':'' @ role) b = None" using split by (simp add: bootstrap_key_def)
  have again: "bootstrap_key B gen (s @ '':'' @ role @ '':'' @ k) b' = Some b'" if "ak_Has B b' s" for b'
    using that split by (simp add: bootstrap_key_def)
  show ?thesis
  proof (cases "T s")
    case None
    obtain b' where b': "ak_Put B gen b s role k = (b', None)" "ak_table B gen b' (T(s \<mapsto> (role, k)))"
      using key_store.Put_table [OF assms(1-5)] by blast
    have "bootstrap_key B gen (s @ '':'' @ role @ '':'' @ k) b = Some b'"
      using has [OF assms(2)] None b'(1) split by (simp add: bootstrap_key_def)
    moreover have "\<exists>i. ak_Authenticate B verify b' k = Inr i"
      using key_store.Authenticate_table(2) [OF assms(1) b'(2) assms(3), of s role] by simp
    ultimately show ?thesis using None b'(2) again [of b'] has [OF b'(2)] bad by auto
  next
    case (Some r)
    then show ?thesis using again [of b] has [OF assms(2)] assms(2) bad by auto
  qed
qed

theorem bootstrap_provisions_witness:
  "\<exists>b'. bootstrap_key ref_bucket_ops ref_gen ''root:admin:s3'' keys_demo = Some b' \<and>
     bootstrap_key ref_bucket_ops ref_gen ''root:admin:s3'' b' = Some b'"
proof -
  have "ak_table ref_bucket_ops ref_gen keys_demo [''op'' \<mapsto> (RoleOperator, ''k1'')]"
    by (auto simp: ak_table_def keys_demo_def ref_bucket_ops_def ref_gen_def plain_key_def)
  from bootstrap_provisions [OF refk.key_store_axioms this, of "''s3''" "''root''" "''admin''"] show ?thesis
    by (auto simp: plain_key_def valid_key_def)
qed

end
