(* ===== verification/Gateway.thy ===== *)
theory Gateway
  imports Gateway_Start Can_Adapter Mqtt_Adapter Http_Adapter
begin

text \<open>
  The running gateway (\<open>cmd/gateway/main.go\<close>): the device service with the MQTT, HTTP and CAN
  adapters behind it, the adapters' callbacks wired to the broker and to the presence monitor,
  and the gauge of online devices. Its events are requests, frames from the bus, MQTT messages, poll rounds, webhook
  calls, sweeps of the monitor and heartbeats of command streams; each runs to completion before the next.
  The updates an adapter reports during a request are published when the request is done: the
  request does not look at the broker in between. A status message that arrives while
  a request waits is an event of its own. A panic in any goroutine ends the process: the run has no
  result (None).
\<close>

section \<open>State\<close>

type_synonym update_call = "string \<times> string \<times> PropertyValue"

record gw_adapters =
  ga_mqtt :: MqttAdapter
  ga_http :: HttpAdapter
  ga_seen :: "string \<Rightarrow> (string, json) gomap"  \<comment> \<open>the last snapshot of each poll loop\<close>
  ga_can :: CanAdapter
  ga_out :: "update_call list"                 \<comment> \<open>calls of \<open>onUpdate\<close> to be published\<close>
  ga_crashed :: bool

text \<open>What the outside does during one request: the MQTT broker, the HTTP devices, the CAN socket.\<close>

record gw_io =
  io_mqtt :: mqtt_env
  io_http :: http_client
  io_conv :: "float64 \<Rightarrow> int64"
  io_wr :: "Frame \<Rightarrow> fault option"

record 's gw_config =
  gc_reg :: "'s registry_ops"
  gc_mqtt :: bool
  gc_can :: bool
  gc_custom :: "(string, gw_adapters transport_ops) gomap"
  gc_monitor :: Monitor
  gc_capability :: "(string \<Rightarrow> string \<Rightarrow> fault + Schema) option"

record 's gw_state =
  gs_world :: "('s, gw_adapters) ds_world"
  gs_online :: nat                             \<comment> \<open>\<open>metrics.DevicesOnline\<close>\<close>

section \<open>Wiring\<close>

fun update_call_of :: "mqtt_event \<Rightarrow> update_call list" where
  "update_call_of (EvUpdate d p v) = [(d, p, v)]"
| "update_call_of (EvHeartbeat d) = []"

definition mqtt_of :: "mqtt_env \<Rightarrow> gw_adapters mqtt_ops" where
  "mqtt_of env = \<lparr>
     mq_Read = (\<lambda>i p x. case ma_ReadProperty env i p (ga_mqtt x) of
        None \<Rightarrow> (x\<lparr>ga_crashed := True\<rparr>, Inl opaque_fault)
      | Some (a, evs, r) \<Rightarrow> (x\<lparr>ga_mqtt := a, ga_out := ga_out x @ concat (map update_call_of evs)\<rparr>, r)),
     mq_Write = (\<lambda>i p v x. case ma_WriteProperty env i p v (ga_mqtt x) of
        None \<Rightarrow> (x\<lparr>ga_crashed := True\<rparr>, Some opaque_fault)
      | Some (a, evs, r) \<Rightarrow> (x\<lparr>ga_mqtt := a, ga_out := ga_out x @ concat (map update_call_of evs)\<rparr>, r)),
     mq_Watch = (\<lambda>i x. case ma_WatchDevice env i (ga_mqtt x) of (a, e) \<Rightarrow> (x\<lparr>ga_mqtt := a\<rparr>, e))\<rparr>"

text \<open>The poll loop of a device panics in \<open>time.NewTicker\<close> when its interval is not positive.\<close>

definition bad_ticker :: "HttpAdapter \<Rightarrow> string \<Rightarrow> bool" where
  "bad_ticker a i = (case gm_get (ha_polling a) i of None \<Rightarrow> False | Some (endpoint, interval) \<Rightarrow> interval \<le> 0)"

definition http_of :: "http_client \<Rightarrow> gw_adapters http_ops" where
  "http_of client = \<lparr>
     ht_Read = (\<lambda>d p x. (x, ha_ReadProperty client d p)),
     ht_Watch = (\<lambda>d x. case ha_WatchDevice None d (ga_http x) of
        (a, e) \<Rightarrow> (x\<lparr>ga_http := a, ga_crashed := ga_crashed x \<or> bad_ticker a (dev_ID d)\<rparr>, e))\<rparr>"

definition can_of :: "(float64 \<Rightarrow> int64) \<Rightarrow> (Frame \<Rightarrow> fault option) \<Rightarrow> gw_adapters transport_ops" where
  "can_of conv wr = \<lparr>tr_Name = ''can'',
     tr_Read = (\<lambda>d p x. (x, ca_ReadProperty None (ga_can x) d p)),
     tr_Write = (\<lambda>d p v x. case ca_WriteProperty conv wr None d p v (ga_can x) of
        (a, evs, e) \<Rightarrow> (x\<lparr>ga_can := a, ga_out := ga_out x @ evs\<rparr>, e)),
     tr_Watch = (\<lambda>d x. case ca_WatchDevice d (ga_can x) of (a, e) \<Rightarrow> (x\<lparr>ga_can := a\<rparr>, e))\<rparr>"

text \<open>The setters of the device service, and the service as \<open>main\<close> puts it together.\<close>

definition SetMQTTAdapter :: "'x mqtt_ops \<Rightarrow> ('s, 'x) DeviceService \<Rightarrow> ('s, 'x) DeviceService" where
  "SetMQTTAdapter a sv = sv\<lparr>sv_mqtt := Some a\<rparr>"

definition SetHTTPAdapter :: "'x http_ops \<Rightarrow> ('s, 'x) DeviceService \<Rightarrow> ('s, 'x) DeviceService" where
  "SetHTTPAdapter a sv = sv\<lparr>sv_http := Some a\<rparr>"

definition SetCANAdapter :: "'x transport_ops \<Rightarrow> ('s, 'x) DeviceService \<Rightarrow> ('s, 'x) DeviceService" where
  "SetCANAdapter a sv = sv\<lparr>sv_can := Some a\<rparr>"

definition SetCustomTransports :: "(string, 'x transport_ops) gomap \<Rightarrow> ('s, 'x) DeviceService \<Rightarrow> ('s, 'x) DeviceService" where
  "SetCustomTransports transports sv = sv\<lparr>sv_custom := transports\<rparr>"

definition SetPresenceMonitor :: "Monitor \<Rightarrow> ('s, 'x) DeviceService \<Rightarrow> ('s, 'x) DeviceService" where
  "SetPresenceMonitor m sv = sv\<lparr>sv_presence := Some m\<rparr>"

definition SetCapabilityRegistry :: "(string \<Rightarrow> string \<Rightarrow> fault + Schema) \<Rightarrow> ('s, 'x) DeviceService \<Rightarrow> ('s, 'x) DeviceService" where
  "SetCapabilityRegistry r sv = sv\<lparr>sv_capability := Some r\<rparr>"

definition gw_service :: "'s gw_config \<Rightarrow> gw_io \<Rightarrow> ('s, gw_adapters) DeviceService" where
  "gw_service g io =
     (let sv0 = New_DeviceService (gc_reg g);
          sv1 = (case gc_capability g of None \<Rightarrow> sv0 | Some r \<Rightarrow> SetCapabilityRegistry r sv0);
          sv2 = SetPresenceMonitor (gc_monitor g) sv1;
          sv3 = (if gc_mqtt g then SetMQTTAdapter (mqtt_of (io_mqtt io)) sv2 else sv2);
          sv4 = SetHTTPAdapter (http_of (io_http io)) sv3;
          sv5 = (if gc_can g then SetCANAdapter (can_of (io_conv io) (io_wr io)) sv4 else sv4)
      in if gc_custom g \<noteq> [] then SetCustomTransports (gc_custom g) sv5 else sv5)"

lemma gw_service_eq:
  "gw_service g io = \<lparr>sv_reg = gc_reg g,
     sv_mqtt = (if gc_mqtt g then Some (mqtt_of (io_mqtt io)) else None),
     sv_http = Some (http_of (io_http io)),
     sv_can = (if gc_can g then Some (can_of (io_conv io) (io_wr io)) else None),
     sv_custom = gc_custom g,
     sv_presence = Some (gc_monitor g),
     sv_capability = gc_capability g\<rparr>"
  by (cases "gc_capability g")
    (simp_all add: gw_service_def New_DeviceService_def SetMQTTAdapter_def SetHTTPAdapter_def SetCANAdapter_def SetCustomTransports_def
      SetPresenceMonitor_def SetCapabilityRegistry_def Let_def)

text \<open>The configuration of the running gateway from its settings; None: the CAN adapter is enabled without a DBC file. \<open>schemas\<close> is the \<open>Get\<close> of
  the capability registry.\<close>

definition gw_config_of ::
    "env \<Rightarrow> Gateway \<Rightarrow> 's registry_ops \<Rightarrow> (string, gw_adapters transport_ops) gomap \<Rightarrow> (string \<Rightarrow> string \<Rightarrow> fault + Schema) \<Rightarrow> 's gw_config option" where
  "gw_config_of env c reg customs schemas =
     map_option (\<lambda>can. \<lparr>gc_reg = reg, gc_mqtt = (mqtt_broker env (gw_Adapters c) \<noteq> []), gc_can = (can \<noteq> None), gc_custom = customs,
        gc_monitor = NewMonitor (gw_HeartbeatInterval c) (gw_DeviceTimeout c) True,
        gc_capability = (if enforcement env then Some schemas else None)\<rparr>) (can_settings env (gw_Adapters c))"

text \<open>The \<open>onUpdate\<close> callback of the three adapters.\<close>

definition update_of :: "time \<Rightarrow> update_call \<Rightarrow> PropertyUpdate" where
  "update_of now u = (case u of (d, p, v) \<Rightarrow> property_event d p v now)"

definition publish_out :: "time \<Rightarrow> ('s, gw_adapters) ds_world \<Rightarrow> ('s, gw_adapters) ds_world option" where
  "publish_out now w =
     map_option (\<lambda>b. w\<lparr>ds_hb := (ds_hb w)\<lparr>hw_broker := b\<rparr>, ds_tr := (ds_tr w)\<lparr>ga_out := []\<rparr>\<rparr>)
       (br_Publish_all (ds_broker w) (map (update_of now) (ga_out (ds_tr w))))"

definition queue :: "update_call list \<Rightarrow> gw_adapters \<Rightarrow> gw_adapters" where
  "queue us x = x\<lparr>ga_out := ga_out x @ us\<rparr>"

text \<open>The \<open>onStatusChange\<close> callback counts the online devices again; \<open>w\<close> and \<open>w'\<close> are the worlds before and after an event.\<close>

definition gauge :: "'s gw_config \<Rightarrow> ('s, 'x) ds_world \<Rightarrow> ('s, 'x) ds_world \<Rightarrow> nat \<Rightarrow> nat" where
  "gauge g w w' n =
     (if hw_calls (ds_hb w') = hw_calls (ds_hb w) then n
      else case rg_List (gc_reg g) (ds_reg w') (zero_ListFilter\<lparr>lf_Online := Some True\<rparr>) of
        Inl e \<Rightarrow> n
      | Inr devices \<Rightarrow> length devices)"

section \<open>Events\<close>

datatype gw_event =
    GwRpc gw_io "Identity option" rpc
  | GwFrame Frame
  | GwMessage string payload
  | GwPoll string http_client
  | GwWebhook string "json option"
  | GwSweep
  | GwBeat string

text \<open>The heartbeats among the calls of an MQTT message: each touches the monitor and drops its error.\<close>

fun run_calls :: "'s gw_config \<Rightarrow> time \<Rightarrow> mqtt_event list \<Rightarrow> ('s, gw_adapters) ds_world \<Rightarrow> ('s, gw_adapters) ds_world option" where
  "run_calls g now [] w = Some w"
| "run_calls g now (EvUpdate d p v # es) w =
     (case publish_out now (w\<lparr>ds_tr := queue [(d, p, v)] (ds_tr w)\<rparr>) of None \<Rightarrow> None | Some w' \<Rightarrow> run_calls g now es w')"
| "run_calls g now (EvHeartbeat d # es) w =
     (case hb_Touch (gc_reg g) (gc_monitor g) now d (ds_hb w) of None \<Rightarrow> None | Some (h, e) \<Rightarrow> run_calls g now es (w\<lparr>ds_hb := h\<rparr>))"

definition run_poll :: "string \<Rightarrow> http_client \<Rightarrow> gw_adapters \<Rightarrow> gw_adapters" where
  "run_poll i client x =
     (case gm_get (ha_polling (ga_http x)) i of
        None \<Rightarrow> x
      | Some (endpoint, interval) \<Rightarrow>
          (case poll client (ha_onUpdate (ga_http x)) i endpoint (ga_seen x i) of
             (seen', evs) \<Rightarrow> queue evs (x\<lparr>ga_seen := (ga_seen x)(i := seen')\<rparr>)))"

fun gw_world :: "'s gw_config \<Rightarrow> time \<Rightarrow> gw_event \<Rightarrow> ('s, gw_adapters) ds_world \<Rightarrow> ('s, gw_adapters) ds_world option" where
  "gw_world g now (GwRpc io caller req) w =
     (case serve (gw_service g io) now caller req w of
        None \<Rightarrow> None
      | Some (w', c) \<Rightarrow> if ga_crashed (ds_tr w') then None else publish_out now w')"
| "gw_world g now (GwFrame f) w =
     (case ca_processFrame f (ga_can (ds_tr w)) of (a, evs) \<Rightarrow>
        publish_out now (w\<lparr>ds_tr := queue evs ((ds_tr w)\<lparr>ga_can := a\<rparr>)\<rparr>))"
| "gw_world g now (GwMessage t p) w =
     (case ma_dispatch t p (ga_mqtt (ds_tr w)) of
        None \<Rightarrow> None
      | Some (a, evs) \<Rightarrow> run_calls g now evs (w\<lparr>ds_tr := (ds_tr w)\<lparr>ga_mqtt := a\<rparr>\<rparr>))"
| "gw_world g now (GwPoll i client) w = publish_out now (w\<lparr>ds_tr := run_poll i client (ds_tr w)\<rparr>)"
| "gw_world g now (GwWebhook i body) w =
     publish_out now (w\<lparr>ds_tr := queue (snd (handleWebhookEvent (ga_http (ds_tr w)) i body)) (ds_tr w)\<rparr>)"
| "gw_world g now GwSweep w = map_option (\<lambda>(h, e). w\<lparr>ds_hb := h\<rparr>) (hb_Sweep (gc_reg g) (gc_monitor g) now (ds_hb w))"
| "gw_world g now (GwBeat i) w =
     map_option (\<lambda>(h, e). w\<lparr>ds_hb := h\<rparr>) (hb_Touch (gc_reg g) (gc_monitor g) now i (ds_hb w))"

definition gw_do :: "'s gw_config \<Rightarrow> time \<times> gw_event \<Rightarrow> 's gw_state \<Rightarrow> 's gw_state option" where
  "gw_do g ev s =
     map_option (\<lambda>w'. \<lparr>gs_world = w', gs_online = gauge g (gs_world s) w' (gs_online s)\<rparr>) (gw_world g (fst ev) (snd ev) (gs_world s))"

fun gw_run :: "'s gw_config \<Rightarrow> (time \<times> gw_event) list \<Rightarrow> 's gw_state \<Rightarrow> 's gw_state option" where
  "gw_run g [] s = Some s"
| "gw_run g (e # es) s = (case gw_do g e s of None \<Rightarrow> None | Some s' \<Rightarrow> gw_run g es s')"

section \<open>Start\<close>

text \<open>Every device of the registry with the transport is watched; a failed watch is only logged.\<close>

definition watch_listed :: "'s registry_ops \<Rightarrow> string \<Rightarrow> (Device \<Rightarrow> 'x \<Rightarrow> 'x \<times> fault option) \<Rightarrow> 's \<Rightarrow> 'x \<Rightarrow> 'x option" where
  "watch_listed R t watch s x =
     (case rg_List R s (zero_ListFilter\<lparr>lf_Transport := t\<rparr>) of
        Inl e \<Rightarrow> None
      | Inr devices \<Rightarrow> Some (fold (\<lambda>d x. fst (watch d x)) devices x))"

definition gw_adapters_init :: "Database \<Rightarrow> duration option \<Rightarrow> gw_adapters" where
  "gw_adapters_init db pollInterval = \<lparr>ga_mqtt = ma_New True True, ga_http = ha_New True pollInterval, ga_seen = (\<lambda>_. []),
     ga_can = ca_New db True, ga_out = [], ga_crashed = False\<rparr>"

text \<open>
  The adapters on a registry as it was found: connect and watch for each of them in turn. \<open>v5\<close> and \<open>v3\<close> are the
  outcomes of the MQTT dial functions, \<open>sock\<close> that of opening the CAN socket.
\<close>

definition start_mqtt :: "'s gw_config \<Rightarrow> fault option \<Rightarrow> fault option \<Rightarrow> gw_io \<Rightarrow> 's \<Rightarrow> gw_adapters \<Rightarrow> gw_adapters option" where
  "start_mqtt g v5 v3 io s x =
     (if \<not> gc_mqtt g then Some x
      else case ma_Connect v5 v3 (ga_mqtt x) of
        (a, Some e) \<Rightarrow> None
      | (a, None) \<Rightarrow> watch_listed (gc_reg g) ''mqtt'' (\<lambda>d. mq_Watch (mqtt_of (io_mqtt io)) (dev_ID d)) s (x\<lparr>ga_mqtt := a\<rparr>))"

definition start_http :: "'s gw_config \<Rightarrow> gw_io \<Rightarrow> 's \<Rightarrow> gw_adapters \<Rightarrow> gw_adapters option" where
  "start_http g io s x = watch_listed (gc_reg g) ''http'' (ht_Watch (http_of (io_http io))) s x"

definition start_can :: "'s gw_config \<Rightarrow> fault option \<Rightarrow> gw_io \<Rightarrow> 's \<Rightarrow> gw_adapters \<Rightarrow> gw_adapters option" where
  "start_can g sock io s x =
     (if \<not> gc_can g then Some x
      else case ca_Open sock (ga_can x) of
        (a, Some e) \<Rightarrow> None
      | (a, None) \<Rightarrow> watch_listed (gc_reg g) ''can'' (tr_Watch (can_of (io_conv io) (io_wr io))) s (x\<lparr>ga_can := a\<rparr>))"

fun start_custom :: "'s registry_ops \<Rightarrow> 's \<Rightarrow> (string, gw_adapters transport_ops) gomap \<Rightarrow> gw_adapters \<Rightarrow> gw_adapters option" where
  "start_custom R s [] x = Some x"
| "start_custom R s ((name, t) # ts) x =
     (case watch_listed R name (tr_Watch t) s x of None \<Rightarrow> None | Some x' \<Rightarrow> start_custom R s ts x')"

definition gw_start :: "'s gw_config \<Rightarrow> Database \<Rightarrow> duration option \<Rightarrow> fault option \<Rightarrow> fault option \<Rightarrow> fault option \<Rightarrow> gw_io \<Rightarrow> 's \<Rightarrow> 's gw_state option" where
  "gw_start g db pollInterval v5 v3 sock io s =
     (case start_mqtt g v5 v3 io s (gw_adapters_init db pollInterval) of None \<Rightarrow> None | Some x1 \<Rightarrow>
      (case start_http g io s x1 of None \<Rightarrow> None | Some x2 \<Rightarrow>
       (case start_can g sock io s x2 of None \<Rightarrow> None | Some x3 \<Rightarrow>
        (case start_custom (gc_reg g) s (gc_custom g) x3 of None \<Rightarrow> None | Some x4 \<Rightarrow>
          if ga_crashed x4 then None else
          Some \<lparr>gs_world = \<lparr>ds_hb = \<lparr>hw_reg = s, hw_broker = NewBroker, hw_calls = []\<rparr>, ds_props = NewMemoryPropertyStore, ds_tr = x4, ds_errors = []\<rparr>,
                gs_online = 0\<rparr>))))"

section \<open>What requests keep of the adapters\<close>

definition tr_keeps :: "('x \<Rightarrow> bool) \<Rightarrow> (Device \<Rightarrow> bool) \<Rightarrow> ('s, 'x) DeviceService \<Rightarrow> bool" where
  "tr_keeps P Q sv \<longleftrightarrow> (\<forall>x. P x \<longrightarrow>
     (\<forall>m. sv_mqtt sv = Some m \<longrightarrow> (\<forall>i p v. P (fst (mq_Read m i p x)) \<and> P (fst (mq_Write m i p v x)) \<and> P (fst (mq_Watch m i x)))) \<and>
     (\<forall>h. sv_http sv = Some h \<longrightarrow> (\<forall>d p. P (fst (ht_Read h d p x)) \<and> (Q d \<longrightarrow> P (fst (ht_Watch h d x))))) \<and>
     (\<forall>t. sv_can sv = Some t \<or> (\<exists>n. gm_get (sv_custom sv) n = Some t) \<longrightarrow>
        (\<forall>d p v. P (fst (tr_Read t d p x)) \<and> P (fst (tr_Write t d p v x)) \<and> P (fst (tr_Watch t d x)))))"

lemma route_via:
  "route_of sv n = ViaMqtt m \<Longrightarrow> sv_mqtt sv = Some m"
  "route_of sv n = ViaHttp h \<Longrightarrow> sv_http sv = Some h"
  "route_of sv n = ViaCan t \<Longrightarrow> sv_can sv = Some t"
  "route_of sv n = ViaCustom t \<Longrightarrow> gm_get (sv_custom sv) n = Some t"
  by (auto simp: route_of_def custom_route_def split: if_splits option.splits)

lemma keeps_read: "tr_keeps P Q sv \<Longrightarrow> P (ds_tr w) \<Longrightarrow> P (ds_tr (fst (read_via sv d i p w)))"
  unfolding tr_keeps_def read_via_def Let_def
  by (auto split: route.split prod.split sum.split simp: adapter_failed_def dest!: route_via) (metis fst_conv)+

lemma keeps_watch: "tr_keeps P Q sv \<Longrightarrow> Q d \<Longrightarrow> P x \<Longrightarrow> P (watch_registered sv d x)"
  unfolding tr_keeps_def watch_registered_def by (auto split: route.split dest!: route_via) blast

lemma publishAndRespond_tr: "publishAndRespond sv now i p v w = Some (w', r) \<Longrightarrow> ds_tr w' = ds_tr w"
  by (auto simp: publishAndRespond_def Let_def mark_online_def split: option.splits)

lemma touch_registered_tr: "touch_registered sv now d w = Some (w', d') \<Longrightarrow> ds_tr w' = ds_tr w"
  by (auto simp: touch_registered_def split: option.splits prod.splits)

lemma keeps_write:
  "tr_keeps P Q sv \<Longrightarrow> P (ds_tr w) \<Longrightarrow> write_via sv now d i p v w = Some (w', r) \<Longrightarrow> P (ds_tr w')"
  unfolding tr_keeps_def write_via_def set_route_of_eq
  by (auto split: route.splits prod.splits option.splits simp: adapter_failed_def respond_written_def mark_online_def
      dest!: route_via publishAndRespond_tr) (metis fst_conv)+

context registry_contract
begin

lemma register_labels:
  assumes "inv s" and "wf_labels d" and "rg_Register R s d = (s', Inr d')"
  shows "label_at d' = label_at d"
proof -
  have new: "label_at d' = label_at e" if "registered storable m e m' (Inr d')" for m e m'
  proof -
    have "d' = init_device e" using that by (auto simp: registered_def split: option.splits if_splits)
    then show ?thesis by (auto simp: init_device_def label_at_def label_lookup_def Let_def fun_eq_iff)
  qed
  show ?thesis
  proof (cases "dev_ID d = []")
    case True
    then obtain n where "registered storable (devs s) (d\<lparr>dev_ID := gen_id n\<rparr>) (devs s') (Inr d')"
      using register_auto [OF assms(1,2) _ assms(3)] by blast
    from new [OF this] show ?thesis by (simp add: label_at_def label_lookup_def fun_eq_iff)
  next
    case False
    then show ?thesis using register_law [OF assms(1,2) _ assms(3)] new by blast
  qed
qed

lemma keeps_serve:
  assumes "tr_keeps P Q sv" and "P (ds_tr w)" and "sv_reg sv = R" and "inv (ds_reg w)" and "serve sv now caller req w = Some (w', c)"
    and "\<And>r d. req = RpcRegisterDevice r \<Longrightarrow> wf_labels (request_device r) \<and> (label_at d = label_at (request_device r) \<longrightarrow> Q d)"
  shows "P (ds_tr w')"
proof (cases req)
  case (RpcRegisterDevice r)
  have labels: "Q d" if "rg_Register R (ds_reg w) (request_device r) = (s', Inr d)" for s' d
    using register_labels [OF assms(4) _ that] assms(6) [OF RpcRegisterDevice] by blast
  have "P (ds_tr w1)" if "RegisterDevice sv now caller r w = Some (w1, x)" for w1 x
    using that assms(2,3) labels keeps_watch [OF assms(1)]
    by (auto simp: RegisterDevice_def Let_def dest!: touch_registered_tr split: if_splits option.splits sum.splits prod.splits)
  with assms(5) RpcRegisterDevice show ?thesis by auto
next
  case (RpcGetProperty i p)
  with assms(2,5) keeps_read [OF assms(1), of w] show ?thesis
    by (auto simp: GetProperty_def split: sum.splits prod.splits if_splits) (metis fst_conv)+
next
  case (RpcSetProperty i p v)
  with assms(2,5) keeps_write [OF assms(1), of w] show ?thesis
    by (auto simp: SetProperty_def Let_def split: sum.splits option.splits if_splits)
next
  case (RpcDeleteDevice i)
  with assms(2,5) show ?thesis
    by (auto simp: DeleteDevice_def split: option.splits prod.splits if_splits)
next
  case (RpcSubscribe i)
  with assms(2,5) show ?thesis
    by (auto simp: Subscribe_open_def split: sum.splits prod.splits if_splits)
qed (use assms(2,5) in auto)

end

section \<open>The adapters' invariants\<close>

lemma cancel_register:
  assumes "ma_inv a" and "registerWaiter t a = (ch, a1)"
  shows "ma_inv (cancelWaiter t ch a1)"
  using exchange_run [OF assms, of "\<lparr>me_subscribe = (\<lambda>_. None), me_publish = (\<lambda>_ _. None), me_delivered = [], me_done = CanceledE, me_start = 0, me_end = 0\<rparr>" "[]" None "[]"]
  by (auto simp: exchange_def split: list.splits)

text \<open>Messages that can arrive while a request waits, without the status messages, which are events of their own.\<close>

definition deliverable :: "(string \<times> payload) list \<Rightarrow> bool" where
  "deliverable ms \<longleftrightarrow> (\<forall>(t, p) \<in> set ms. parsePropsTopic t = None \<longrightarrow> parseStatusTopic t = Some None)"

lemma deliverable_events: "deliverable ms \<Longrightarrow> \<exists>evs. events_of a ms = Some evs"
proof (induction ms)
  case (Cons m ms)
  obtain t p where m: "m = (t, p)" by (cases m)
  have "deliverable ms" and t: "parsePropsTopic t = None \<longrightarrow> parseStatusTopic t = Some None"
    using Cons.prems by (auto simp: deliverable_def m)
  then obtain es where "events_of a ms = Some es" using Cons.IH by blast
  moreover have "\<exists>e. dispatch_events a t p = Some e"
    using t by (auto simp: dispatch_events_def split: option.split sum.split)
  ultimately show ?case using m by auto
qed simp

lemma exchange_total:
  assumes "ma_inv a" and "registerWaiter t a = (ch, a1)" and "deliverable (me_delivered env)"
  shows "\<exists>a2 evs r. exchange env ch pt p a1 = Some (a2, evs, r) \<and> ma_inv (cancelWaiter t ch a2)"
proof (cases "me_publish env pt p")
  case None
  with exchange_run [OF assms(1,2)] deliverable_events [OF assms(3)] show ?thesis by blast
next
  case (Some e)
  with cancel_register [OF assms(1,2)] show ?thesis by (simp add: exchange_def)
qed

lemma ma_Read_total:
  assumes "ma_inv a" and "deliverable (me_delivered env)"
  shows "\<exists>a' evs r. ma_ReadProperty env i p a = Some (a', evs, r) \<and> ma_inv a'"
proof -
  obtain a1 g where g: "request_guard env i p a = (a1, g)" by fastforce
  have inv1: "ma_inv a1" using assms(1) request_guard_fields [OF g] ma_inv_cong [of a1 a] by simp
  obtain a2 e where s: "subscribeOnce env (topicProps i p) a1 = (a2, e)" by fastforce
  have inv2: "ma_inv a2" using inv1 subscribeOnce_fields [OF s] ma_inv_cong [of a2 a1] by simp
  obtain ch a3 where r: "registerWaiter (topicProps i p) a2 = (ch, a3)" by fastforce
  obtain a4 evs r where x: "exchange env ch (topicGet i p) None a3 = Some (a4, evs, r)" "ma_inv (cancelWaiter (topicProps i p) ch a4)"
    using exchange_total [OF inv2 r assms(2)] by blast
  have "\<exists>a' evs r. readProperty env i p a1 = Some (a', evs, r) \<and> ma_inv a'"
    using s r x inv1 inv2 by (cases e; cases r) (auto simp: readProperty_def Let_def)
  with g inv1 show ?thesis by (cases g) (auto simp: ma_ReadProperty_def)
qed

lemma ma_Write_total:
  assumes "ma_inv a" and "deliverable (me_delivered env)"
  shows "\<exists>a' evs r. ma_WriteProperty env i p v a = Some (a', evs, r) \<and> ma_inv a'"
proof -
  obtain a1 g where g: "request_guard env i p a = (a1, g)" by fastforce
  have inv1: "ma_inv a1" using assms(1) request_guard_fields [OF g] ma_inv_cong [of a1 a] by simp
  obtain a2 e where s: "subscribeOnce env (topicSetAck i p) a1 = (a2, e)" by fastforce
  have inv2: "ma_inv a2" using inv1 subscribeOnce_fields [OF s] ma_inv_cong [of a2 a1] by simp
  obtain ch a3 where r: "registerWaiter (topicSetAck i p) a2 = (ch, a3)" by fastforce
  have c: "ma_inv (cancelWaiter (topicSetAck i p) ch a3)" by (rule cancel_register [OF inv2 r])
  obtain a4 evs x where x: "exchange env ch (topicSet i p) (Some (projr (encodeValue v))) a3 = Some (a4, evs, x)"
    "ma_inv (cancelWaiter (topicSetAck i p) ch a4)"
    using exchange_total [OF inv2 r assms(2)] by blast
  have "\<exists>a' evs r. writeProperty env i p v a1 = Some (a', evs, r) \<and> ma_inv a'"
    using s r x c inv1 inv2 by (cases e; cases "encodeValue v"; cases x) (auto simp: writeProperty_def Let_def)
  with g inv1 show ?thesis by (cases g) (auto simp: ma_WriteProperty_def)
qed

lemma ma_Watch_inv: "ma_inv a \<Longrightarrow> ma_inv (fst (ma_WatchDevice env i a))"
proof -
  assume a: "ma_inv a"
  have step: "ma_inv (fst (subscribeOnce env t b))" if "ma_inv b" for t b
  proof -
    obtain b' e where s: "subscribeOnce env t b = (b', e)" by fastforce
    then show ?thesis using that subscribeOnce_fields [OF s] ma_inv_cong [of b' b] by simp
  qed
  show ?thesis
    using a step [of a "topicPropsWildcard i"] step [of "fst (subscribeOnce env (topicPropsWildcard i) a)" "topicStatus i"]
    by (auto simp: ma_WatchDevice_def split: option.splits prod.splits)
qed

lemma ca_Write_reach:
  assumes "ca_reach db cb a"
  shows "ca_reach db cb (fst (ca_WriteProperty conv wr ctx d p v a))"
proof (cases "write_guard ctx a d p")
  case (Inl e)
  with assms show ?thesis by (simp add: ca_WriteProperty_def)
next
  case (Inr msg)
  then have "MessageByName db (label_at d LabelMessage) = Some msg"
    using reach_fields [OF assms] by (auto simp: write_guard_def ca_resolve_def Let_def split: option.splits if_splits sum.splits)
  from reach_Write [OF assms this] Inr show ?thesis by (simp add: ca_WriteProperty_def)
qed

text \<open>A device whose poll interval label, when it parses, is positive.\<close>

definition poll_ok :: "Device \<Rightarrow> bool" where
  "poll_ok d \<longleftrightarrow> (\<forall>n. label_at d LabelPollInterval \<noteq> [] \<and> ParseDuration (label_at d LabelPollInterval) = Some n \<longrightarrow> 0 < n)"

definition ha_inv :: "HttpAdapter \<Rightarrow> bool" where
  "ha_inv a \<longleftrightarrow> 0 < ha_pollInterval a \<and> (\<forall>i e n. gm_get (ha_polling a) i = Some (e, n) \<longrightarrow> 0 < n)"

lemma ha_inv_New: "(\<And>n. every = Some n \<Longrightarrow> 0 < n) \<Longrightarrow> ha_inv (ha_New cb every)"
  by (auto simp: ha_inv_def ha_New_def defaultPollInterval_def second_def split: option.split)

lemma ha_inv_watch: "ha_inv a \<Longrightarrow> poll_ok d \<Longrightarrow> ha_inv (fst (ha_WatchDevice ctx d a))"
  by (auto simp: ha_inv_def ha_WatchDevice_def poll_ok_def poll_interval_of_def Let_def split: option.split)

lemma ha_inv_ticker: "ha_inv a \<Longrightarrow> \<not> bad_ticker a i"
  unfolding ha_inv_def bad_ticker_def by (auto simp: not_le split: option.split)

definition ga_inv :: "Database \<Rightarrow> gw_adapters \<Rightarrow> bool" where
  "ga_inv db x \<longleftrightarrow> ma_inv (ga_mqtt x) \<and> ha_inv (ga_http x) \<and> ca_reach db True (ga_can x) \<and> \<not> ga_crashed x"

definition ga_quiet :: "Database \<Rightarrow> gw_adapters \<Rightarrow> bool" where
  "ga_quiet db x \<longleftrightarrow> ga_inv db x \<and> ga_out x = []"

lemma ga_inv_upd [simp]:
  "ga_inv db (x\<lparr>ga_out := us\<rparr>) = ga_inv db x" "ga_inv db (queue us x) = ga_inv db x" "ga_inv db (x\<lparr>ga_seen := sn\<rparr>) = ga_inv db x"
  by (simp_all add: ga_inv_def queue_def)

text \<open>A custom transport keeps the invariant of the others, as one with a state of its own does, and it has no callback.\<close>

definition custom_ok :: "Database \<Rightarrow> gw_adapters transport_ops \<Rightarrow> bool" where
  "custom_ok db t \<longleftrightarrow> (\<forall>x d p v. ga_inv db x \<longrightarrow>
     ga_inv db (fst (tr_Read t d p x)) \<and> ga_inv db (fst (tr_Write t d p v x)) \<and> ga_inv db (fst (tr_Watch t d x)) \<and> ga_out (fst (tr_Watch t d x)) = ga_out x)"

definition customs_ok :: "Database \<Rightarrow> 's gw_config \<Rightarrow> bool" where
  "customs_ok db g \<longleftrightarrow> (\<forall>n t. gm_get (gc_custom g) n = Some t \<longrightarrow> custom_ok db t)"

lemma can_of_ok: "custom_ok db (can_of conv wr)"
proof -
  have "ga_inv db (fst (tr_Write (can_of conv wr) d p v x))" if "ga_inv db x" for d p v x
    using that ca_Write_reach [of db True "ga_can x" conv wr None d p v] by (simp add: can_of_def ga_inv_def case_prod_beta)
  moreover have "ga_inv db (fst (tr_Watch (can_of conv wr) d x))" if "ga_inv db x" for d x
    using that reach_Watch [of db True "ga_can x" d] by (simp add: can_of_def ga_inv_def case_prod_beta)
  ultimately show ?thesis by (simp add: custom_ok_def) (simp add: can_of_def split: prod.split)
qed

lemma gw_service_keeps:
  assumes "deliverable (me_delivered (io_mqtt io))" and "customs_ok db g"
  shows "tr_keeps (ga_inv db) poll_ok (gw_service g io)"
proof -
  have mqtt: "ga_inv db (fst (mq_Read (mqtt_of (io_mqtt io)) i p x))" "ga_inv db (fst (mq_Write (mqtt_of (io_mqtt io)) i p v x))"
    "ga_inv db (fst (mq_Watch (mqtt_of (io_mqtt io)) i x))" if "ga_inv db x" for i p v x
    using that ma_Read_total [OF _ assms(1), of "ga_mqtt x" i p] ma_Write_total [OF _ assms(1), of "ga_mqtt x" i p v]
      ma_Watch_inv [of "ga_mqtt x" "io_mqtt io" i]
    by (auto simp: mqtt_of_def ga_inv_def case_prod_beta)
  have http: "ga_inv db (fst (ht_Watch (http_of c) d x))" if "ga_inv db x" "poll_ok d" for c d x
    using that ha_inv_watch [of "ga_http x" d None] ha_inv_ticker by (simp add: http_of_def ga_inv_def case_prod_beta)
  have read: "ga_inv db x \<Longrightarrow> ga_inv db (fst (ht_Read (http_of c) d p x))" for c d p x by (simp add: http_of_def)
  have "custom_ok db t" if "sv_can (gw_service g io) = Some t \<or> (\<exists>n. gm_get (sv_custom (gw_service g io)) n = Some t)" for t
    using that assms(2) can_of_ok by (auto simp: gw_service_eq customs_ok_def split: if_splits)
  then show ?thesis
    unfolding tr_keeps_def custom_ok_def using mqtt http read by (simp add: gw_service_eq split: if_splits)
qed

section \<open>The gateway's invariant\<close>

definition gw_ok :: "('s \<Rightarrow> bool) \<Rightarrow> Database \<Rightarrow> ('s, gw_adapters) ds_world \<Rightarrow> bool" where
  "gw_ok I db w \<longleftrightarrow> ds_ok I w \<and> ga_inv db (ds_tr w) \<and> ga_out (ds_tr w) = []"

text \<open>What the outside may do: a registration carries a map of labels and a positive poll interval, a frame has eight bytes, and no MQTT
  message comes on the topic whose prefix and suffix overlap, to which the adapter never subscribes.\<close>

fun event_ok :: "gw_event \<Rightarrow> bool" where
  "event_ok (GwRpc io caller req) = (deliverable (me_delivered (io_mqtt io)) \<and>
     (case req of RpcRegisterDevice r \<Rightarrow> wf_labels (request_device r) \<and> poll_ok (request_device r) | _ \<Rightarrow> True))"
| "event_ok (GwFrame f) = (length (fr_Data f) = 8)"
| "event_ok (GwMessage t p) = (parseStatusTopic t \<noteq> None)"
| "event_ok _ = True"

lemma publish_out_ok:
  assumes "ds_ok I w" and "ga_inv db (ds_tr w)"
  shows "\<exists>w'. publish_out now w = Some w' \<and> gw_ok I db w' \<and> ds_reg w' = ds_reg w \<and> hw_calls (ds_hb w') = hw_calls (ds_hb w) \<and>
     ds_tr w' = (ds_tr w)\<lparr>ga_out := []\<rparr> \<and> br_Publish_all (ds_broker w) (map (update_of now) (ga_out (ds_tr w))) = Some (ds_broker w')"
proof -
  obtain b where "br_Publish_all (ds_broker w) (map (update_of now) (ga_out (ds_tr w))) = Some b" "br_inv b"
    using br_inv_Publish_all assms(1) unfolding ds_ok_def by blast
  with assms show ?thesis by (simp add: publish_out_def gw_ok_def ds_ok_def)
qed

lemma run_poll_inv: "ga_inv db x \<Longrightarrow> ga_inv db (run_poll i client x)"
  by (simp add: run_poll_def split: option.split prod.split)

context registry_contract
begin

lemma touch_gw:
  assumes "gw_ok inv db w"
  shows "\<exists>h e. hb_Touch R m now i (ds_hb w) = Some (h, e) \<and> gw_ok inv db (w\<lparr>ds_hb := h\<rparr>)"
  using assms touch_total [of "ds_hb w" m now i] by (auto simp: gw_ok_def ds_ok_def)

lemma run_calls_ok:
  assumes "gc_reg g = R" and "gw_ok inv db w"
  shows "\<exists>w'. run_calls g now es w = Some w' \<and> gw_ok inv db w'"
  using assms(2)
proof (induction es arbitrary: w)
  case (Cons e es)
  show ?case
  proof (cases e)
    case (EvUpdate d p v)
    have "ds_ok inv (w\<lparr>ds_tr := queue [(d, p, v)] (ds_tr w)\<rparr>)" "ga_inv db (ds_tr (w\<lparr>ds_tr := queue [(d, p, v)] (ds_tr w)\<rparr>))"
      using Cons.prems by (simp_all add: gw_ok_def)
    from publish_out_ok [OF this, of now] Cons.IH EvUpdate show ?thesis by (fastforce split: option.split)
  next
    case (EvHeartbeat d)
    obtain h x where "hb_Touch R (gc_monitor g) now d (ds_hb w) = Some (h, x)" "gw_ok inv db (w\<lparr>ds_hb := h\<rparr>)"
      using touch_gw [OF Cons.prems] by blast
    with Cons.IH EvHeartbeat assms(1) show ?thesis by simp
  qed
qed simp

lemma rpc_ok:
  assumes "gc_reg g = R" and "customs_ok db g" and "gw_ok inv db w"
    and "event_ok (GwRpc io caller req)"
  shows "\<exists>w' c. serve (gw_service g io) now caller req w = Some (w', c) \<and> ds_ok inv w' \<and> ga_inv db (ds_tr w')"
proof -
  have reg: "sv_reg (gw_service g io) = R" using assms(1) by (simp add: gw_service_eq)
  have w: "ds_ok inv w" "ga_inv db (ds_tr w)" "inv (ds_reg w)" using assms(3) by (simp_all add: gw_ok_def ds_ok_def)
  obtain w' c where s: "serve (gw_service g io) now caller req w = Some (w', c)" "ds_ok inv w'"
    using serve_total [OF reg w(1), of req now caller] assms(4) by (auto split: rpc.splits)
  have "wf_labels (request_device r) \<and> (label_at d = label_at (request_device r) \<longrightarrow> poll_ok d)"
    if "req = RpcRegisterDevice r" for r d
    using assms(4) that by (simp add: poll_ok_def)
  from keeps_serve [OF gw_service_keeps [OF _ assms(2)] w(2) reg w(3) s(1) this] assms(4) s show ?thesis by auto
qed

lemma gw_world_ok:
  assumes "gc_reg g = R" and "customs_ok db g" and "gw_ok inv db w" and "event_ok ev"
  shows "\<exists>w'. gw_world g now ev w = Some w' \<and> gw_ok inv db w'"
proof -
  have w: "ds_ok inv w" "ga_inv db (ds_tr w)" using assms(3) by (simp_all add: gw_ok_def)
  have pub: "\<exists>w'. publish_out now (w\<lparr>ds_tr := x\<rparr>) = Some w' \<and> gw_ok inv db w'" if "ga_inv db x" for x
    using publish_out_ok [of inv "w\<lparr>ds_tr := x\<rparr>" db now] w that by auto
  show ?thesis
  proof (cases ev)
    case (GwRpc io caller req)
    obtain w' c where s: "serve (gw_service g io) now caller req w = Some (w', c)" "ds_ok inv w'" "ga_inv db (ds_tr w')"
      using rpc_ok [OF assms(1-3)] assms(4) GwRpc by blast
    with publish_out_ok [OF s(2,3), of now] GwRpc show ?thesis by (auto simp: ga_inv_def)
  next
    case (GwFrame f)
    have "ga_inv db (queue evs ((ds_tr w)\<lparr>ga_can := fst (ca_processFrame f (ga_can (ds_tr w)))\<rparr>))" for evs
      using w(2) reach_Frame [of db True "ga_can (ds_tr w)" f] assms(4) GwFrame by (simp add: ga_inv_def queue_def)
    from pub [OF this] GwFrame show ?thesis by (simp add: case_prod_beta)
  next
    case (GwMessage t p)
    have inv: "ma_inv (ga_mqtt (ds_tr w))" using w(2) by (simp add: ga_inv_def)
    have "\<exists>evs. dispatch_events (ga_mqtt (ds_tr w)) t p = Some evs"
      using assms(4) GwMessage by (auto simp: dispatch_events_def split: option.split sum.split)
    then obtain evs where "dispatch_events (ga_mqtt (ds_tr w)) t p = Some evs" by blast
    from dispatch_step [OF inv this] obtain h where h: "ma_dispatch t p (ga_mqtt (ds_tr w)) = Some ((ga_mqtt (ds_tr w))\<lparr>ma_chans := h\<rparr>, evs)"
      "\<forall>c. \<not> ch_closed (h c)" by blast
    have "gw_ok inv db (w\<lparr>ds_tr := (ds_tr w)\<lparr>ga_mqtt := (ga_mqtt (ds_tr w))\<lparr>ma_chans := h\<rparr>\<rparr>\<rparr>)"
      using assms(3) h(2) inv by (simp add: gw_ok_def ga_inv_def ma_inv_def waiters_at_def)
    from run_calls_ok [OF assms(1) this] h GwMessage show ?thesis by simp
  next
    case (GwPoll i client)
    then show ?thesis using pub [OF run_poll_inv [OF w(2)]] by simp
  next
    case (GwWebhook i body)
    then show ?thesis using pub w(2) by simp
  next
    case GwSweep
    then show ?thesis using sweep [of "ds_hb w" "gc_monitor g" now] w assms(1,3) by (auto simp: gw_ok_def ds_ok_def)
  next
    case (GwBeat i)
    then show ?thesis using touch_gw [OF assms(3), of "gc_monitor g" now i] assms(1) by auto
  qed
qed

lemma gw_run_ok:
  assumes "gc_reg g = R" and "customs_ok db g" and "gw_ok inv db (gs_world s)"
    and "\<And>e. e \<in> set es \<Longrightarrow> event_ok (snd e)"
  shows "\<exists>s'. gw_run g es s = Some s' \<and> gw_ok inv db (gs_world s')"
  using assms(3,4)
proof (induction es arbitrary: s)
  case (Cons e es)
  obtain w' where "gw_world g (fst e) (snd e) (gs_world s) = Some w'" "gw_ok inv db w'"
    using gw_world_ok [OF assms(1,2) Cons.prems(1)] Cons.prems(2) [of e] by auto
  with Cons.IH [of "\<lparr>gs_world = w', gs_online = gauge g (gs_world s) w' (gs_online s)\<rparr>"] Cons.prems(2) show ?case
    by (simp add: gw_do_def)
qed simp

lemma watch_listed_ok:
  assumes "inv s" and "P x" and "\<And>d x. P x \<Longrightarrow> Q d \<Longrightarrow> P (fst (watch d x))"
    and "\<And>d. d \<in> ran (devs s) \<Longrightarrow> Q d"
  shows "\<exists>x'. watch_listed R t watch s x = Some x' \<and> P x'"
proof -
  obtain ds where ds: "rg_List R s (zero_ListFilter\<lparr>lf_Transport := t\<rparr>) = Inr ds"
    "set ds = {d \<in> ran (devs s). matchesFilter d (zero_ListFilter\<lparr>lf_Transport := t\<rparr>)}"
    using list_law [OF assms(1)] by blast
  have "Q d" if "d \<in> set ds" for d
    using that ds(2) assms(4) by blast
  then have "P (fold (\<lambda>d x. fst (watch d x)) ds x)"
    using assms(2,3) by (induction ds arbitrary: x) auto
  with ds(1) show ?thesis by (simp add: watch_listed_def)
qed

lemma start_custom_ok:
  assumes "inv s" and "\<forall>t \<in> snd ` set ts. custom_ok db t" and "ga_quiet db x"
  shows "\<exists>x'. start_custom R s ts x = Some x' \<and> ga_quiet db x'"
  using assms(2,3)
proof (induction ts arbitrary: x)
  case (Cons a ts)
  obtain n t where a: "a = (n, t)" by (cases a)
  have t: "custom_ok db t" using Cons.prems(1) a by simp
  obtain x' where "watch_listed R n (tr_Watch t) s x = Some x'" "ga_quiet db x'"
    using watch_listed_ok [of s "ga_quiet db" x "\<lambda>_. True" "tr_Watch t" n] assms(1) Cons.prems(2) t
    unfolding custom_ok_def ga_quiet_def by auto
  moreover have "\<exists>y. start_custom R s ts x' = Some y \<and> ga_quiet db y"
    using Cons.prems(1) calculation(2) by (intro Cons.IH) auto
  ultimately show ?case using a by simp
qed simp

lemma gw_start_ok:
  assumes "gc_reg g = R" and "inv s" and "customs_ok db g" and "gm_ok (gc_custom g)"
    and "\<And>n. every = Some n \<Longrightarrow> 0 < n" and "\<And>d. d \<in> ran (devs s) \<Longrightarrow> poll_ok d"
    and "gc_mqtt g \<Longrightarrow> snd (ma_Connect v5 v3 (ma_New True True)) = None" and "gc_can g \<Longrightarrow> sock = None"
  shows "\<exists>st. gw_start g db every v5 v3 sock io s = Some st \<and> gw_ok inv db (gs_world st) \<and> ds_reg (gs_world st) = s"
proof -
  let ?x = "gw_adapters_init db every"
  have x: "ga_quiet db ?x"
    using ha_inv_New [OF assms(5)] reach_New [of db True]
    by (simp add: gw_adapters_init_def ga_quiet_def ga_inv_def ma_New_def ma_inv_def waiters_at_def make_chan_def)
  have "\<exists>x1. start_mqtt g v5 v3 io s ?x = Some x1 \<and> ga_quiet db x1"
  proof (cases "gc_mqtt g")
    case True
    obtain a where a: "ma_Connect v5 v3 (ma_New True True) = (a, None)"
      using assms(7) [OF True] by (metis prod.collapse)
    have "ma_inv a"
      using a x ma_inv_cong [of "(ma_New True True)\<lparr>ma_tr := True\<rparr>" "ma_New True True"]
      by (auto simp: ma_Connect_def Let_def ga_quiet_def ga_inv_def gw_adapters_init_def split: option.splits)
    then have "ga_quiet db (?x\<lparr>ga_mqtt := a\<rparr>)" using x by (simp add: ga_quiet_def ga_inv_def)
    moreover have "ga_quiet db y \<Longrightarrow> ga_quiet db (fst (mq_Watch (mqtt_of (io_mqtt io)) i y))" for i y
      using ma_Watch_inv [of "ga_mqtt y" "io_mqtt io" i] by (simp add: mqtt_of_def ga_inv_def ga_quiet_def case_prod_beta)
    ultimately show ?thesis
      using watch_listed_ok [of s "ga_quiet db" "?x\<lparr>ga_mqtt := a\<rparr>" "\<lambda>_. True" "\<lambda>d. mq_Watch (mqtt_of (io_mqtt io)) (dev_ID d)" "''mqtt''"] assms(1,2) a True
      by (simp add: start_mqtt_def gw_adapters_init_def)
  qed (use x in \<open>simp add: start_mqtt_def\<close>)
  then obtain x1 where x1: "start_mqtt g v5 v3 io s ?x = Some x1" "ga_quiet db x1" by blast
  have "ga_quiet db (fst (ht_Watch (http_of (io_http io)) d y))" if "ga_quiet db y" "poll_ok d" for d y
    using that ha_inv_watch [of "ga_http y" d None] ha_inv_ticker by (simp add: http_of_def ga_inv_def ga_quiet_def case_prod_beta)
  then obtain x2 where x2: "start_http g io s x1 = Some x2" "ga_quiet db x2"
    using watch_listed_ok [of s "ga_quiet db" x1 poll_ok "ht_Watch (http_of (io_http io))" "''http''"] assms(1,2,6) x1(2)
    by (auto simp: start_http_def)
  have "\<exists>x3. start_can g sock io s x2 = Some x3 \<and> ga_quiet db x3"
  proof (cases "gc_can g")
    case True
    have "ga_quiet db (x2\<lparr>ga_can := (ga_can x2)\<lparr>ca_sock := True\<rparr>\<rparr>)"
      using x2(2) reach_Open [of db True "ga_can x2" None] by (simp add: ga_quiet_def ga_inv_def ca_Open_def)
    from watch_listed_ok [of s "ga_quiet db" _ "\<lambda>_. True" "tr_Watch (can_of (io_conv io) (io_wr io))" "''can''", OF assms(2) this] True assms(1,8)
    show ?thesis using can_of_ok [of db "io_conv io" "io_wr io"] by (simp add: start_can_def ca_Open_def custom_ok_def ga_quiet_def)
  qed (use x2 in \<open>simp add: start_can_def\<close>)
  then obtain x3 where x3: "start_can g sock io s x2 = Some x3" "ga_quiet db x3" by blast
  have "\<forall>t \<in> snd ` set (gc_custom g). custom_ok db t"
    using assms(3,4) gm_in_iff [of "gc_custom g"] by (auto simp: customs_ok_def)
  from start_custom_ok [of s "gc_custom g" db x3, OF assms(2) this x3(2)] assms(1) obtain x4
    where x4: "start_custom (gc_reg g) s (gc_custom g) x3 = Some x4" "ga_quiet db x4" by auto
  then show ?thesis
    using x1(1) x2(1) x3(1) assms(2) br_inv_New by (simp add: gw_start_def gw_ok_def ds_ok_def ga_quiet_def ga_inv_def)
qed

end

section \<open>What subscribers see\<close>

text \<open>A run of publications fills the buffer of a subscriber with the updates of its device as far as it has room.\<close>

lemma publish_all_buffer:
  assumes "br_inv b" and "br_Publish_all b us = Some b'" and "c \<in> set (br_subscribers b i)"
  shows "ch_buf (br_chans b' c) = take subscriberBuffer (ch_buf (br_chans b c) @ filter (\<lambda>u. upd_DeviceID u = i) us)"
  using assms
proof (induction us arbitrary: b)
  case Nil
  then show ?case using br_invD(5) [of b c] by simp
next
  case (Cons u us)
  obtain b1 where b1: "br_Publish b u = Some b1" "br_Publish_all b1 us = Some b'"
    using Cons.prems(2) by (auto split: option.splits)
  have eq: "b1 = b\<lparr>br_chans := (\<lambda>c. if c \<in> set (br_subscribers b (upd_DeviceID u)) then offer u (br_chans b c) else br_chans b c)\<rparr>"
    using b1(1) br_Publish_eq [OF Cons.prems(1), of u] by simp
  have "c \<in> set (br_subscribers b1 i)" using Cons.prems(3) by (simp add: eq br_subscribers_def)
  note IH = Cons.IH [OF br_inv_Publish [OF Cons.prems(1) b1(1)] b1(2) this]
  have mem: "c \<in> set (br_subscribers b (upd_DeviceID u)) \<longleftrightarrow> upd_DeviceID u = i"
    using br_invD(4) [OF Cons.prems(1)] Cons.prems(3) by blast
  show ?case
    using IH mem by (auto simp: eq offer_def take_Cons')
qed

lemma frame_event:
  assumes "ca_reach db True a" and "db_ok db" and "MessageByName db n = Some msg" and "msg_signal msg p = Some sig"
    and "fr_ID f = msg_ID msg" and "sig_active msg (fr_Data f) sig"
    and "gm_get (ca_watched a) i = Some d" and "label_at d LabelMessage = msg_Name msg"
  shows "(i, p, sig_decode sig (fr_Data f)) \<in> set (snd (ca_processFrame f a))"
proof -
  note m = db_ok_Name [OF assms(2,3)]
  have d: "dev_ID d = i" using reach_watch_inv [OF assms(1)] assms(7) by (simp add: watch_inv_def)
  have "d \<in> set (map snd (bucket_of a (msg_Name msg)))"
    using bucket_watchers(1) [OF reach_watch_inv [OF assms(1)], of "msg_Name msg"] assms(7,8) d by simp
  moreover have "(p, sig_decode sig (fr_Data f)) \<in> set (DecodeEach msg (fr_Data f))"
    using DecodeEach_in [of msg p sig] m assms(4,6) by simp
  moreover have "snd (ca_processFrame f a) =
      concat (map (\<lambda>(n, v). map (\<lambda>d. (dev_ID d, n, v)) (map snd (bucket_of a (msg_Name msg)))) (DecodeEach msg (fr_Data f)))"
    using reach_fields [OF assms(1)] m assms(5) by (intro processFrame_events) auto
  ultimately show ?thesis using d by force
qed

context registry_contract
begin

lemma can_set:
  assumes "gc_reg g = R" and "gc_can g" and "gw_ok inv db w" and "db_ok db" and "devs (ds_reg w) i = Some d"
    and "storable (online now d)" and "dev_Transport d = ''can''" and "i \<noteq> []" and "p \<noteq> []" and "may caller OpSetProperty i (dev_ACL d)"
    and "check_value (gw_service g io) (dev_Capability d) p (IntValue n) = None"
    and "label_at d LabelMessage \<noteq> []" and "MessageByName db (label_at d LabelMessage) = Some msg" and "msg_signal msg p = Some sig"
    and "ca_sock (ga_can (ds_tr w))" and "sig_ok 8 sig" and "sig_integral sig" and "sig_range sig (sint n)" and "\<bar>sint n\<bar> \<le> 2 ^ 53" and "mux_ok msg sig"
    and "\<And>f. io_wr io f = None" and "gm_get (ca_watched (ga_can (ds_tr w))) i = Some d'" and "label_at d' LabelMessage = msg_Name msg"
  shows "\<exists>w1 us. SetProperty (gw_service g io) now caller i p (Some (PvInt n)) w = Some (w1, Inr (PvInt n)) \<and>
     inv (ds_reg w1) \<and> devs (ds_reg w1) = (devs (ds_reg w))(i \<mapsto> online now d) \<and> ds_broker w1 = ds_broker w \<and> ga_inv db (ds_tr w1) \<and>
     ga_out (ds_tr w1) = us \<and> (i, p, IntValue n) \<in> set us \<and> ca_ReadProperty None (ga_can (ds_tr w1)) d p = Inr (IntValue n)"
proof -
  let ?sv = "gw_service g io"
  have reg: "sv_reg ?sv = R" using assms(1) by (simp add: gw_service_eq)
  have w: "ds_ok inv w" "inv (ds_reg w)" "ga_out (ds_tr w) = []" "ca_reach db True (ga_can (ds_tr w))"
    using assms(3) by (simp_all add: gw_ok_def ds_ok_def ga_inv_def)
  obtain f a' evs where f: "ca_WriteProperty (io_conv io) (io_wr io) None d p (IntValue n) (ga_can (ds_tr w)) = (a', evs, None)"
    "ca_processFrame f (ga_can (ds_tr w)) = (a', evs)" "fr_ID f = msg_ID msg" "sig_active msg (fr_Data f) sig"
    "sig_decode sig (fr_Data f) = IntValue n" "ca_ReadProperty None a' d p = Inr (IntValue n)"
    using write_int_run [OF w(4) assms(4,12-20), of "io_wr io" "io_conv io"] assms(21) by blast
  have ev: "(i, p, IntValue n) \<in> set evs"
    using frame_event [OF w(4) assms(4,13,14) f(3,4) assms(22,23)] f(2,5) by simp
  have route: "route_of ?sv (dev_Transport d) = ViaCan (can_of (io_conv io) (io_wr io))"
    using assms(2,7) by (simp add: route_of_def gw_service_eq)
  have chk: "checked_device ?sv caller OpSetProperty w i = Inr d" using assms(5,10) checked_ok [OF reg w(2)] by simp
  let ?w = "w\<lparr>ds_tr := (ds_tr w)\<lparr>ga_can := a', ga_out := evs\<rparr>\<rparr>"
  have "tr_Write (can_of (io_conv io) (io_wr io)) d p (IntValue n) (ds_tr w) = (ds_tr ?w, None)"
    using f(1) w(3) by (simp add: can_of_def)
  moreover have "toProtoValue (IntValue n) = Some (PvInt n)" by (simp add: toProtoValue_def value_ctor_defs)
  ultimately have "SetProperty ?sv now caller i p (Some (PvInt n)) w = Some (mark_online ?sv now i ?w, Inr (PvInt n))"
    using assms(8,9,11) chk route by (simp add: SetProperty_def write_via_def set_route_of_eq respond_written_def Let_def)
  moreover have "inv (ds_reg ?w)" "devs (ds_reg ?w) i = Some d" using w(2) assms(5) by simp_all
  note mark_online_devs [OF reg this assms(6)]
  moreover have "ds_tr (mark_online ?sv now i ?w) = ds_tr ?w" "ds_broker (mark_online ?sv now i ?w) = ds_broker w"
    by (simp_all add: mark_online_def)
  moreover have "ga_inv db (ds_tr ?w)"
    using assms(3) ca_Write_reach [OF w(4), of "io_conv io" "io_wr io" None d p "IntValue n"] f(1) by (simp add: gw_ok_def ga_inv_def)
  ultimately show ?thesis using ev f(6) by (intro exI [of _ "mark_online ?sv now i ?w"] exI [of _ evs]) simp
qed

end

text \<open>A signal that a device can be written on: the socket is open, the device is watched under its message, the signal has an integral scaling, fits the
  payload and holds the value.\<close>

definition can_settable :: "Database \<Rightarrow> gw_adapters \<Rightarrow> Device \<Rightarrow> string \<Rightarrow> int64 \<Rightarrow> bool" where
  "can_settable db x d p n \<longleftrightarrow> (\<exists>msg sig d'. dev_Transport d = ''can'' \<and> label_at d LabelMessage \<noteq> [] \<and>
     MessageByName db (label_at d LabelMessage) = Some msg \<and> msg_signal msg p = Some sig \<and> ca_sock (ga_can x) \<and>
     sig_ok 8 sig \<and> sig_integral sig \<and> sig_range sig (sint n) \<and> \<bar>sint n\<bar> \<le> 2 ^ 53 \<and> mux_ok msg sig \<and>
     gm_get (ca_watched (ga_can x)) (dev_ID d) = Some d' \<and> label_at d' LabelMessage = msg_Name msg)"

section \<open>Properties\<close>

definition demo_gw :: "MemoryRegistry gw_config" where
  "demo_gw = \<lparr>gc_reg = mr_ops, gc_mqtt = False, gc_can = True, gc_custom = [], gc_monitor = NewMonitor 0 0 True, gc_capability = None\<rparr>"

definition demo_io :: gw_io where
  "demo_io = \<lparr>io_mqtt = mqtt_demo_env, io_http = (\<lambda>_. HttpFail opaque_fault), io_conv = (\<lambda>_. 0), io_wr = (\<lambda>_. None)\<rparr>"

lemma demo_gw_facts: "gc_reg demo_gw = mr_ops" "gc_can demo_gw" "\<not> gc_mqtt demo_gw" "customs_ok db demo_gw" "gc_custom demo_gw = []"
  by (simp_all add: demo_gw_def customs_ok_def)

lemma mr_New_facts: "mr_inv NewMemoryRegistry" "gm_get (mr_devices NewMemoryRegistry) = Map.empty"
  by (simp_all add: mr_inv_def NewMemoryRegistry_def)


definition ecu :: Device where
  "ecu = demo_device\<lparr>dev_Transport := ''can''\<rparr>"

definition ecu_world :: "(MemoryRegistry, gw_adapters) ds_world" where
  "ecu_world = \<lparr>ds_hb = \<lparr>hw_reg = \<lparr>mr_devices = [(''ecu'', ecu)], mr_nextID = 0\<rparr>, hw_broker = snd (br_Subscribe NewBroker ''ecu''), hw_calls = []\<rparr>,
     ds_props = NewMemoryPropertyStore,
     ds_tr = (gw_adapters_init demo_db None)\<lparr>ga_can := fst (ca_WatchDevice ecu (fst (ca_Open None (ca_New demo_db True))))\<rparr>, ds_errors = []\<rparr>"

lemma ecu_world_ok: "gw_ok mr_inv demo_db ecu_world"
proof -
  have "ca_reach demo_db True (fst (ca_WatchDevice ecu (fst (ca_Open None (ca_New demo_db True)))))"
    by (intro reach_Watch reach_Open reach_New)
  moreover have "mr_inv \<lparr>mr_devices = [(''ecu'', ecu)], mr_nextID = 0\<rparr>"
    by (simp add: mr_inv_def ecu_def demo_device_def zero_Device_def wf_labels_def gm_ok_def LabelMessage_def)
  ultimately show ?thesis
    using ha_inv_New [of None True] br_inv_Subscribe [OF br_inv_New, of "''ecu''"]
    by (simp add: gw_ok_def ds_ok_def ga_inv_def ecu_world_def gw_adapters_init_def ma_New_def ma_inv_def waiters_at_def make_chan_def)
qed

lemma ecu_settable: "can_settable demo_db (ds_tr ecu_world) ecu ''Torque'' (- 5)"
proof -
  have l: "label_at ecu LabelMessage = ''Engine''" by (simp add: ecu_def demo_device_def label_at_def label_lookup_def)
  have w: "gm_get (ca_watched (ga_can (ds_tr ecu_world))) (dev_ID ecu) = Some ecu" "ca_sock (ga_can (ds_tr ecu_world))"
    using demo_facts(3) l by (simp_all add: ecu_world_def ca_WatchDevice_def ca_Open_def ca_New_def Let_def)
  have sig: "sig_ok 8 demo_signal" "sig_integral demo_signal" "mux_ok demo_message demo_signal"
    "sig_range demo_signal (sint (- 5 :: int64))" "\<bar>sint (- 5 :: int64)\<bar> \<le> 2 ^ 53"
    by (simp_all add: sig_ok_def demo_signal_def last_pos_def physical_def sig_integral_def f_eq_def mux_ok_def sig_range_def)
  show ?thesis
    unfolding can_settable_def
    by (intro exI [of _ demo_message] exI [of _ demo_signal] exI [of _ ecu] conjI)
      (use w sig l demo_facts in \<open>simp_all add: ecu_def demo_message_def\<close>)
qed

lemma ecu_may: "may (Some demo_admin) op ''ecu'' (dev_ACL ecu)"
  by (auto simp: may_def demo_admin_def ecu_def demo_device_def zero_Device_def rbac_admin)

lemma ecu_check: "check_value (gw_service demo_gw demo_io) ref p v = None"
  by (simp add: check_value_def gw_service_eq demo_gw_def)

lemma ecu_get: "gm_get (mr_devices (ds_reg ecu_world)) ''ecu'' = Some ecu"
  by (simp add: ecu_world_def)

lemma ecu_write:
  "\<exists>w1. SetProperty (gw_service demo_gw demo_io) 7 (Some demo_admin) ''ecu'' ''Torque'' (Some (PvInt (- 5))) ecu_world = Some (w1, Inr (PvInt (- 5))) \<and>
     mr_inv (ds_reg w1) \<and> gm_get (mr_devices (ds_reg w1)) = (gm_get (mr_devices (ds_reg ecu_world)))(''ecu'' \<mapsto> online 7 ecu) \<and>
     ds_broker w1 = ds_broker ecu_world \<and> ga_inv demo_db (ds_tr w1)"
proof -
  have id: "dev_ID ecu = ''ecu''" by (simp add: ecu_def demo_device_def)
  obtain msg sig d' where c: "dev_Transport ecu = ''can''" "label_at ecu LabelMessage \<noteq> []"
     "MessageByName demo_db (label_at ecu LabelMessage) = Some msg" "msg_signal msg ''Torque'' = Some sig" "ca_sock (ga_can (ds_tr ecu_world))"
     "sig_ok 8 sig" "sig_integral sig" "sig_range sig (sint (- 5 :: int64))" "\<bar>sint (- 5 :: int64)\<bar> \<le> 2 ^ 53" "mux_ok msg sig"
     "gm_get (ca_watched (ga_can (ds_tr ecu_world))) ''ecu'' = Some d'" "label_at d' LabelMessage = msg_Name msg"
    using ecu_settable unfolding can_settable_def id by blast
  have "io_wr demo_io f = None" for f by (simp add: demo_io_def)
  from registry_contract.can_set [OF mr.registry_contract_axioms demo_gw_facts(1,2) ecu_world_ok demo_facts(1) ecu_get _ c(1) _ _ ecu_may ecu_check c(2-10) this c(11,12)]
  show ?thesis by auto
qed


text \<open>The gauge of online devices. After an event in which a device was reported online or offline it is the number of online devices; an event without such a
  report leaves it alone, and \<open>SetProperty\<close> and \<open>DeleteDevice\<close> never report one.\<close>

theorem gauge_counts_online:
  assumes "registry_contract R devs I st" and "gc_reg g = R" and "I (ds_reg (gs_world s'))" and "gw_do g e s = Some s'"
  shows "gs_online s' = (if hw_calls (ds_hb (gs_world s')) = hw_calls (ds_hb (gs_world s)) then gs_online s
      else card {i. \<exists>d. devs (ds_reg (gs_world s')) i = Some d \<and> dev_Status d = DeviceStatusOnline})"
proof -
  let ?s = "ds_reg (gs_world s')"
  obtain ds where ds: "rg_List R ?s (zero_ListFilter\<lparr>lf_Online := Some True\<rparr>) = Inr ds" "distinct (map dev_ID ds)"
    "\<And>d. d \<in> set ds \<longleftrightarrow> devs ?s (dev_ID d) = Some d \<and> dev_Status d = DeviceStatusOnline"
    using registry_contract.list_online [OF assms(1,3)] by metis
  have "dev_ID ` set ds = {i. \<exists>d. devs ?s i = Some d \<and> dev_Status d = DeviceStatusOnline}"
    using ds(3) registry_contract.own_id [OF assms(1,3)] by (force simp: image_iff)
  moreover have "length ds = card (dev_ID ` set ds)"
    using ds(2) distinct_card [of "map dev_ID ds"] by simp
  ultimately show ?thesis
    using assms(2,4) ds(1) by (auto simp: gw_do_def gauge_def)
qed

lemma silent_status:
  "SetProperty sv now caller i p v w = Some (w', r) \<Longrightarrow> hw_calls (ds_hb w') = hw_calls (ds_hb w)"
  "DeleteDevice sv caller i w = (w'', r') \<Longrightarrow> hw_calls (ds_hb w'') = hw_calls (ds_hb w)"
  by (auto simp: SetProperty_def write_via_def publishAndRespond_def respond_written_def mark_online_def adapter_failed_def DeleteDevice_def Let_def
      split: if_splits sum.splits option.splits prod.splits route.splits)

lemma set_keeps_gauge:
  assumes "gw_do g (now, GwRpc io caller (RpcSetProperty i p v)) s = Some s'"
  shows "gs_online s' = gs_online s"
  using assms by (auto simp: gw_do_def gauge_def publish_out_def dest!: silent_status(1) split: option.splits prod.splits if_splits)

text \<open>A write turns a device online, and the gauge does not follow.\<close>

lemma gauge_misses_write:
  "\<exists>s'. gw_do demo_gw (7, GwRpc demo_io (Some demo_admin) (RpcSetProperty ''ecu'' ''Torque'' (Some (PvInt (- 5)))))
      \<lparr>gs_world = ecu_world, gs_online = 0\<rparr> = Some s' \<and> gs_online s' = 0 \<and>
     card {i. \<exists>d. gm_get (mr_devices (ds_reg (gs_world s'))) i = Some d \<and> dev_Status d = DeviceStatusOnline} = 1"
proof -
  let ?sv = "gw_service demo_gw demo_io"
  have pre: "mr_inv (ds_reg ecu_world)" "gm_get (mr_devices (ds_reg ecu_world)) ''ecu'' = Some ecu" "sv_reg ?sv = mr_ops"
    using ecu_world_ok by (simp_all add: gw_ok_def ds_ok_def gw_service_eq demo_gw_def) (simp add: ecu_world_def)
  obtain w1 where w1: "SetProperty ?sv 7 (Some demo_admin) ''ecu'' ''Torque'' (Some (PvInt (- 5))) ecu_world = Some (w1, Inr (PvInt (- 5)))"
    "mr_inv (ds_reg w1)" "gm_get (mr_devices (ds_reg w1)) = (gm_get (mr_devices (ds_reg ecu_world)))(''ecu'' \<mapsto> online 7 ecu)"
    "ds_broker w1 = ds_broker ecu_world" "ga_inv demo_db (ds_tr w1)"
    using ecu_write by blast
  have "ds_ok mr_inv w1" using w1(2,4) ecu_world_ok by (simp add: gw_ok_def ds_ok_def)
  from publish_out_ok [OF this w1(5), of 7] obtain w' where w': "publish_out 7 w1 = Some w'" "ds_reg w' = ds_reg w1" by blast
  have run: "gw_world demo_gw 7 (GwRpc demo_io (Some demo_admin) (RpcSetProperty ''ecu'' ''Torque'' (Some (PvInt (- 5))))) ecu_world = Some w'"
    using w1(1,5) w'(1) by (simp add: ga_inv_def)
  have "{i. \<exists>d. gm_get (mr_devices (ds_reg w')) i = Some d \<and> dev_Status d = DeviceStatusOnline} = {''ecu''}"
    using w1(3) w'(2) by (auto simp: ecu_world_def online_def split: if_splits)
  moreover have "gw_do demo_gw (7, GwRpc demo_io (Some demo_admin) (RpcSetProperty ''ecu'' ''Torque'' (Some (PvInt (- 5)))))
      \<lparr>gs_world = ecu_world, gs_online = 0\<rparr> = Some \<lparr>gs_world = w', gs_online = gauge demo_gw ecu_world w' 0\<rparr>"
    using run by (simp add: gw_do_def)
  ultimately show ?thesis using set_keeps_gauge by fastforce
qed

text \<open>A registration with the poll interval \<open>0s\<close> ends the process.\<close>

definition zero_poll :: register_request where
  "zero_poll = \<lparr>rr_Id = ''cam'', rr_Name = ''cam'', rr_Capability = ''c@1.0.0'', rr_Transport = ''http'',
     rr_Labels = Some [(LabelEndpoint, ''http://cam''), (LabelPollInterval, ''0s'')]\<rparr>"

lemma zero_interval_crashes_gateway:
  "gw_world demo_gw 7 (GwRpc demo_io (Some \<lparr>id_Subject = ''cam'', id_Role = RoleDevice, id_DeviceID = ''cam''\<rparr>) (RpcRegisterDevice zero_poll)) ecu_world = None"
  by code_simp

end
