(* ===== verification/Gateway_Boot.thy ===== *)
theory Gateway_Boot
  imports Gateway Dbc
begin

text \<open>
  The gateway from the environment it is started in: \<open>main\<close> as one function of the variables, the configuration file, the DBC file, the
  registered custom transports, the device registry, and of whether its connections come about. It gives the running gateway or ends
  the process (None).
\<close>

section \<open>Start-up\<close>

record boot_env =
  bo_env :: env
  bo_flag :: string
  bo_file :: "string \<Rightarrow> config_file"
  bo_registered :: "(string, gw_adapters transport_ops) gomap"
  bo_dbc :: "string \<Rightarrow> string list option"       \<comment> \<open>the lines of the DBC file, None when it cannot be opened\<close>
  bo_v5 :: "string \<Rightarrow> fault option"              \<comment> \<open>the outcome of dialling the broker\<close>
  bo_v3 :: "string \<Rightarrow> fault option"
  bo_sock :: "string \<Rightarrow> fault option"            \<comment> \<open>the outcome of opening the CAN interface\<close>
  bo_jwks :: "string \<Rightarrow> jwks_reply"
  bo_tlsPair :: bool                              \<comment> \<open>certificate and key load\<close>
  bo_tlsCA :: bool                                \<comment> \<open>the CA file gives a certificate\<close>
  bo_now :: time

record ('s, 'k) running =
  ru_settings :: Settings
  ru_db :: Database
  ru_config :: "'s gw_config"
  ru_state :: "'s gw_state"
  ru_keys :: 'k
  ru_jwt :: "JWTValidator option"
  ru_tls :: "tls_config option"

text \<open>The database of the CAN adapter; without the adapter it is not used.\<close>

definition boot_dbc :: "boot_env \<Rightarrow> (string \<times> string) option \<Rightarrow> Database option" where
  "boot_dbc b can =
     (case can of
        None \<Rightarrow> Some (db_of [])
      | Some (iface, path) \<Rightarrow>
          (case bo_dbc b path of
             None \<Rightarrow> None
           | Some lines \<Rightarrow> (case ParseDBC lines False of Some (Some db) \<Rightarrow> Some db | _ \<Rightarrow> None)))"

definition boot_sock :: "boot_env \<Rightarrow> (string \<times> string) option \<Rightarrow> fault option" where
  "boot_sock b can = (case can of None \<Rightarrow> None | Some (iface, path) \<Rightarrow> bo_sock b iface)"

definition boot_with ::
    "'s registry_ops \<Rightarrow> (string \<Rightarrow> string \<Rightarrow> fault + Schema) \<Rightarrow> 'k bucket_ops \<Rightarrow> (string \<Rightarrow> byte list option) \<Rightarrow> boot_env \<Rightarrow> gw_io \<Rightarrow> 's \<Rightarrow> 'k
       \<Rightarrow> Settings \<Rightarrow> (string \<times> string) option \<Rightarrow> ('s, 'k) running option" where
  "boot_with R schemas B gen b io s ks st can =
     (let c = st_cfg st; a = gw_Adapters c; broker = mqtt_broker (bo_env b) a in
      case boot_dbc b can of None \<Rightarrow> None | Some db \<Rightarrow>
      (case activate (bo_registered b) (ad_Custom a) [] of None \<Rightarrow> None | Some customs \<Rightarrow>
       (case gw_config_of (bo_env b) c R customs schemas of None \<Rightarrow> None | Some g \<Rightarrow>
        (case gw_start g db (poll_option a) (bo_v5 b broker) (bo_v3 b broker) (boot_sock b can) io s of None \<Rightarrow> None | Some s0 \<Rightarrow>
         (case bootstrap_key B gen (st_bootstrapAPIKey st) ks of None \<Rightarrow> None | Some ks' \<Rightarrow>
          (case jwt_validator st (bo_jwks b) (bo_now b) of None \<Rightarrow> None | Some jwt \<Rightarrow>
           (case server_tls st (bo_tlsPair b) (bo_tlsCA b) of None \<Rightarrow> None | Some tls \<Rightarrow>
              Some \<lparr>ru_settings = st, ru_db = db, ru_config = g, ru_state = s0, ru_keys = ks', ru_jwt = jwt, ru_tls = tls\<rparr>)))))))"

definition gw_boot ::
    "'s registry_ops \<Rightarrow> (string \<Rightarrow> string \<Rightarrow> fault + Schema) \<Rightarrow> 'k bucket_ops \<Rightarrow> (string \<Rightarrow> byte list option) \<Rightarrow> boot_env \<Rightarrow> gw_io \<Rightarrow> 's \<Rightarrow> 'k
       \<Rightarrow> ('s, 'k) running option" where
  "gw_boot R schemas B gen b io s ks =
     (case start_settings (bo_env b) (bo_flag b) (bo_file b) of
        None \<Rightarrow> None
      | Some st \<Rightarrow>
          (case can_settings (bo_env b) (gw_Adapters (st_cfg st)) of
             None \<Rightarrow> None
           | Some can \<Rightarrow> boot_with R schemas B gen b io s ks st can))"

section \<open>What the gateway needs to start\<close>

definition connects :: "boot_env \<Rightarrow> Adapters \<Rightarrow> bool" where
  "connects b a \<longleftrightarrow> mqtt_broker (bo_env b) a \<noteq> [] \<longrightarrow>
     snd (ma_Connect (bo_v5 b (mqtt_broker (bo_env b) a)) (bo_v3 b (mqtt_broker (bo_env b) a)) (ma_New True True)) = None"

definition can_ready :: "boot_env \<Rightarrow> Adapters \<Rightarrow> bool" where
  "can_ready b a \<longleftrightarrow> (\<exists>can. can_settings (bo_env b) a = Some can \<and> boot_dbc b can \<noteq> None \<and> boot_sock b can = None)"

definition bootable :: "'k bucket_ops \<Rightarrow> (string \<Rightarrow> byte list option) \<Rightarrow> boot_env \<Rightarrow> 'k \<Rightarrow> Settings \<Rightarrow> bool" where
  "bootable B gen b ks st \<longleftrightarrow> (let a = gw_Adapters (st_cfg st) in connects b a \<and> can_ready b a \<and>
     (\<forall>n \<in> set (ad_Custom a). \<not> builtin n \<and> ad_Lookup n (bo_registered b) \<noteq> None) \<and> bootstrap_key B gen (st_bootstrapAPIKey st) ks \<noteq> None \<and>
     jwt_validator st (bo_jwks b) (bo_now b) \<noteq> None \<and> server_tls st (bo_tlsPair b) (bo_tlsCA b) \<noteq> None)"

text \<open>What is asked of the registered transports and of the devices found in the registry.\<close>

definition transports_ok :: "boot_env \<Rightarrow> bool" where
  "transports_ok b \<longleftrightarrow> (\<forall>db n t. gm_get (bo_registered b) n = Some t \<longrightarrow> custom_ok db t)"

definition pollable :: "(string \<rightharpoonup> Device) \<Rightarrow> bool" where
  "pollable m \<longleftrightarrow> (\<forall>d \<in> ran m. poll_ok d)"

lemma activate_iff:
  "activate reg names acc \<noteq> None \<longleftrightarrow> (\<forall>n \<in> set names. \<not> builtin n \<and> ad_Lookup n reg \<noteq> None)"
  using activate_get [of reg names acc] activate_total [of names reg acc] by auto

lemma activate_gm_ok: "activate reg names acc = Some m \<Longrightarrow> gm_ok acc \<Longrightarrow> gm_ok m"
  by (induction names arbitrary: acc) (auto simp: activate_Cons simp del: activate.simps(2))

lemma start_mqtt_keeps:
  "start_mqtt g v5 v3 io s x = Some x' \<Longrightarrow> gc_mqtt g \<longrightarrow> snd (ma_Connect v5 v3 (ga_mqtt x)) = None"
  by (auto simp: start_mqtt_def split: prod.splits option.splits)

lemma gw_start_needs:
  assumes "gw_start g db every v5 v3 sock io s = Some s0"
  shows "(gc_mqtt g \<longrightarrow> snd (ma_Connect v5 v3 (ma_New True True)) = None) \<and> (gc_can g \<longrightarrow> sock = None)"
  using assms
  by (auto simp: gw_start_def start_can_def ca_Open_def gw_adapters_init_def split: option.splits if_splits prod.splits dest!: start_mqtt_keeps)

lemma config_parts:
  assumes "gw_config_of env c R customs schemas = Some g" and "can_settings env (gw_Adapters c) = Some can"
  shows "gc_reg g = R" "gc_custom g = customs" "gc_mqtt g \<longleftrightarrow> mqtt_broker env (gw_Adapters c) \<noteq> []" "gc_can g \<longleftrightarrow> can \<noteq> None"
  using assms by (auto simp: gw_config_of_def)

lemma config_Some: "can_settings env (gw_Adapters c) = Some can \<Longrightarrow> \<exists>g. gw_config_of env c R customs schemas = Some g"
  by (simp add: gw_config_of_def)

lemma can_needed: "bootable B gen b ks st \<Longrightarrow> can_settings (bo_env b) (gw_Adapters (st_cfg st)) \<noteq> None"
  by (auto simp: bootable_def can_ready_def Let_def)

context registry_contract
begin

lemma boot_customs:
  assumes "activate (bo_registered b) names [] = Some customs" and "gw_config_of env c R customs schemas = Some g"
    and "can_settings env (gw_Adapters c) = Some can" and "transports_ok b"
  shows "customs_ok db g \<and> gm_ok (gc_custom g)"
proof -
  have "gc_custom g = customs" using config_parts [OF assms(2,3)] by simp
  moreover have "custom_ok db t" if "gm_get customs n = Some t" for n t
    using that activate_get [OF assms(1), of n] assms(4) by (auto simp: ad_Lookup_def transports_ok_def split: if_splits)
  ultimately show ?thesis using activate_gm_ok [OF assms(1)] by (simp add: customs_ok_def)
qed

lemma boot_started:
  assumes "inv s" and "pollable (devs s)" and "transports_ok b"
    and "can_settings env a = Some can" and "a = gw_Adapters c"
    and "activate (bo_registered b) names [] = Some customs" and "gw_config_of env c R customs schemas = Some g"
  shows "((mqtt_broker env a \<noteq> [] \<longrightarrow> snd (ma_Connect v5 v3 (ma_New True True)) = None) \<and> (can \<noteq> None \<longrightarrow> sock = None) \<longleftrightarrow>
       gw_start g db (poll_option a) v5 v3 sock io s \<noteq> None) \<and>
     (\<forall>s0. gw_start g db (poll_option a) v5 v3 sock io s = Some s0 \<longrightarrow> gw_ok inv db (gs_world s0))"
proof -
  note parts = config_parts [OF assms(7) assms(4) [unfolded assms(5)]]
  have cust: "customs_ok db g" "gm_ok (gc_custom g)"
    using boot_customs [OF assms(6,7) assms(4) [unfolded assms(5)] assms(3)] by blast+
  have start: "\<exists>s0. gw_start g db (poll_option a) v5 v3 sock io s = Some s0 \<and> gw_ok inv db (gs_world s0)"
    if "gc_mqtt g \<longrightarrow> snd (ma_Connect v5 v3 (ma_New True True)) = None" "gc_can g \<longrightarrow> sock = None"
  proof -
    have "\<exists>s0. gw_start g db (poll_option a) v5 v3 sock io s = Some s0 \<and> gw_ok inv db (gs_world s0) \<and> ds_reg (gs_world s0) = s"
      by (rule gw_start_ok [OF parts(1) assms(1) cust]) (use that assms(2) poll_option_positive in \<open>auto simp: pollable_def\<close>)
    then show ?thesis by blast
  qed
  show ?thesis
  proof (cases "gw_start g db (poll_option a) v5 v3 sock io s")
    case None
    with start have "\<not> ((gc_mqtt g \<longrightarrow> snd (ma_Connect v5 v3 (ma_New True True)) = None) \<and> (gc_can g \<longrightarrow> sock = None))" by force
    with None parts(3,4) show ?thesis by (simp add: assms(5))
  next
    case (Some s0)
    from gw_start_needs [OF this] have "gc_mqtt g \<longrightarrow> snd (ma_Connect v5 v3 (ma_New True True)) = None" "gc_can g \<longrightarrow> sock = None" by blast+
    with start Some parts(3,4) show ?thesis by (simp add: assms(5))
  qed
qed

lemma boot_with_iff:
  assumes "inv s" and "pollable (devs s)" and "transports_ok b"
    and "can_settings (bo_env b) (gw_Adapters (st_cfg st)) = Some can"
  shows "boot_with R schemas B gen b io s ks st can \<noteq> None \<longleftrightarrow> bootable B gen b ks st"
proof (cases "boot_dbc b can")
  case None
  then show ?thesis using assms(4) by (simp add: boot_with_def bootable_def can_ready_def Let_def)
next
  case (Some db)
  let ?a = "gw_Adapters (st_cfg st)"
  show ?thesis
  proof (cases "activate (bo_registered b) (ad_Custom ?a) []")
    case None
    then show ?thesis using Some activate_iff [of "bo_registered b" "ad_Custom ?a" "[]"] by (auto simp: boot_with_def bootable_def Let_def)
  next
    case (Some customs)
    obtain g where g: "gw_config_of (bo_env b) (st_cfg st) R customs schemas = Some g" using config_Some [OF assms(4)] by blast
    have names: "\<forall>n \<in> set (ad_Custom ?a). \<not> builtin n \<and> ad_Lookup n (bo_registered b) \<noteq> None"
      using Some activate_iff [of "bo_registered b" "ad_Custom ?a" "[]"] by simp
    have "can \<noteq> None \<and> boot_sock b can = None \<or> can = None \<longleftrightarrow> boot_sock b can = None" by (auto simp: boot_sock_def)
    then have "gw_start g db (poll_option ?a) (bo_v5 b (mqtt_broker (bo_env b) ?a)) (bo_v3 b (mqtt_broker (bo_env b) ?a)) (boot_sock b can) io s \<noteq> None \<longleftrightarrow>
        connects b ?a \<and> can_ready b ?a"
      using boot_started [OF assms(1-4) refl Some g] \<open>boot_dbc b can = Some db\<close> assms(4) by (auto simp: connects_def can_ready_def)
    then show ?thesis
      using \<open>boot_dbc b can = Some db\<close> Some g names by (auto simp: boot_with_def bootable_def Let_def split: option.split)
  qed
qed

lemma boot_with_ok:
  assumes "inv s" and "pollable (devs s)" and "transports_ok b"
    and "can_settings (bo_env b) (gw_Adapters (st_cfg st)) = Some can" and "boot_with R schemas B gen b io s ks st can = Some ru"
  shows "ru_settings ru = st \<and> gc_reg (ru_config ru) = R \<and> customs_ok (ru_db ru) (ru_config ru) \<and> gw_ok inv (ru_db ru) (gs_world (ru_state ru))"
proof -
  let ?a = "gw_Adapters (st_cfg st)"
  obtain db customs g s0 where c: "activate (bo_registered b) (ad_Custom ?a) [] = Some customs" "gw_config_of (bo_env b) (st_cfg st) R customs schemas = Some g"
    and s0: "gw_start g db (poll_option ?a) (bo_v5 b (mqtt_broker (bo_env b) ?a)) (bo_v3 b (mqtt_broker (bo_env b) ?a)) (boot_sock b can) io s = Some s0"
    and ru: "ru_settings ru = st" "ru_db ru = db" "ru_config ru = g" "ru_state ru = s0"
    using assms(5) by (auto simp: boot_with_def Let_def split: option.splits)
  with boot_started [OF assms(1-4) refl c] boot_customs [OF c assms(4,3)] config_parts(1) [OF c(2) assms(4)] show ?thesis by blast
qed

end

section \<open>Properties\<close>


definition demo_boot :: boot_env where
  "demo_boot = \<lparr>bo_env = tls_env, bo_flag = [], bo_file = (\<lambda>_. Missing), bo_registered = [], bo_dbc = (\<lambda>_. None), bo_v5 = (\<lambda>_. None), bo_v3 = (\<lambda>_. None),
     bo_sock = (\<lambda>_. None), bo_jwks = (\<lambda>_. Unreachable), bo_tlsPair = True, bo_tlsCA = True, bo_now = 1\<rparr>"

lemma demo_boot_facts:
  "mqtt_broker tls_env (gw_Adapters (st_cfg tls_demo)) = []" "can_settings tls_env (gw_Adapters (st_cfg tls_demo)) = Some None"
  "ad_Custom (gw_Adapters (st_cfg tls_demo)) = []" "st_jwksURL tls_demo = []" "st_bootstrapAPIKey tls_demo = []"
  by (simp_all add: mqtt_broker_def can_settings_def ResolveString_def tls_demo_def resolve_settings_def env_config_def eff_def tls_env_def zero_Gateway_def)

lemma demo_bootable: "bootable ref_bucket_ops ref_gen demo_boot ks tls_demo"
  using demo_boot_facts tls_demo(2)
  by (simp add: bootable_def demo_boot_def connects_def can_ready_def boot_dbc_def boot_sock_def jwt_validator_def bootstrap_key_def)


end
