(* ===== verification/Telemetry.thy ===== *)
theory Telemetry
  imports Gateway
begin

text \<open>
  From a device to its subscribers: what a device reports over MQTT, by webhook or on the CAN bus goes through the adapter, its update callback
  and the broker into the channel of every subscription of that device, and into no other.
\<close>

text \<open>The updates \<open>us\<close> were offered to the subscriptions between two worlds: those of its device, in order, as far as there is room.\<close>

definition reported :: "('s, 'x) ds_world \<Rightarrow> ('s, 'x) ds_world \<Rightarrow> PropertyUpdate list \<Rightarrow> bool" where
  "reported w w' us \<longleftrightarrow> (\<forall>i. \<forall>c \<in> set (br_subscribers (ds_broker w) i).
     ch_buf (br_chans (ds_broker w') c) = take subscriberBuffer (ch_buf (br_chans (ds_broker w) c) @ filter (\<lambda>u. upd_DeviceID u = i) us))"

lemma publish_out_reported:
  assumes "gw_ok I db w" and "publish_out now w1 = Some w'" and "ds_broker w1 = ds_broker w"
  shows "reported w w' (map (update_of now) (ga_out (ds_tr w1)))"
proof -
  have "br_inv (ds_broker w)" using assms(1) by (simp add: gw_ok_def ds_ok_def)
  moreover have "br_Publish_all (ds_broker w) (map (update_of now) (ga_out (ds_tr w1))) = Some (ds_broker w')"
    using assms(2,3) by (auto simp: publish_out_def)
  ultimately show ?thesis unfolding reported_def using publish_all_buffer by blast
qed

lemma message_update:
  assumes "gw_ok I db w" and "CHR ''/'' \<notin> set d" and "d \<noteq> []" and "p \<noteq> []" and "\<not> reserved_rest p" and "decodeValue pl = Inr v"
    and "ma_onUpdate (ga_mqtt (ds_tr w))" and "gw_world g now (GwMessage (topicProps d p) pl) w = Some w'"
  shows "reported w w' [property_event d p v now]"
proof -
  let ?a = "ga_mqtt (ds_tr w)"
  have "dispatch_events ?a (topicProps d p) pl = Some [EvUpdate d p v]"
    using assms(5-7) parseProps_topic [OF assms(2-4)] by (simp add: dispatch_events_def parsePropsTopic_def)
  then obtain h where "ma_dispatch (topicProps d p) pl ?a = Some (?a\<lparr>ma_chans := h\<rparr>, [EvUpdate d p v])"
    using dispatch_step assms(1) unfolding gw_ok_def ga_inv_def by blast
  with assms(8) have "publish_out now (w\<lparr>ds_tr := queue [(d, p, v)] ((ds_tr w)\<lparr>ga_mqtt := ?a\<lparr>ma_chans := h\<rparr>\<rparr>)\<rparr>) = Some w'"
    by (simp split: option.splits)
  from publish_out_reported [OF assms(1) this] assms(1) show ?thesis by (simp add: queue_def gw_ok_def update_of_def)
qed

lemma webhook_update:
  assumes "gw_ok I db w" and "gw_world g now (GwWebhook d body) w = Some w'"
  shows "reported w w' (map (update_of now) (snd (handleWebhookEvent (ga_http (ds_tr w)) d body)))"
proof -
  have "publish_out now (w\<lparr>ds_tr := queue (snd (handleWebhookEvent (ga_http (ds_tr w)) d body)) (ds_tr w)\<rparr>) = Some w'"
    using assms(2) by simp
  from publish_out_reported [OF assms(1) this] assms(1) show ?thesis by (simp add: queue_def gw_ok_def)
qed

lemma frame_update:
  assumes "gw_ok I db w" and "gw_world g now (GwFrame f) w = Some w'"
  shows "reported w w' (map (update_of now) (snd (ca_processFrame f (ga_can (ds_tr w)))))"
proof -
  obtain a evs where p: "ca_processFrame f (ga_can (ds_tr w)) = (a, evs)" by fastforce
  with assms(2) have "publish_out now (w\<lparr>ds_tr := queue evs ((ds_tr w)\<lparr>ga_can := a\<rparr>)\<rparr>) = Some w'" by simp
  from publish_out_reported [OF assms(1) this] assms(1) p show ?thesis by (simp add: queue_def gw_ok_def)
qed



end
