(* ===== verification/Interceptors.thy ===== *)
theory Interceptors
  imports Auth Config
begin

text \<open>
  The interceptors of the gRPC server in the order of \<open>cmd/gateway/main.go\<close>: tracing, request log,
  metrics, authentication. Each wraps the next; the handler is the innermost. A request's context
  carries the trace of its span, a trace ID set by hand and the caller's identity. What the interceptors leave behind are
  spans, log lines, counter increments and duration observations, kept as lists. OpenTelemetry gives a span without a parent a
  new trace ID, which is an argument. Times are left out.
\<close>

section \<open>Context and records\<close>

record rpc_ctx =
  cx_span :: "string option"          \<comment> \<open>the trace ID of the active span\<close>
  cx_traceID :: "string option"
  cx_identity :: "Identity option"

definition WithTraceID :: "rpc_ctx \<Rightarrow> string \<Rightarrow> rpc_ctx" where
  "WithTraceID ctx i = ctx\<lparr>cx_traceID := Some i\<rparr>"

definition TraceIDFromContext :: "rpc_ctx \<Rightarrow> string option" where
  "TraceIDFromContext ctx = cx_traceID ctx"

definition ContextWithIdentity :: "rpc_ctx \<Rightarrow> Identity \<Rightarrow> rpc_ctx" where
  "ContextWithIdentity ctx i = ctx\<lparr>cx_identity := Some i\<rparr>"

definition Authenticated :: "rpc_ctx \<Rightarrow> Identity option" where
  "Authenticated ctx = cx_identity ctx"

record span =
  sp_name :: string
  sp_trace :: string
  sp_error :: bool

record log_line =
  ll_trace :: "string option"
  ll_method :: string
  ll_code :: "code option"            \<comment> \<open>None: OK\<close>

record 'w observed =
  ob_world :: 'w
  ob_spans :: "span list"             \<comment> \<open>in the order they end\<close>
  ob_log :: "log_line list"
  ob_requests :: "(string \<times> code option) list"
  ob_durations :: "string list"

definition status_Code :: "code + 'r \<Rightarrow> code option" where
  "status_Code r = (case r of Inl c \<Rightarrow> Some c | Inr _ \<Rightarrow> None)"

type_synonym ('w, 'r) handler = "rpc_ctx \<Rightarrow> 'w observed \<Rightarrow> 'w observed \<times> (code + 'r)"

section \<open>The interceptors\<close>

text \<open>A span of a name around a computation: its context and its end with \<open>RecordError\<close>.\<close>

definition span_trace :: "string \<Rightarrow> rpc_ctx \<Rightarrow> string" where
  "span_trace newID ctx = (case cx_span ctx of Some t \<Rightarrow> t | None \<Rightarrow> newID)"

definition end_span :: "string \<Rightarrow> string \<Rightarrow> code + 'r \<Rightarrow> 'w observed \<Rightarrow> 'w observed" where
  "end_span name t r s = s\<lparr>ob_spans := ob_spans s @ [\<lparr>sp_name = name, sp_trace = t, sp_error = (status_Code r \<noteq> None)\<rparr>]\<rparr>"

definition tracing_Interceptor :: "string \<Rightarrow> ('w, 'r) handler \<Rightarrow> ('w, 'r) handler" where
  "tracing_Interceptor newID handler ctx s =
     (let t = span_trace newID ctx in
      case handler (ctx\<lparr>cx_span := Some t\<rparr>) s of (s', r) \<Rightarrow> (end_span ''api'' t r s', r))"

text \<open>The trace ID \<open>contextHandler\<close> adds to a log record.\<close>

definition log_trace :: "rpc_ctx \<Rightarrow> string option" where
  "log_trace ctx = (case cx_span ctx of Some t \<Rightarrow> Some t | None \<Rightarrow> TraceIDFromContext ctx)"

definition logRequest :: "rpc_ctx \<Rightarrow> string \<Rightarrow> code option \<Rightarrow> 'w observed \<Rightarrow> 'w observed" where
  "logRequest ctx method c s = s\<lparr>ob_log := ob_log s @ [\<lparr>ll_trace = log_trace ctx, ll_method = method, ll_code = c\<rparr>]\<rparr>"

definition logging_Interceptor :: "string \<Rightarrow> ('w, 'r) handler \<Rightarrow> ('w, 'r) handler" where
  "logging_Interceptor method handler ctx s =
     (case handler ctx s of (s', r) \<Rightarrow> (logRequest ctx method (status_Code r) s', r))"

definition metrics_record :: "string \<Rightarrow> code option \<Rightarrow> bool \<Rightarrow> 'w observed \<Rightarrow> 'w observed" where
  "metrics_record fullMethod c recordDuration s =
     s\<lparr>ob_requests := ob_requests s @ [(operationName fullMethod, c)],
       ob_durations := ob_durations s @ (if recordDuration then [operationName fullMethod] else [])\<rparr>"

text \<open>\<open>unary\<close> tells the unary interceptor from the stream one.\<close>

definition metrics_Interceptor :: "bool \<Rightarrow> string \<Rightarrow> ('w, 'r) handler \<Rightarrow> ('w, 'r) handler" where
  "metrics_Interceptor unary method handler ctx s =
     (case handler ctx s of (s', r) \<Rightarrow> (metrics_record method (status_Code r) unary s', r))"

text \<open>\<open>auth\<close> is \<open>authenticate\<close> on the request's peer and metadata.\<close>

definition authenticateTraced :: "string \<Rightarrow> code + Identity \<Rightarrow> rpc_ctx \<Rightarrow> 'w observed \<Rightarrow> 'w observed" where
  "authenticateTraced newID auth ctx s = end_span ''auth'' (span_trace newID ctx) auth s"

definition auth_Interceptor :: "string \<Rightarrow> code + Identity \<Rightarrow> ('w, 'r) handler \<Rightarrow> ('w, 'r) handler" where
  "auth_Interceptor newID auth handler ctx s =
     (let s1 = authenticateTraced newID auth ctx s in
      case auth of Inl c \<Rightarrow> (s1, Inl c) | Inr i \<Rightarrow> handler (ContextWithIdentity ctx i) s1)"

definition chain :: "bool \<Rightarrow> string \<Rightarrow> string \<Rightarrow> code + Identity \<Rightarrow> ('w, 'r) handler \<Rightarrow> ('w, 'r) handler" where
  "chain unary newID method auth handler =
     tracing_Interceptor newID (logging_Interceptor method (metrics_Interceptor unary method (auth_Interceptor newID auth handler)))"

text \<open>A handler of a service: it works on the world for the identity it finds.\<close>

definition serving :: "(Identity option \<Rightarrow> 'w \<Rightarrow> 'w \<times> (code + 'r)) \<Rightarrow> ('w, 'r) handler" where
  "serving h ctx s = (case h (Authenticated ctx) (ob_world s) of (w, r) \<Rightarrow> (s\<lparr>ob_world := w\<rparr>, r))"

section \<open>Properties\<close>

text \<open>Every request is accounted for. Behind the chain the handler runs exactly when the caller is authenticated, with that identity, and its result
  is the answer; and whether it ran or not, the request leaves one log line with the trace ID of its spans and the status it was answered with, one
  increment of the request counter with that status, one \<open>api\<close> span after one \<open>auth\<close> span of the same trace, and a duration if and only if it is unary.\<close>

theorem chain_observes:
  assumes "cx_span ctx = None" and "chain unary newID method auth (serving h) ctx s = (s', r)"
  shows "(ob_world s', r) = (case auth of Inl c \<Rightarrow> (ob_world s, Inl c) | Inr i \<Rightarrow> h (Some i) (ob_world s)) \<and>
     ob_log s' = ob_log s @ [\<lparr>ll_trace = Some newID, ll_method = method, ll_code = status_Code r\<rparr>] \<and>
     ob_requests s' = ob_requests s @ [(operationName method, status_Code r)] \<and>
     ob_durations s' = ob_durations s @ (if unary then [operationName method] else []) \<and>
     ob_spans s' = ob_spans s @ [\<lparr>sp_name = ''auth'', sp_trace = newID, sp_error = (status_Code auth \<noteq> None)\<rparr>,
       \<lparr>sp_name = ''api'', sp_trace = newID, sp_error = (status_Code r \<noteq> None)\<rparr>]"
  using assms
  by (cases auth)
    (auto simp: chain_def tracing_Interceptor_def logging_Interceptor_def metrics_Interceptor_def auth_Interceptor_def serving_def
      authenticateTraced_def end_span_def span_trace_def logRequest_def log_trace_def metrics_record_def ContextWithIdentity_def Authenticated_def
      Let_def split: prod.splits)

theorem chain_observes_witness:
  "\<exists>s'. chain True ''t1'' ''/udal.v1.DeviceService/GetDevice'' (Inl CodeUnauthenticated :: code + Identity) (serving (\<lambda>i n. (n + 1, Inr ())))
      \<lparr>cx_span = None, cx_traceID = None, cx_identity = None\<rparr>
      \<lparr>ob_world = 0 :: nat, ob_spans = [], ob_log = [], ob_requests = [], ob_durations = []\<rparr> = (s', Inl CodeUnauthenticated) \<and>
     ob_world s' = 0 \<and> ob_requests s' = [(''GetDevice'', Some CodeUnauthenticated)]"
proof -
  let ?ctx = "\<lparr>cx_span = None, cx_traceID = None, cx_identity = None\<rparr>"
    and ?s = "\<lparr>ob_world = 0 :: nat, ob_spans = [], ob_log = [], ob_requests = [], ob_durations = []\<rparr>"
  obtain s' and r :: "code + unit" where r: "chain True ''t1'' ''/udal.v1.DeviceService/GetDevice'' (Inl CodeUnauthenticated)
      (serving (\<lambda>i n. (n + 1, Inr ()))) ?ctx ?s = (s', r)" by fastforce
  have "operationName ''/udal.v1.DeviceService/GetDevice'' = ''GetDevice''" by code_simp
  with chain_observes [OF _ r] r show ?thesis by (auto simp: status_Code_def)
qed

end
