(* ===== verification/Rest_Routes.thy ===== *)
theory Rest_Routes
  imports Capability_Service
begin

text \<open>
  The REST routes (\<open>api/proto/gen/udal/v1/device.pb.gw.go\<close>, \<open>capability.pb.gw.go\<close>): for each route its method, its
  compiled path pattern and the function that turns an HTTP request into a call on the gRPC client. The \<open>runtime\<close>
  package of grpc-gateway is a record of the operations the routes use: matching a pattern,
  conversion of a path parameter, annotation of the context, decoding of a body and of a query. The
  path of a request is the list of its segments. The path templates of the API (\<open>google.api.http\<close> in the proto files) are the abstract
  side: the locale says how the runtime matches a template, and the patterns of the routes are shown to be
  the compiled templates.
\<close>

section \<open>Requests, calls and the runtime\<close>

record pattern =
  pt_ops :: "nat list"
  pt_pool :: "string list"

record ('b, 'q) http_request =
  rq_method :: string
  rq_path :: "string list"
  rq_form :: "'q option"          \<comment> \<open>None: \<open>ParseForm\<close> fails\<close>
  rq_body :: 'b

type_synonym path_params = "(string, string) gomap"

text \<open>A body that ends before a message starts is \<open>io.EOF\<close>.\<close>

datatype 'a decoded = DecOk 'a | DecEOF | DecError

record ('b, 'q) runtime =
  rt_Match :: "pattern \<Rightarrow> string list \<Rightarrow> path_params option"
  rt_String :: "string \<Rightarrow> string option"
  rt_Annotate :: "('b, 'q) http_request \<Rightarrow> code option"
  rt_Register :: "'b \<Rightarrow> register_request decoded"
  rt_Value :: "'b \<Rightarrow> proto_value option decoded"
  rt_Params :: "'b \<Rightarrow> (string \<times> pbval) list decoded"
  rt_Subscribe :: "'b \<Rightarrow> (string \<times> string) decoded"
  rt_Publish :: "'b \<Rightarrow> schema_bytes decoded"
  rt_ListDevices :: "'q \<Rightarrow> (string \<times> string) option"
  rt_ListSchemas :: "'q \<Rightarrow> string option"

datatype client_call =
    CallGetDevice string | CallListDevices string string | CallRegisterDevice register_request | CallDeleteDevice string
  | CallGetProperty string string | CallSetProperty string string "proto_value option"
  | CallSendCommand string string "(string \<times> pbval) list" | CallSubscribe string string | CallStreamCommands
  | CallPublishSchema schema_bytes | CallGetSchema string string | CallListSchemas string

section \<open>The request functions\<close>

definition path_param :: "('b, 'q) runtime \<Rightarrow> path_params \<Rightarrow> string \<Rightarrow> code + string" where
  "path_param rt params key =
     (case gm_get params key of
        None \<Rightarrow> Inl CodeInvalidArgument
      | Some val \<Rightarrow> (case rt_String rt val of None \<Rightarrow> Inl CodeInvalidArgument | Some s \<Rightarrow> Inr s))"

text \<open>Decoding into a message that starts as its zero value.\<close>

definition decode_body :: "'a \<Rightarrow> 'a decoded \<Rightarrow> code + 'a" where
  "decode_body zero d = (case d of DecOk x \<Rightarrow> Inr x | DecEOF \<Rightarrow> Inr zero | DecError \<Rightarrow> Inl CodeInvalidArgument)"

definition query :: "('q \<Rightarrow> 'a option) \<Rightarrow> ('b, 'q) http_request \<Rightarrow> code + 'a" where
  "query populate rq =
     (case rq_form rq of
        None \<Rightarrow> Inl CodeInvalidArgument
      | Some q \<Rightarrow> (case populate q of None \<Rightarrow> Inl CodeInvalidArgument | Some x \<Rightarrow> Inr x))"

definition bind :: "code + 'a \<Rightarrow> ('a \<Rightarrow> code + 'c) \<Rightarrow> code + 'c" where
  "bind r f = (case r of Inl c \<Rightarrow> Inl c | Inr x \<Rightarrow> f x)"

definition zero_register :: register_request where
  "zero_register = \<lparr>rr_Id = [], rr_Name = [], rr_Capability = [], rr_Transport = [], rr_Labels = None\<rparr>"

type_synonym ('b, 'q) request_fun = "('b, 'q) runtime \<Rightarrow> ('b, 'q) http_request \<Rightarrow> path_params \<Rightarrow> code + client_call"

definition request_GetDevice :: "('b, 'q) request_fun" where
  "request_GetDevice rt rq params = bind (path_param rt params ''id'') (\<lambda>i. Inr (CallGetDevice i))"

definition request_ListDevices :: "('b, 'q) request_fun" where
  "request_ListDevices rt rq params = bind (query (rt_ListDevices rt) rq) (\<lambda>(c, t). Inr (CallListDevices c t))"

definition request_RegisterDevice :: "('b, 'q) request_fun" where
  "request_RegisterDevice rt rq params =
     bind (decode_body zero_register (rt_Register rt (rq_body rq))) (\<lambda>r. Inr (CallRegisterDevice r))"

definition request_DeleteDevice :: "('b, 'q) request_fun" where
  "request_DeleteDevice rt rq params = bind (path_param rt params ''id'') (\<lambda>i. Inr (CallDeleteDevice i))"

definition request_GetProperty :: "('b, 'q) request_fun" where
  "request_GetProperty rt rq params =
     bind (path_param rt params ''device_id'') (\<lambda>i.
     bind (path_param rt params ''property_path'') (\<lambda>p. Inr (CallGetProperty i p)))"

definition request_SetProperty :: "('b, 'q) request_fun" where
  "request_SetProperty rt rq params =
     bind (decode_body None (rt_Value rt (rq_body rq))) (\<lambda>v.
     bind (path_param rt params ''device_id'') (\<lambda>i.
     bind (path_param rt params ''property_path'') (\<lambda>p. Inr (CallSetProperty i p v))))"

definition request_SendCommand :: "('b, 'q) request_fun" where
  "request_SendCommand rt rq params =
     bind (decode_body [] (rt_Params rt (rq_body rq))) (\<lambda>ps.
     bind (path_param rt params ''device_id'') (\<lambda>i.
     bind (path_param rt params ''command'') (\<lambda>c. Inr (CallSendCommand i c ps))))"

definition request_Subscribe :: "('b, 'q) request_fun" where
  "request_Subscribe rt rq params =
     bind (decode_body ([], []) (rt_Subscribe rt (rq_body rq))) (\<lambda>(i, p). Inr (CallSubscribe i p))"

definition request_StreamCommands :: "('b, 'q) request_fun" where
  "request_StreamCommands rt rq params = Inr CallStreamCommands"

definition request_PublishSchema :: "('b, 'q) request_fun" where
  "request_PublishSchema rt rq params =
     bind (decode_body NoBytes (rt_Publish rt (rq_body rq))) (\<lambda>b. Inr (CallPublishSchema b))"

definition request_GetSchema :: "('b, 'q) request_fun" where
  "request_GetSchema rt rq params =
     bind (path_param rt params ''name'') (\<lambda>n.
     bind (path_param rt params ''version'') (\<lambda>v. Inr (CallGetSchema n v)))"

definition request_ListSchemas :: "('b, 'q) request_fun" where
  "request_ListSchemas rt rq params = bind (query (rt_ListSchemas rt) rq) (\<lambda>n. Inr (CallListSchemas n))"

text \<open>
  The sending side of a \<open>StreamCommands\<close> request: messages are decoded and sent until the body ends, a
  message does not decode, or a send fails (False).
\<close>

fun stream_sends :: "(CommandResult decoded \<times> bool) list \<Rightarrow> CommandResult list" where
  "stream_sends [] = []"
| "stream_sends ((DecOk m, ok) # xs) = (if ok then m # stream_sends xs else [])"
| "stream_sends ((_, ok) # xs) = []"

section \<open>The routes\<close>

definition pattern_GetDevice :: pattern where
  "pattern_GetDevice = \<lparr>pt_ops = [2, 0, 2, 1, 1, 0, 4, 1, 5, 2], pt_pool = [''v1'', ''devices'', ''id'']\<rparr>"

definition pattern_ListDevices :: pattern where
  "pattern_ListDevices = \<lparr>pt_ops = [2, 0, 2, 1], pt_pool = [''v1'', ''devices'']\<rparr>"

definition pattern_RegisterDevice :: pattern where
  "pattern_RegisterDevice = \<lparr>pt_ops = [2, 0, 2, 1], pt_pool = [''v1'', ''devices'']\<rparr>"

definition pattern_DeleteDevice :: pattern where
  "pattern_DeleteDevice = \<lparr>pt_ops = [2, 0, 2, 1, 1, 0, 4, 1, 5, 2], pt_pool = [''v1'', ''devices'', ''id'']\<rparr>"

definition pattern_GetProperty :: pattern where
  "pattern_GetProperty = \<lparr>pt_ops = [2, 0, 2, 1, 1, 0, 4, 1, 5, 2, 2, 3, 3, 0, 4, 1, 5, 4],
     pt_pool = [''v1'', ''devices'', ''device_id'', ''properties'', ''property_path'']\<rparr>"

definition pattern_SetProperty :: pattern where
  "pattern_SetProperty = \<lparr>pt_ops = [2, 0, 2, 1, 1, 0, 4, 1, 5, 2, 2, 3, 3, 0, 4, 1, 5, 4],
     pt_pool = [''v1'', ''devices'', ''device_id'', ''properties'', ''property_path'']\<rparr>"

definition pattern_SendCommand :: pattern where
  "pattern_SendCommand = \<lparr>pt_ops = [2, 0, 2, 1, 1, 0, 4, 1, 5, 2, 2, 3, 1, 0, 4, 1, 5, 4],
     pt_pool = [''v1'', ''devices'', ''device_id'', ''commands'', ''command'']\<rparr>"

definition pattern_Subscribe :: pattern where
  "pattern_Subscribe = \<lparr>pt_ops = [2, 0, 2, 1], pt_pool = [''udal.v1.DeviceService'', ''Subscribe'']\<rparr>"

definition pattern_StreamCommands :: pattern where
  "pattern_StreamCommands = \<lparr>pt_ops = [2, 0, 2, 1], pt_pool = [''udal.v1.DeviceService'', ''StreamCommands'']\<rparr>"

definition pattern_PublishSchema :: pattern where
  "pattern_PublishSchema = \<lparr>pt_ops = [2, 0, 2, 1], pt_pool = [''v1'', ''schemas'']\<rparr>"

definition pattern_GetSchema :: pattern where
  "pattern_GetSchema = \<lparr>pt_ops = [2, 0, 2, 1, 1, 0, 4, 1, 5, 2, 1, 0, 4, 1, 5, 3], pt_pool = [''v1'', ''schemas'', ''name'', ''version'']\<rparr>"

definition pattern_ListSchemas :: pattern where
  "pattern_ListSchemas = \<lparr>pt_ops = [2, 0, 2, 1], pt_pool = [''v1'', ''schemas'']\<rparr>"

text \<open>A handler annotates the context and then runs the request function; an error of either is the answer.\<close>

definition handle :: "('b, 'q) request_fun \<Rightarrow> ('b, 'q) request_fun" where
  "handle f rt rq params = (case rt_Annotate rt rq of Some c \<Rightarrow> Inl c | None \<Rightarrow> f rt rq params)"

type_synonym ('b, 'q) route = "string \<times> pattern \<times> ('b, 'q) request_fun"

definition device_routes :: "('b, 'q) route list" where
  "device_routes =
     [(''GET'', pattern_GetDevice, handle request_GetDevice),
      (''GET'', pattern_ListDevices, handle request_ListDevices),
      (''POST'', pattern_RegisterDevice, handle request_RegisterDevice),
      (''DELETE'', pattern_DeleteDevice, handle request_DeleteDevice),
      (''GET'', pattern_GetProperty, handle request_GetProperty),
      (''PUT'', pattern_SetProperty, handle request_SetProperty),
      (''POST'', pattern_SendCommand, handle request_SendCommand),
      (''POST'', pattern_Subscribe, handle request_Subscribe),
      (''POST'', pattern_StreamCommands, handle request_StreamCommands)]"

definition capability_routes :: "('b, 'q) route list" where
  "capability_routes =
     [(''POST'', pattern_PublishSchema, handle request_PublishSchema),
      (''GET'', pattern_GetSchema, handle request_GetSchema),
      (''GET'', pattern_ListSchemas, handle request_ListSchemas)]"

text \<open>
  Every answer a registered route would give to a request. The multiplexer picks one of them; the properties
  below show that there is at most one.
\<close>

definition answers :: "('b, 'q) runtime \<Rightarrow> ('b, 'q) http_request \<Rightarrow> (code + client_call) list" where
  "answers rt rq =
     List.map_filter (\<lambda>(m, p, h). if m = rq_method rq then map_option (h rt rq) (rt_Match rt p (rq_path rq)) else None)
       (device_routes @ capability_routes)"

definition rest_dispatch :: "('b, 'q) runtime \<Rightarrow> ('b, 'q) http_request \<Rightarrow> (code + client_call) option" where
  "rest_dispatch rt rq = (case answers rt rq of [] \<Rightarrow> None | a # _ \<Rightarrow> Some a)"

section \<open>Path templates\<close>

text \<open>The path templates of \<open>google.api.http\<close>: a literal segment, a variable for one segment, a variable for the rest of the path.\<close>

datatype template_seg = Lit string | Var string | Rest string

definition intern :: "string \<Rightarrow> string list \<Rightarrow> nat \<times> string list" where
  "intern s pool = (if s \<in> set pool then (length (takeWhile (\<lambda>x. x \<noteq> s) pool), pool) else (length pool, pool @ [s]))"

text \<open>
  The op codes: 2 pushes a segment equal to a literal, 1 pushes any segment, 3 pushes the rest of the path, 4 joins segments of the stack, 5
  captures the top of the stack in a variable.
\<close>

fun compile_from :: "template_seg list \<Rightarrow> string list \<Rightarrow> pattern" where
  "compile_from [] pool = \<lparr>pt_ops = [], pt_pool = pool\<rparr>"
| "compile_from (Lit s # ts) pool =
     (case intern s pool of (k, pool') \<Rightarrow> (let p = compile_from ts pool' in p\<lparr>pt_ops := [2, k] @ pt_ops p\<rparr>))"
| "compile_from (Var x # ts) pool =
     (case intern x pool of (k, pool') \<Rightarrow> (let p = compile_from ts pool' in p\<lparr>pt_ops := [1, 0, 4, 1, 5, k] @ pt_ops p\<rparr>))"
| "compile_from (Rest x # ts) pool =
     (case intern x pool of (k, pool') \<Rightarrow> (let p = compile_from ts pool' in p\<lparr>pt_ops := [3, 0, 4, 1, 5, k] @ pt_ops p\<rparr>))"

definition compile :: "template_seg list \<Rightarrow> pattern" where
  "compile ts = compile_from ts []"

fun join_path :: "string list \<Rightarrow> string" where
  "join_path [] = []"
| "join_path [s] = s"
| "join_path (s # t # ss) = s @ CHR ''/'' # join_path (t # ss)"

fun template_match :: "template_seg list \<Rightarrow> string list \<Rightarrow> path_params option" where
  "template_match [] [] = Some []"
| "template_match (Lit s # ts) (c # cs) = (if c = s then template_match ts cs else None)"
| "template_match (Var x # ts) (c # cs) = map_option (Cons (x, c)) (template_match ts cs)"
| "template_match [Rest x] cs = Some [(x, join_path cs)]"
| "template_match _ _ = None"

fun template_ok :: "template_seg list \<Rightarrow> bool" where
  "template_ok [] = True"
| "template_ok (Rest x # ts) \<longleftrightarrow> ts = []"
| "template_ok (t # ts) \<longleftrightarrow> template_ok ts"

text \<open>The segments of a path, without empty ones.\<close>

definition path_ok :: "string list \<Rightarrow> bool" where
  "path_ok segs \<longleftrightarrow> (\<forall>s \<in> set segs. s \<noteq> [] \<and> CHR ''/'' \<notin> set s)"

text \<open>The templates as the proto files write them.\<close>

definition template_device :: "template_seg list" where
  "template_device = [Lit ''v1'', Lit ''devices'', Var ''id'']"

definition template_devices :: "template_seg list" where
  "template_devices = [Lit ''v1'', Lit ''devices'']"

definition template_property :: "template_seg list" where
  "template_property = [Lit ''v1'', Lit ''devices'', Var ''device_id'', Lit ''properties'', Rest ''property_path'']"

definition template_command :: "template_seg list" where
  "template_command = [Lit ''v1'', Lit ''devices'', Var ''device_id'', Lit ''commands'', Var ''command'']"

definition template_rpc :: "string \<Rightarrow> template_seg list" where
  "template_rpc m = [Lit ''udal.v1.DeviceService'', Lit m]"

definition template_schema :: "template_seg list" where
  "template_schema = [Lit ''v1'', Lit ''schemas'', Var ''name'', Var ''version'']"

definition template_schemas :: "template_seg list" where
  "template_schemas = [Lit ''v1'', Lit ''schemas'']"

lemmas template_defs = template_device_def template_devices_def template_property_def template_command_def template_rpc_def
  template_schema_def template_schemas_def

text \<open>The patterns of the generated code are the compiled templates.\<close>

lemma patterns_compiled:
  "pattern_GetDevice = compile template_device" "pattern_ListDevices = compile template_devices"
  "pattern_RegisterDevice = compile template_devices" "pattern_DeleteDevice = compile template_device"
  "pattern_GetProperty = compile template_property" "pattern_SetProperty = compile template_property"
  "pattern_SendCommand = compile template_command" "pattern_Subscribe = compile (template_rpc ''Subscribe'')"
  "pattern_StreamCommands = compile (template_rpc ''StreamCommands'')" "pattern_PublishSchema = compile template_schemas"
  "pattern_GetSchema = compile template_schema" "pattern_ListSchemas = compile template_schemas"
  by code_simp+

lemma templates_ok:
  "template_ok template_device" "template_ok template_devices" "template_ok template_property" "template_ok template_command"
  "template_ok (template_rpc m)" "template_ok template_schema" "template_ok template_schemas"
  by (simp_all add: template_defs)

section \<open>Facts on matching\<close>

lemma match_Nil: "template_match [] cs = Some ps \<longleftrightarrow> cs = [] \<and> ps = []"
  by (cases cs) auto

lemma match_Lit: "template_match (Lit s # ts) cs = Some ps \<longleftrightarrow> (\<exists>cs'. cs = s # cs' \<and> template_match ts cs' = Some ps)"
  by (cases cs) auto

lemma match_Var:
  "template_match (Var x # ts) cs = Some ps \<longleftrightarrow> (\<exists>c cs' ps'. cs = c # cs' \<and> ps = (x, c) # ps' \<and> template_match ts cs' = Some ps')"
  by (cases cs) auto

lemma match_Rest: "template_match [Rest x] cs = Some ps \<longleftrightarrow> ps = [(x, join_path cs)]"
  by auto

lemmas match_iffs = match_Nil match_Lit match_Var match_Rest

lemma template_matches:
  "template_match template_device segs = Some ps \<longleftrightarrow> (\<exists>i. segs = [''v1'', ''devices'', i] \<and> ps = [(''id'', i)])"
  "template_match template_devices segs = Some ps \<longleftrightarrow> segs = [''v1'', ''devices''] \<and> ps = []"
  "template_match template_property segs = Some ps \<longleftrightarrow>
     (\<exists>i cs. segs = [''v1'', ''devices'', i, ''properties''] @ cs \<and> ps = [(''device_id'', i), (''property_path'', join_path cs)])"
  "template_match template_command segs = Some ps \<longleftrightarrow>
     (\<exists>i c. segs = [''v1'', ''devices'', i, ''commands'', c] \<and> ps = [(''device_id'', i), (''command'', c)])"
  "template_match (template_rpc m) segs = Some ps \<longleftrightarrow> segs = [''udal.v1.DeviceService'', m] \<and> ps = []"
  "template_match template_schema segs = Some ps \<longleftrightarrow>
     (\<exists>n v. segs = [''v1'', ''schemas'', n, v] \<and> ps = [(''name'', n), (''version'', v)])"
  "template_match template_schemas segs = Some ps \<longleftrightarrow> segs = [''v1'', ''schemas''] \<and> ps = []"
  unfolding template_defs match_iffs by auto

lemma join_path_split: "join_path (Split1 CHR ''/'' s) = s"
proof (induction s)
  case (Cons c cs)
  then show ?case by (cases "Split1 CHR ''/'' cs" rule: join_path.cases) auto
qed simp

lemma split_join_path: "cs \<noteq> [] \<Longrightarrow> path_ok cs \<Longrightarrow> Split1 CHR ''/'' (join_path cs) = cs"
  by (induction cs rule: join_path.induct) (auto simp: path_ok_def Split1_notin Split1_append_sep)

lemma join_path_Nil: "path_ok cs \<Longrightarrow> join_path cs = [] \<longleftrightarrow> cs = []"
  by (cases cs rule: join_path.cases) (auto simp: path_ok_def)

text \<open>The segments of a property path in a URL.\<close>

definition path_segments :: "string \<Rightarrow> string list" where
  "path_segments p = (if p = [] then [] else Split1 CHR ''/'' p)"

lemma path_segments_join: "path_ok cs \<Longrightarrow> path_segments (join_path cs) = cs"
  by (simp add: path_segments_def split_join_path join_path_Nil)

lemma join_path_segments: "join_path (path_segments p) = p"
  by (simp add: path_segments_def join_path_split)

text \<open>Where the API puts a call: its method and its path.\<close>

fun url_of :: "client_call \<Rightarrow> string \<times> string list" where
  "url_of (CallGetDevice i) = (''GET'', [''v1'', ''devices'', i])"
| "url_of (CallListDevices c t) = (''GET'', [''v1'', ''devices''])"
| "url_of (CallRegisterDevice r) = (''POST'', [''v1'', ''devices''])"
| "url_of (CallDeleteDevice i) = (''DELETE'', [''v1'', ''devices'', i])"
| "url_of (CallGetProperty i p) = (''GET'', [''v1'', ''devices'', i, ''properties''] @ path_segments p)"
| "url_of (CallSetProperty i p v) = (''PUT'', [''v1'', ''devices'', i, ''properties''] @ path_segments p)"
| "url_of (CallSendCommand i c ps) = (''POST'', [''v1'', ''devices'', i, ''commands'', c])"
| "url_of (CallSubscribe i p) = (''POST'', [''udal.v1.DeviceService'', ''Subscribe''])"
| "url_of CallStreamCommands = (''POST'', [''udal.v1.DeviceService'', ''StreamCommands''])"
| "url_of (CallPublishSchema b) = (''POST'', [''v1'', ''schemas''])"
| "url_of (CallGetSchema n v) = (''GET'', [''v1'', ''schemas'', n, v])"
| "url_of (CallListSchemas n) = (''GET'', [''v1'', ''schemas''])"

text \<open>A request that carries a call: its method and path are those of the call, and body and query decode to the rest of it.\<close>

fun carries :: "('b, 'q) runtime \<Rightarrow> ('b, 'q) http_request \<Rightarrow> client_call \<Rightarrow> bool" where
  "carries rt rq (CallListDevices c t) \<longleftrightarrow> query (rt_ListDevices rt) rq = Inr (c, t)"
| "carries rt rq (CallRegisterDevice r) \<longleftrightarrow> decode_body zero_register (rt_Register rt (rq_body rq)) = Inr r"
| "carries rt rq (CallSetProperty i p v) \<longleftrightarrow> decode_body None (rt_Value rt (rq_body rq)) = Inr v"
| "carries rt rq (CallSendCommand i c ps) \<longleftrightarrow> decode_body [] (rt_Params rt (rq_body rq)) = Inr ps"
| "carries rt rq (CallSubscribe i p) \<longleftrightarrow> decode_body ([], []) (rt_Subscribe rt (rq_body rq)) = Inr (i, p)"
| "carries rt rq (CallPublishSchema b) \<longleftrightarrow> decode_body NoBytes (rt_Publish rt (rq_body rq)) = Inr b"
| "carries rt rq (CallListSchemas n) \<longleftrightarrow> query (rt_ListSchemas rt) rq = Inr n"
| "carries rt rq _ \<longleftrightarrow> True"

lemma set_map_filter: "set (List.map_filter f xs) = {y. \<exists>x \<in> set xs. f x = Some y}"
  by (auto simp: List.map_filter_def) force

text \<open>When all elements that survive a filter have the same key and keys are distinct, at most one survives.\<close>

lemma map_filter_keyed:
  assumes "list_all2 (\<lambda>x k. f x = None \<or> k = K) xs ks" and "distinct ks"
  shows "length (List.map_filter f xs) \<le> 1"
proof -
  have "(K \<notin> set ks \<longrightarrow> List.map_filter f xs = []) \<and> length (List.map_filter f xs) \<le> 1"
    using assms by (induction xs ks rule: list_all2_induct) (auto simp: List.map_filter_simps split: option.split)
  then show ?thesis by blast
qed

lemma bind_Inr: "bind r f = Inr c \<longleftrightarrow> (\<exists>x. r = Inr x \<and> f x = Inr c)"
  by (cases r) (auto simp: bind_def)

lemmas request_defs = request_GetDevice_def request_ListDevices_def request_RegisterDevice_def request_DeleteDevice_def
  request_GetProperty_def request_SetProperty_def request_SendCommand_def request_Subscribe_def request_StreamCommands_def
  request_PublishSchema_def request_GetSchema_def request_ListSchemas_def

text \<open>What distinguishes the templates of one method.\<close>

definition path_tag :: "string list \<Rightarrow> nat" where
  "path_tag segs =
     (if segs ! 0 = ''v1'' then
        if segs ! 1 = ''devices'' then
          (if length segs = 2 then 1 else if length segs = 3 then 2 else if segs ! 3 = ''properties'' then 3 else 4)
        else if length segs = 2 then 5 else 6
      else if segs ! 1 = ''Subscribe'' then 7 else 8)"

lemma path_tags:
  "template_match template_devices segs = Some ps \<Longrightarrow> path_tag segs = 1"
  "template_match template_device segs = Some ps \<Longrightarrow> path_tag segs = 2"
  "template_match template_property segs = Some ps \<Longrightarrow> path_tag segs = 3"
  "template_match template_command segs = Some ps \<Longrightarrow> path_tag segs = 4"
  "template_match template_schemas segs = Some ps \<Longrightarrow> path_tag segs = 5"
  "template_match template_schema segs = Some ps \<Longrightarrow> path_tag segs = 6"
  "template_match (template_rpc ''Subscribe'') segs = Some ps \<Longrightarrow> path_tag segs = 7"
  "template_match (template_rpc ''StreamCommands'') segs = Some ps \<Longrightarrow> path_tag segs = 8"
  unfolding template_matches by (auto simp: path_tag_def)

text \<open>A registered route answers a request.\<close>

definition answer :: "('b, 'q) runtime \<Rightarrow> ('b, 'q) http_request \<Rightarrow> string \<Rightarrow> pattern \<Rightarrow> ('b, 'q) request_fun \<Rightarrow> (code + client_call) \<Rightarrow> bool" where
  "answer rt rq m p f a \<longleftrightarrow> m = rq_method rq \<and> (\<exists>ps. rt_Match rt p (rq_path rq) = Some ps \<and> a = handle f rt rq ps)"

text \<open>The calls a route can make, and for which requests.\<close>

definition calls :: "('b, 'q) runtime \<Rightarrow> ('b, 'q) http_request \<Rightarrow> string \<Rightarrow> string list \<Rightarrow> bool" where
  "calls rt rq m segs \<longleftrightarrow> rq_method rq = m \<and> rq_path rq = segs \<and> rt_Annotate rt rq = None"

section \<open>What the runtime promises\<close>

text \<open>
  The documented behaviour of the runtime: a compiled template matches a path as the template reads, and a string parameter is taken as
  it is. Nothing is said of paths with empty segments.
\<close>

locale rest_runtime =
  fixes rt :: "('b, 'q) runtime"
  assumes match_law: "\<And>ts segs. template_ok ts \<Longrightarrow> path_ok segs \<Longrightarrow> rt_Match rt (compile ts) segs = template_match ts segs"
    and string_law: "\<And>s. rt_String rt s = Some s"
begin

lemma param: "path_param rt params key = (case gm_get params key of None \<Rightarrow> Inl CodeInvalidArgument | Some v \<Rightarrow> Inr v)"
  by (simp add: path_param_def string_law split: option.split)

lemma pattern_match:
  assumes "path_ok segs"
  shows "rt_Match rt pattern_GetDevice segs = template_match template_device segs"
    "rt_Match rt pattern_ListDevices segs = template_match template_devices segs"
    "rt_Match rt pattern_RegisterDevice segs = template_match template_devices segs"
    "rt_Match rt pattern_DeleteDevice segs = template_match template_device segs"
    "rt_Match rt pattern_GetProperty segs = template_match template_property segs"
    "rt_Match rt pattern_SetProperty segs = template_match template_property segs"
    "rt_Match rt pattern_SendCommand segs = template_match template_command segs"
    "rt_Match rt pattern_Subscribe segs = template_match (template_rpc ''Subscribe'') segs"
    "rt_Match rt pattern_StreamCommands segs = template_match (template_rpc ''StreamCommands'') segs"
    "rt_Match rt pattern_PublishSchema segs = template_match template_schemas segs"
    "rt_Match rt pattern_GetSchema segs = template_match template_schema segs"
    "rt_Match rt pattern_ListSchemas segs = template_match template_schemas segs"
  using match_law [OF _ assms] by (simp_all add: patterns_compiled templates_ok)

lemma answers_iff:
  "a \<in> set (answers rt rq) \<longleftrightarrow>
     answer rt rq ''GET'' pattern_GetDevice request_GetDevice a \<or> answer rt rq ''GET'' pattern_ListDevices request_ListDevices a \<or>
     answer rt rq ''POST'' pattern_RegisterDevice request_RegisterDevice a \<or> answer rt rq ''DELETE'' pattern_DeleteDevice request_DeleteDevice a \<or>
     answer rt rq ''GET'' pattern_GetProperty request_GetProperty a \<or> answer rt rq ''PUT'' pattern_SetProperty request_SetProperty a \<or>
     answer rt rq ''POST'' pattern_SendCommand request_SendCommand a \<or> answer rt rq ''POST'' pattern_Subscribe request_Subscribe a \<or>
     answer rt rq ''POST'' pattern_StreamCommands request_StreamCommands a \<or> answer rt rq ''POST'' pattern_PublishSchema request_PublishSchema a \<or>
     answer rt rq ''GET'' pattern_GetSchema request_GetSchema a \<or> answer rt rq ''GET'' pattern_ListSchemas request_ListSchemas a"
proof -
  have step: "(if m = rq_method rq then map_option (h rt rq) (rt_Match rt p (rq_path rq)) else None) = Some a \<longleftrightarrow>
     m = rq_method rq \<and> (\<exists>ps. rt_Match rt p (rq_path rq) = Some ps \<and> a = h rt rq ps)" for m p h
    by auto
  show ?thesis
    unfolding answers_def set_map_filter answer_def device_routes_def capability_routes_def
    by (simp only: list.set append.simps mem_Collect_eq bex_simps prod.case step disj_assoc simp_thms)
qed

lemma answer_Inr:
  "answer rt rq m p f (Inr c) \<longleftrightarrow> m = rq_method rq \<and> rt_Annotate rt rq = None \<and>
     (\<exists>ps. rt_Match rt p (rq_path rq) = Some ps \<and> f rt rq ps = Inr c)"
  by (auto simp: answer_def handle_def split: option.splits)

lemma route_answers:
  assumes "path_ok (rq_path rq)"
  shows
    "answer rt rq ''GET'' pattern_GetDevice request_GetDevice (Inr c) \<longleftrightarrow> (\<exists>i. calls rt rq ''GET'' [''v1'', ''devices'', i] \<and> c = CallGetDevice i)"
    "answer rt rq ''DELETE'' pattern_DeleteDevice request_DeleteDevice (Inr c) \<longleftrightarrow>
       (\<exists>i. calls rt rq ''DELETE'' [''v1'', ''devices'', i] \<and> c = CallDeleteDevice i)"
    "answer rt rq ''GET'' pattern_ListDevices request_ListDevices (Inr c) \<longleftrightarrow>
       calls rt rq ''GET'' [''v1'', ''devices''] \<and> (\<exists>n t. query (rt_ListDevices rt) rq = Inr (n, t) \<and> c = CallListDevices n t)"
    "answer rt rq ''POST'' pattern_RegisterDevice request_RegisterDevice (Inr c) \<longleftrightarrow>
       calls rt rq ''POST'' [''v1'', ''devices''] \<and> (\<exists>r. decode_body zero_register (rt_Register rt (rq_body rq)) = Inr r \<and> c = CallRegisterDevice r)"
    "answer rt rq ''GET'' pattern_GetProperty request_GetProperty (Inr c) \<longleftrightarrow>
       (\<exists>i cs. calls rt rq ''GET'' ([''v1'', ''devices'', i, ''properties''] @ cs) \<and> c = CallGetProperty i (join_path cs))"
    "answer rt rq ''PUT'' pattern_SetProperty request_SetProperty (Inr c) \<longleftrightarrow>
       (\<exists>i cs v. calls rt rq ''PUT'' ([''v1'', ''devices'', i, ''properties''] @ cs) \<and> decode_body None (rt_Value rt (rq_body rq)) = Inr v \<and>
          c = CallSetProperty i (join_path cs) v)"
    "answer rt rq ''POST'' pattern_SendCommand request_SendCommand (Inr c) \<longleftrightarrow>
       (\<exists>i n ps. calls rt rq ''POST'' [''v1'', ''devices'', i, ''commands'', n] \<and> decode_body [] (rt_Params rt (rq_body rq)) = Inr ps \<and>
          c = CallSendCommand i n ps)"
    "answer rt rq ''POST'' pattern_Subscribe request_Subscribe (Inr c) \<longleftrightarrow>
       calls rt rq ''POST'' [''udal.v1.DeviceService'', ''Subscribe''] \<and>
       (\<exists>i p. decode_body ([], []) (rt_Subscribe rt (rq_body rq)) = Inr (i, p) \<and> c = CallSubscribe i p)"
    "answer rt rq ''POST'' pattern_StreamCommands request_StreamCommands (Inr c) \<longleftrightarrow>
       calls rt rq ''POST'' [''udal.v1.DeviceService'', ''StreamCommands''] \<and> c = CallStreamCommands"
    "answer rt rq ''POST'' pattern_PublishSchema request_PublishSchema (Inr c) \<longleftrightarrow>
       calls rt rq ''POST'' [''v1'', ''schemas''] \<and> (\<exists>b. decode_body NoBytes (rt_Publish rt (rq_body rq)) = Inr b \<and> c = CallPublishSchema b)"
    "answer rt rq ''GET'' pattern_GetSchema request_GetSchema (Inr c) \<longleftrightarrow>
       (\<exists>n v. calls rt rq ''GET'' [''v1'', ''schemas'', n, v] \<and> c = CallGetSchema n v)"
    "answer rt rq ''GET'' pattern_ListSchemas request_ListSchemas (Inr c) \<longleftrightarrow>
       calls rt rq ''GET'' [''v1'', ''schemas''] \<and> (\<exists>n. query (rt_ListSchemas rt) rq = Inr n \<and> c = CallListSchemas n)"
  unfolding answer_Inr pattern_match [OF assms] template_matches calls_def request_defs bind_Inr
  by (auto simp: param)

lemma answered_call:
  assumes "path_ok (rq_path rq)"
  shows "Inr c \<in> set (answers rt rq) \<longleftrightarrow> rt_Annotate rt rq = None \<and> (rq_method rq, rq_path rq) = url_of c \<and> carries rt rq c"
proof -
  have rest: "path_segments (join_path cs) = cs" if "rq_path rq = ''v1'' # ''devices'' # i # ''properties'' # cs" for i cs
    using that assms by (intro path_segments_join) (simp add: path_ok_def)
  show ?thesis
    unfolding answers_iff route_answers [OF assms]
    by (cases c) (simp_all add: calls_def, auto simp: join_path_segments rest)
qed

lemma one_answer:
  assumes "path_ok (rq_path rq)"
  shows "length (answers rt rq) \<le> 1"
proof -
  let ?f = "\<lambda>(m, p, h). if m = rq_method rq then map_option (h rt rq) (rt_Match rt p (rq_path rq)) else None"
  let ?keys = "[(''GET'', 2), (''GET'', 1), (''POST'', 1), (''DELETE'', 2), (''GET'', 3), (''PUT'', 3), (''POST'', 4), (''POST'', 7),
    (''POST'', 8), (''POST'', 5), (''GET'', 6), (''GET'', 5)]"
  have tag: "?f (m, p, h) = None \<or> (m, k) = (rq_method rq, path_tag (rq_path rq))"
    if "\<And>ps. rt_Match rt p (rq_path rq) = Some ps \<Longrightarrow> path_tag (rq_path rq) = k" for m p h k
    using that by (cases "rt_Match rt p (rq_path rq)") auto
  have "list_all2 (\<lambda>x k. ?f x = None \<or> k = (rq_method rq, path_tag (rq_path rq))) (device_routes @ capability_routes) ?keys"
    unfolding device_routes_def capability_routes_def append.simps
    by (intro list.rel_intros tag; (simp only: pattern_match [OF assms] path_tags)?)
  then show ?thesis
    unfolding answers_def by (rule map_filter_keyed) code_simp
qed

lemma dispatch_iff:
  assumes "path_ok (rq_path rq)"
  shows "rest_dispatch rt rq = Some (Inr c) \<longleftrightarrow> rt_Annotate rt rq = None \<and> (rq_method rq, rq_path rq) = url_of c \<and> carries rt rq c"
  unfolding answered_call [OF assms, symmetric] rest_dispatch_def
  using one_answer [OF assms] by (auto split: list.split simp: le_Suc_eq length_Suc_conv)

end

section \<open>A reference runtime\<close>

text \<open>An interpreter for the op codes: the pool, a stack of segments and the rest of the path.\<close>

fun run_ops :: "nat list \<Rightarrow> string list \<Rightarrow> string list \<Rightarrow> string list \<Rightarrow> path_params option" where
  "run_ops [] pool st segs = (if segs = [] then Some [] else None)"
| "run_ops (opc # k # ops) pool st segs =
     (if opc = 1 then (case segs of [] \<Rightarrow> None | c # cs \<Rightarrow> run_ops ops pool (c # st) cs)
      else if opc = 2 then
        (case segs of [] \<Rightarrow> None | c # cs \<Rightarrow> if k < length pool \<and> c = pool ! k then run_ops ops pool (c # st) cs else None)
      else if opc = 3 then run_ops ops pool (join_path segs # st) []
      else if opc = 4 then (if length st < k then None else run_ops ops pool (join_path (rev (take k st)) # drop k st) segs)
      else if opc = 5 then
        (case st of [] \<Rightarrow> None | x # st' \<Rightarrow> if k < length pool then map_option (Cons (pool ! k, x)) (run_ops ops pool st' segs) else None)
      else None)"
| "run_ops [opc] pool st segs = None"

definition ref_runtime :: "('b, 'q) runtime \<Rightarrow> ('b, 'q) runtime" where
  "ref_runtime rt = rt\<lparr>rt_Match := (\<lambda>p. run_ops (pt_ops p) (pt_pool p) []), rt_String := Some\<rparr>"

lemma intern_index: "intern s pool = (k, pool') \<Longrightarrow> k < length pool' \<and> pool' ! k = s \<and> (\<exists>ext. pool' = pool @ ext)"
proof (cases "s \<in> set pool")
  case True
  assume "intern s pool = (k, pool')"
  with True have k: "k = length (takeWhile (\<lambda>x. x \<noteq> s) pool)" "pool' = pool" by (auto simp: intern_def)
  obtain ys zs where pool: "pool = ys @ s # zs" "s \<notin> set ys" using True by (meson split_list_first)
  then have "takeWhile (\<lambda>x. x \<noteq> s) pool = ys" by (auto simp: takeWhile_append takeWhile_eq_all_conv)
  with k pool show ?thesis by simp
qed (auto simp: intern_def)

lemma compile_pool: "\<exists>ext. pt_pool (compile_from ts pool) = pool @ ext"
  by (induction ts pool rule: compile_from.induct) (fastforce simp: Let_def split: prod.splits dest: intern_index)+

lemma pool_keeps:
  assumes "intern s pool = (k, pool')"
  shows "k < length (pt_pool (compile_from ts pool'))" and "pt_pool (compile_from ts pool') ! k = s"
  using intern_index [OF assms] compile_pool [of ts pool'] by (auto simp: nth_append)

lemma run_compiled:
  "template_ok ts \<Longrightarrow> run_ops (pt_ops (compile_from ts pool)) (pt_pool (compile_from ts pool)) st segs = template_match ts segs"
proof (induction ts pool arbitrary: st segs rule: compile_from.induct)
  case (1 pool)
  then show ?case by (cases segs) simp_all
next
  case (2 s ts pool)
  obtain k pool' where k: "intern s pool = (k, pool')" by fastforce
  show ?case using 2 k pool_keeps [OF k, of ts] by (cases segs) (simp_all add: Let_def)
next
  case (3 x ts pool)
  obtain k pool' where k: "intern x pool = (k, pool')" by fastforce
  show ?case using 3 k pool_keeps [OF k, of ts] by (cases segs) (simp_all add: Let_def)
next
  case (4 x ts pool)
  obtain k pool' where k: "intern x pool = (k, pool')" by fastforce
  show ?case using 4 k pool_keeps [OF k, of ts] by (simp add: Let_def)
qed

interpretation refrt: rest_runtime "ref_runtime rt" for rt :: "('b, 'q) runtime"
  by unfold_locales (simp_all add: ref_runtime_def compile_def run_compiled)

section \<open>Properties\<close>


definition demo_runtime :: "(proto_value option, unit) runtime" where
  "demo_runtime = ref_runtime \<lparr>rt_Match = (\<lambda>_ _. None), rt_String = Some, rt_Annotate = (\<lambda>_. None), rt_Register = (\<lambda>_. DecError),
     rt_Value = (\<lambda>b. case b of None \<Rightarrow> DecEOF | Some v \<Rightarrow> DecOk (Some v)), rt_Params = (\<lambda>_. DecError), rt_Subscribe = (\<lambda>_. DecError),
     rt_Publish = (\<lambda>_. DecError), rt_ListDevices = (\<lambda>_. Some ([], [])), rt_ListSchemas = (\<lambda>_. Some [])\<rparr>"

lemma demo_rest_runtime: "rest_runtime demo_runtime"
  unfolding demo_runtime_def by (rule refrt.rest_runtime_axioms)

definition demo_put :: "(proto_value option, unit) http_request" where
  "demo_put = \<lparr>rq_method = ''PUT'', rq_path = [''v1'', ''devices'', ''lamp'', ''properties'', ''head'', ''on''], rq_form = None,
     rq_body = Some (PvBool True)\<rparr>"


text \<open>A device whose ID has a slash, which registration accepts, has no URL: no REST request reads or deletes it.\<close>

lemma slash_id_unreachable:
  assumes "rest_runtime rt" and "path_ok (rq_path rq)" and "CHR ''/'' \<in> set i"
  shows "rest_dispatch rt rq \<noteq> Some (Inr (CallGetDevice i))" and "rest_dispatch rt rq \<noteq> Some (Inr (CallDeleteDevice i))"
  using assms(2,3) rest_runtime.dispatch_iff [OF assms(1,2)] by (auto simp: path_ok_def)

text \<open>A command stream over REST passes on the results of its body in order, up to the first that fails.\<close>

lemma stream_sends_prefix: "\<exists>n. stream_sends xs = concat (map (\<lambda>x. case fst x of DecOk m \<Rightarrow> [m] | _ \<Rightarrow> []) (take n xs))"
proof (induction xs rule: stream_sends.induct)
  case (2 m ok xs)
  show ?case
  proof (cases ok)
    case True
    with 2 obtain n where "stream_sends xs = concat (map (\<lambda>x. case fst x of DecOk m \<Rightarrow> [m] | _ \<Rightarrow> []) (take n xs))" by blast
    with True show ?thesis by (intro exI [of _ "Suc n"]) simp
  qed (auto intro: exI [of _ 0])
qed (auto intro: exI [of _ 0])

end
