(* ===== verification/Cli.thy ===== *)
theory Cli
  imports Capability_Service Config "HOL-Library.Multiset"
begin

text \<open>
  The command line client (\<open>code/cli/cmd/udal\<close>): its flags, the connection they ask for, and the commands
  \<open>schema publish\<close>, \<open>schema get\<close> and \<open>schema list\<close> over the gateway's capability service. Files,
  the gRPC channel and the service at its other end are arguments. What a command prints is a list of lines; formatted documents,
  timestamps and error texts are kept as the values they show. Go does not say how
  \<open>sort.Slice\<close> orders equal elements, so the sort is an argument too.
\<close>

section \<open>Flags\<close>

record connectFlags =
  cf_gateway :: string
  cf_apiKey :: string
  cf_caCert :: string
  cf_insecure :: bool

definition cli_envOr :: "env \<Rightarrow> string \<Rightarrow> string \<Rightarrow> string" where
  "cli_envOr env key fallback = (if env key \<noteq> [] then env key else fallback)"

definition cf_register :: "env \<Rightarrow> connectFlags" where
  "cf_register env = \<lparr>cf_gateway = cli_envOr env ''UDAL_GATEWAY_ADDR'' ''localhost:50051'', cf_apiKey = env ''UDAL_API_KEY'',
     cf_caCert = env ''UDAL_TLS_CA'', cf_insecure = (cli_envOr env ''UDAL_DEV_INSECURE'' ''false'' = ''true'')\<rparr>"

text \<open>\<open>strconv.ParseBool\<close>, and the \<open>flag\<close> package on the flags registered above.\<close>

definition ParseBool :: "string \<Rightarrow> bool option" where
  "ParseBool s = (if s \<in> {''1'', ''t'', ''T'', ''TRUE'', ''true'', ''True''} then Some True
     else if s \<in> {''0'', ''f'', ''F'', ''FALSE'', ''false'', ''False''} then Some False else None)"

datatype flag_step = FlagsEnd "string list" | FlagBad | FlagNext connectFlags "string list"

definition set_flag :: "string \<Rightarrow> (string \<Rightarrow> connectFlags \<Rightarrow> connectFlags) option" where
  "set_flag name =
     (if name = ''gateway'' then Some (\<lambda>v. cf_gateway_update (\<lambda>_. v))
      else if name = ''api-key'' then Some (\<lambda>v. cf_apiKey_update (\<lambda>_. v))
      else if name = ''ca'' then Some (\<lambda>v. cf_caCert_update (\<lambda>_. v)) else None)"

definition flag_value :: "connectFlags \<Rightarrow> string \<Rightarrow> string option \<Rightarrow> string list \<Rightarrow> flag_step" where
  "flag_value f name v args =
     (if name = ''insecure'' then
        (case v of
           None \<Rightarrow> FlagNext (f\<lparr>cf_insecure := True\<rparr>) args
         | Some b \<Rightarrow> (case ParseBool b of None \<Rightarrow> FlagBad | Some x \<Rightarrow> FlagNext (f\<lparr>cf_insecure := x\<rparr>) args))
      else case set_flag name of
        None \<Rightarrow> FlagBad
      | Some upd \<Rightarrow>
          (case v of
             Some x \<Rightarrow> FlagNext (upd x f) args
           | None \<Rightarrow> (case args of [] \<Rightarrow> FlagBad | x # args' \<Rightarrow> FlagNext (upd x f) args')))"

definition flag_name :: "connectFlags \<Rightarrow> string \<Rightarrow> string list \<Rightarrow> flag_step" where
  "flag_name f name args =
     (case name of
        [] \<Rightarrow> FlagBad
      | c # cs \<Rightarrow>
          if c = CHR ''-'' \<or> c = CHR ''='' then FlagBad
          else (case Cut cs ''='' of (n, v, ok) \<Rightarrow> flag_value f (c # n) (if ok then Some v else None) args))"

fun parseOne :: "connectFlags \<Rightarrow> string list \<Rightarrow> flag_step" where
  "parseOne f [] = FlagsEnd []"
| "parseOne f (s # args) =
     (if length s < 2 \<or> hd s \<noteq> CHR ''-'' then FlagsEnd (s # args)
      else if s ! 1 = CHR ''-'' then (if length s = 2 then FlagsEnd args else flag_name f (drop 2 s) args)
      else flag_name f (tl s) args)"

lemma flag_name_shorter: "flag_name f name args = FlagNext f' args' \<Longrightarrow> length args' \<le> length args"
  by (auto simp: flag_name_def flag_value_def split: list.splits if_splits prod.splits option.splits)

lemma parseOne_shorter: "parseOne f args = FlagNext f' args' \<Longrightarrow> length args' < length args"
  by (cases args) (auto split: if_splits dest: flag_name_shorter)

function (sequential) flag_Parse :: "connectFlags \<Rightarrow> string list \<Rightarrow> (connectFlags \<times> string list) option" where
  "flag_Parse f args =
     (case parseOne f args of
        FlagsEnd rest \<Rightarrow> Some (f, rest)
      | FlagBad \<Rightarrow> None
      | FlagNext f' args' \<Rightarrow> flag_Parse f' args')"
  by pat_completeness auto
termination
  by (relation "measure (\<lambda>(f, args). length args)") (auto dest: parseOne_shorter)

declare flag_Parse.simps [simp del]

section \<open>Connecting\<close>

datatype ca_file = CaUnreadable | CaNoCertificate | CaPool

definition dial :: "(string \<Rightarrow> ca_file) \<Rightarrow> (string \<Rightarrow> bool) \<Rightarrow> connectFlags \<Rightarrow> bool" where
  "dial ca newClient f =
     (if cf_insecure f then newClient (cf_gateway f)
      else if cf_caCert f \<noteq> [] \<and> ca (cf_caCert f) \<noteq> CaPool then False
      else newClient (cf_gateway f))"

definition authContext :: "connectFlags \<Rightarrow> string \<Rightarrow> string list" where
  "authContext f = (\<lambda>k. if k = ''x-api-key'' \<and> cf_apiKey f \<noteq> [] then [cf_apiKey f] else [])"

section \<open>Commands\<close>

text \<open>The capability service as the client sees it: the state at its other end, and for each call the request's metadata.\<close>

record 's cap_client =
  cc_Publish :: "(string \<Rightarrow> string list) \<Rightarrow> schema_bytes \<Rightarrow> 's \<Rightarrow> 's \<times> (code + proto_schema)"
  cc_Get :: "(string \<Rightarrow> string list) \<Rightarrow> string \<Rightarrow> string \<Rightarrow> 's \<Rightarrow> code + proto_schema"
  cc_List :: "(string \<Rightarrow> string list) \<Rightarrow> string \<Rightarrow> 's \<Rightarrow> code + proto_schema list"

datatype cli_out =
    OutPublished string string | OutDoc json | OutNone | OutRow string string time
  | ErrUsage | ErrConnect | ErrRead string | ErrStatus code | ErrReference string

type_synonym cli_result = "int \<times> cli_out list"

definition cmdSchemaPublish ::
    "'s cap_client \<Rightarrow> (string \<Rightarrow> string list) \<Rightarrow> (string \<Rightarrow> schema_bytes option) \<Rightarrow> string \<Rightarrow> 's \<Rightarrow> 's \<times> cli_result" where
  "cmdSchemaPublish client md file path s =
     (case file path of
        None \<Rightarrow> (s, 1, [ErrRead path])
      | Some raw \<Rightarrow>
          (case cc_Publish client md raw s of
             (s', Inl c) \<Rightarrow> (s', 1, [ErrStatus c])
           | (s', Inr x) \<Rightarrow> (s', 0, [OutPublished (ps_Name x) (ps_Version x)])))"

definition cmdSchemaGet :: "'s cap_client \<Rightarrow> (string \<Rightarrow> string list) \<Rightarrow> string \<Rightarrow> 's \<Rightarrow> cli_result" where
  "cmdSchemaGet client md ref s =
     (case Cut ref ''@'' of (name, version, ok) \<Rightarrow>
        if \<not> ok \<or> name = [] \<or> version = [] then (2, [ErrReference ref])
        else case cc_Get client md name version s of
          Inl c \<Rightarrow> (1, [ErrStatus c])
        | Inr x \<Rightarrow> (0, [OutDoc (ps_Raw x)]))"

text \<open>\<open>AsTime\<close> reads a missing timestamp as the Unix epoch (the clock counts nanoseconds from the first of January of the year 1).\<close>

definition unix_epoch :: time where
  "unix_epoch = 62135596800 * second"

definition published :: "proto_schema \<Rightarrow> time" where
  "published x = (case ps_PublishedAt x of None \<Rightarrow> unix_epoch | Some t \<Rightarrow> t)"

definition cmdSchemaList ::
    "'s cap_client \<Rightarrow> (proto_schema list \<Rightarrow> proto_schema list) \<Rightarrow> (string \<Rightarrow> string list) \<Rightarrow> string \<Rightarrow> 's \<Rightarrow> cli_result" where
  "cmdSchemaList client srt md name s =
     (case cc_List client md name s of
        Inl c \<Rightarrow> (1, [ErrStatus c])
      | Inr xs \<Rightarrow>
          if srt xs = [] then (0, [OutNone])
          else (0, map (\<lambda>x. OutRow (ps_Name x) (ps_Version x) (published x)) (srt xs)))"

record 's cli_world =
  cw_env :: env
  cw_ca :: "string \<Rightarrow> ca_file"
  cw_newClient :: "string \<Rightarrow> bool"
  cw_file :: "string \<Rightarrow> schema_bytes option"
  cw_client :: "connectFlags \<Rightarrow> 's cap_client"
  cw_sort :: "proto_schema list \<Rightarrow> proto_schema list"

text \<open>The frame of the three commands: flags, number of arguments, connection; then the command itself.\<close>

definition with_flags ::
    "'s cli_world \<Rightarrow> string list \<Rightarrow> (nat \<Rightarrow> bool) \<Rightarrow> (connectFlags \<Rightarrow> string list \<Rightarrow> 's \<Rightarrow> 's \<times> cli_result) \<Rightarrow> 's \<Rightarrow> 's \<times> cli_result" where
  "with_flags w args arity cmd s =
     (case flag_Parse (cf_register (cw_env w)) args of
        None \<Rightarrow> (s, 2, [ErrUsage])
      | Some (f, rest) \<Rightarrow>
          if \<not> arity (length rest) then (s, 2, [ErrUsage])
          else if \<not> dial (cw_ca w) (cw_newClient w) f then (s, 1, [ErrConnect])
          else cmd f rest s)"

definition runSchemaPublishCmd :: "'s cli_world \<Rightarrow> string list \<Rightarrow> 's \<Rightarrow> 's \<times> cli_result" where
  "runSchemaPublishCmd w args = with_flags w args (\<lambda>n. n = 1)
     (\<lambda>f rest. cmdSchemaPublish (cw_client w f) (authContext f) (cw_file w) (hd rest))"

definition runSchemaGetCmd :: "'s cli_world \<Rightarrow> string list \<Rightarrow> 's \<Rightarrow> 's \<times> cli_result" where
  "runSchemaGetCmd w args = with_flags w args (\<lambda>n. n = 1)
     (\<lambda>f rest s. (s, cmdSchemaGet (cw_client w f) (authContext f) (hd rest) s))"

definition runSchemaListCmd :: "'s cli_world \<Rightarrow> string list \<Rightarrow> 's \<Rightarrow> 's \<times> cli_result" where
  "runSchemaListCmd w args = with_flags w args (\<lambda>n. n \<le> 1)
     (\<lambda>f rest s. (s, cmdSchemaList (cw_client w f) (cw_sort w) (authContext f) (case rest of [] \<Rightarrow> [] | name # _ \<Rightarrow> name) s))"

fun runSchema :: "'s cli_world \<Rightarrow> string list \<Rightarrow> 's \<Rightarrow> 's \<times> cli_result" where
  "runSchema w [] s = (s, 2, [ErrUsage])"
| "runSchema w (sub # args) s =
     (if sub = ''publish'' then runSchemaPublishCmd w args s
      else if sub = ''get'' then runSchemaGetCmd w args s
      else if sub = ''list'' then runSchemaListCmd w args s
      else (s, 2, [ErrUsage]))"

fun run :: "'s cli_world \<Rightarrow> string list \<Rightarrow> 's \<Rightarrow> 's \<times> cli_result" where
  "run w [] s = (s, 2, [ErrUsage])"
| "run w (cmd # args) s =
     (if cmd = ''schema'' then runSchema w args s
      else if cmd \<in> {''-h'', ''--help'', ''help''} then (s, 0, [ErrUsage])
      else (s, 2, [ErrUsage]))"

section \<open>Facts\<close>

lemma dec_fold_keeps:
  assumes "dec_fold f kvs x = Some y" and "\<And>kv x y. f kv x = Some y \<Longrightarrow> P x \<Longrightarrow> P y" and "P x"
  shows "P y"
  using assms(1,3) by (induction kvs arbitrary: x) (auto split: option.splits dest: assms(2))

lemma meta_field_raw: "dec_meta_field kv x = Some y \<Longrightarrow> sc_Raw y = sc_Raw x"
  by (auto simp: dec_meta_field_def split: if_splits)

lemma doc_field_raw:
  assumes "dec_doc_field kv x = Some y"
  shows "sc_Raw y = sc_Raw x"
proof -
  have meta: "sc_Raw z = sc_Raw x" if "dec_fold dec_meta_field kvs x = Some z" for kvs z
    by (rule dec_fold_keeps [OF that, of "\<lambda>s. sc_Raw s = sc_Raw x"]) (auto dest: meta_field_raw)
  from assms show ?thesis
    by (auto simp: dec_doc_field_def Let_def meta split: if_splits json.splits)
qed

lemma Parse_raw: "Parse raw = Some x \<Longrightarrow> sc_Raw x = raw"
  by (auto simp: Parse_def empty_Schema_def split: json.splits
      dest!: dec_fold_keeps [of dec_doc_field _ _ _ "\<lambda>s. sc_Raw s = raw"] dest: doc_field_raw)

lemma validated_raw: "validateAndParse meta raw = Inr x \<Longrightarrow> raw = Some (sc_Raw x)"
  by (auto simp: validateAndParse_def split: option.splits if_splits dest: Parse_raw)

text \<open>The gateway at the other end: it authenticates the request's metadata and serves it.\<close>

definition service_client ::
    "'s schema_ops \<Rightarrow> (json \<Rightarrow> bool) \<Rightarrow> time \<Rightarrow> ((string \<Rightarrow> string list) \<Rightarrow> code + Identity) \<Rightarrow> 's cap_client" where
  "service_client S meta now auth = \<lparr>
     cc_Publish = (\<lambda>md raw s. case auth md of Inl c \<Rightarrow> (s, Inl c) | Inr i \<Rightarrow> PublishSchema S meta now (Some i) raw s),
     cc_Get = (\<lambda>md n v s. case auth md of Inl c \<Rightarrow> Inl c | Inr i \<Rightarrow> GetSchema S (Some i) n v s),
     cc_List = (\<lambda>md n s. case auth md of Inl c \<Rightarrow> Inl c | Inr i \<Rightarrow> ListSchemas S (Some i) n s)\<rparr>"

context schema_registry
begin

lemma published_doc:
  assumes "inv s" and "PublishSchema S meta now caller bytes s = (s', Inr x)"
  shows "inv s' \<and> (\<exists>y. x = toProtoCapabilitySchema y \<and> bytes = Bytes (Some (sc_Raw y)) \<and> tab s' (publishKey (sc_Name y) (sc_Version y)) = Some y)"
proof -
  obtain raw ws y where b: "bytes = Bytes raw" "so_Publish S meta now s raw = (s', ws, Inr y)" "x = toProtoCapabilitySchema y"
    using assms(2) by (auto simp: PublishSchema_def split: option.splits schema_bytes.splits prod.splits sum.splits)
  obtain z where z: "validateAndParse meta raw = Inr z" "y = z\<lparr>sc_PublishedAt := now\<rparr>" "tab s' (publishKey (sc_Name z) (sc_Version z)) = Some y" "inv s'"
    using so_publish [OF assms(1) b(2)] by (auto simp: Let_def split: sum.splits)
  with b validated_raw [OF z(1)] show ?thesis by auto
qed

lemma get_published:
  assumes "inv s" and "tab s (publishKey n v) = Some y" and "may (Some i) OpGetSchema [] []" and "n \<noteq> []" and "v \<noteq> []"
  shows "GetSchema S (Some i) n v s = Inr (toProtoCapabilitySchema y)"
  using assms so_get [OF assms(1), of n v] by (simp add: GetSchema_def cs_authorize_iff [THEN iffD2])

end

section \<open>Properties\<close>

definition clean_exit :: "'s \<Rightarrow> 's \<times> cli_result \<Rightarrow> bool" where
  "clean_exit s r \<longleftrightarrow> fst (snd r) \<in> {0, 1, 2} \<and> (fst (snd r) = 2 \<longrightarrow> fst r = s)"

lemma clean_frame: "(\<And>f rest. clean_exit s (cmd f rest s)) \<Longrightarrow> clean_exit s (with_flags w args arity cmd s)"
  by (simp add: with_flags_def clean_exit_def split: option.split)

lemma clean_cmds:
  "clean_exit s (cmdSchemaPublish c md fl path s)" "clean_exit s (s, cmdSchemaGet c md ref s)" "clean_exit s (s, cmdSchemaList c srt md n s)"
  by (simp_all add: cmdSchemaPublish_def cmdSchemaGet_def cmdSchemaList_def clean_exit_def split: prod.split sum.split option.split)

lemma clean_schema: "clean_exit s (runSchema w args s)"
proof (cases args)
  case Nil
  then show ?thesis by (simp add: clean_exit_def)
next
  case (Cons sub rest)
  have "clean_exit s (runSchemaPublishCmd w rest s)" "clean_exit s (runSchemaGetCmd w rest s)" "clean_exit s (runSchemaListCmd w rest s)"
    unfolding runSchemaPublishCmd_def runSchemaGetCmd_def runSchemaListCmd_def by (rule clean_frame, rule clean_cmds)+
  moreover have "clean_exit s (s, 2, [ErrUsage])" by (simp add: clean_exit_def)
  ultimately show ?thesis unfolding Cons runSchema.simps by (simp split: if_split)
qed

text \<open>Usage errors. The client exits with 0, 1 or 2; when it exits with 2 it has not changed anything at the gateway.\<close>

theorem exit_codes:
  "fst (snd (run w args s)) \<in> {0, 1, 2} \<and> (fst (snd (run w args s)) = 2 \<longrightarrow> fst (run w args s) = s)"
proof -
  have "clean_exit s (run w args s)"
    using clean_schema [of s w] by (cases args) (simp_all add: clean_exit_def)
  then show ?thesis unfolding clean_exit_def by blast
qed

text \<open>C31. Publish and get. When \<open>udal schema publish\<close> succeeds, it prints the name and version of the document in the file, and \<open>udal schema get\<close> with
  that reference, by a caller who may read schemas, prints the very document.\<close>

theorem cli_publish_get:
  assumes "schema_registry S tab I storable" and "I s" and "cw_client w = (\<lambda>f. service_client S meta now auth)"
    and "run w (''schema'' # ''publish'' # args) s = (s', 0, out)"
    and "flag_Parse (cf_register (cw_env w)) args = Some (f, [path])"
  shows "\<exists>n v doc. out = [OutPublished n v] \<and> cw_file w path = Some (Bytes (Some doc)) \<and>
     (\<forall>args' f' i. flag_Parse (cf_register (cw_env w)) args' = Some (f', [n @ ''@'' @ v]) \<longrightarrow> dial (cw_ca w) (cw_newClient w) f' \<longrightarrow>
        auth (authContext f') = Inr i \<longrightarrow> may (Some i) OpGetSchema [] [] \<longrightarrow> n \<noteq> [] \<and> CHR ''@'' \<notin> set n \<and> v \<noteq> [] \<longrightarrow>
        run w (''schema'' # ''get'' # args') s' = (s', 0, [OutDoc doc]))"
proof -
  have "cmdSchemaPublish (service_client S meta now auth) (authContext f) (cw_file w) path s = (s', 0, out)"
    using assms(3-5) by (auto simp: runSchemaPublishCmd_def with_flags_def split: if_splits)
  then obtain raw i x where x: "cw_file w path = Some raw" "PublishSchema S meta now (Some i) raw s = (s', Inr x)" "out = [OutPublished (ps_Name x) (ps_Version x)]"
    by (auto simp: cmdSchemaPublish_def service_client_def split: option.splits prod.splits sum.splits)
  obtain y where y: "I s'" "x = toProtoCapabilitySchema y" "raw = Bytes (Some (sc_Raw y))" "tab s' (publishKey (sc_Name y) (sc_Version y)) = Some y"
    using schema_registry.published_doc [OF assms(1,2) x(2)] by blast
  have "run w (''schema'' # ''get'' # args') s' = (s', 0, [OutDoc (sc_Raw y)])"
    if "flag_Parse (cf_register (cw_env w)) args' = Some (f', [sc_Name y @ ''@'' @ sc_Version y])" "dial (cw_ca w) (cw_newClient w) f'"
      "auth (authContext f') = Inr i'" "may (Some i') OpGetSchema [] []" "sc_Name y \<noteq> []" "CHR ''@'' \<notin> set (sc_Name y)" "sc_Version y \<noteq> []" for args' f' i'
    using that assms(3) schema_registry.get_published [OF assms(1) y(1,4) that(4,5,7)] Cut_first [OF that(6), of "[]" "sc_Version y"]
    by (simp add: runSchemaGetCmd_def with_flags_def cmdSchemaGet_def service_client_def toProtoCapabilitySchema_def)
  with x y show ?thesis by (auto simp: toProtoCapabilitySchema_def)
qed

text \<open>A sort that Go's \<open>sort.Slice\<close> may perform, newest first.\<close>

definition newest_first :: "(proto_schema list \<Rightarrow> proto_schema list) \<Rightarrow> bool" where
  "newest_first srt \<longleftrightarrow> (\<forall>xs. mset (srt xs) = mset xs \<and> sorted_wrt (\<lambda>x y. \<not> published x < published y) (srt xs))"

text \<open>Listing. \<open>udal schema list\<close> prints exactly the published schemas of the name asked for, or all of them, newest first, and says so when there are none.\<close>

theorem cli_list:
  assumes "schema_registry S tab I storable" and "I s" and "cw_client w = (\<lambda>f. service_client S meta now auth)"
    and "newest_first (cw_sort w)" and "flag_Parse (cf_register (cw_env w)) args = Some (f, names)" and "length names \<le> 1"
    and "dial (cw_ca w) (cw_newClient w) f" and "auth (authContext f) = Inr i" and "may (Some i) OpListSchemas [] []"
  shows "\<exists>xs. run w (''schema'' # ''list'' # args) s =
       (s, 0, if xs = [] then [OutNone] else map (\<lambda>x. OutRow (ps_Name x) (ps_Version x) (published x)) xs) \<and>
     sorted_wrt (\<lambda>x y. \<not> published x < published y) xs \<and>
     set xs = toProtoCapabilitySchema ` {x \<in> ran (tab s). names \<noteq> [] \<and> hd names \<noteq> [] \<longrightarrow> sc_Name x = hd names}"
proof -
  let ?name = "case names of [] \<Rightarrow> [] | name # _ \<Rightarrow> name"
  obtain ps where ps: "ListSchemas S (Some i) ?name s = Inr ps"
    "set ps = toProtoCapabilitySchema ` {x \<in> ran (tab s). ?name = [] \<or> sc_Name x = ?name}"
    using list_schemas_exact [OF assms(1,2,9)] by blast
  have srt: "mset (cw_sort w ps) = mset ps" "sorted_wrt (\<lambda>x y. \<not> published x < published y) (cw_sort w ps)"
    using assms(4) by (simp_all add: newest_first_def)
  have set_eq: "set (cw_sort w ps) = set ps" using srt(1) by (rule mset_eq_setD)
  have "run w (''schema'' # ''list'' # args) s = (s, cmdSchemaList (service_client S meta now auth) (cw_sort w) (authContext f) ?name s)"
    using assms(3,5-7) by (simp add: runSchemaListCmd_def with_flags_def)
  also have "cmdSchemaList (service_client S meta now auth) (cw_sort w) (authContext f) ?name s =
     (0, if cw_sort w ps = [] then [OutNone] else map (\<lambda>x. OutRow (ps_Name x) (ps_Version x) (published x)) (cw_sort w ps))"
    using assms(8) ps(1) by (simp add: cmdSchemaList_def service_client_def)
  finally show ?thesis
    using srt(2) set_eq ps(2) by (intro exI [of _ "cw_sort w ps"]) (cases names; auto)
qed

definition cli_demo :: "CapMemory cli_world" where
  "cli_demo = \<lparr>cw_env = (\<lambda>_. []), cw_ca = (\<lambda>_. CaPool), cw_newClient = (\<lambda>_. True),
     cw_file = (\<lambda>p. if p = ''lamp.json'' then Some (Bytes (Some (lamp_doc ''1.0.0''))) else None),
     cw_client = (\<lambda>f. service_client cm_ops (\<lambda>_. True) 7 (\<lambda>md. Inr demo_admin)), cw_sort = sort_key (\<lambda>x. - published x)\<rparr>"

lemma cli_demo_sort: "newest_first (cw_sort cli_demo)"
proof -
  have "sorted_wrt (\<lambda>x y. \<not> published x < published y) (sort_key (\<lambda>x. - published x) xs)" for xs
    using sorted_sort_key [of "\<lambda>x. - published x" xs] by (simp add: sorted_map not_less)
  then show ?thesis by (simp add: newest_first_def cli_demo_def)
qed

lemma cli_demo_flags:
  "flag_Parse (cf_register (cw_env cli_demo)) [''-insecure'', ''--api-key=k'', ''lamp.json''] =
     Some (\<lparr>cf_gateway = ''localhost:50051'', cf_apiKey = ''k'', cf_caCert = [], cf_insecure = True\<rparr>, [''lamp.json''])"
  "flag_Parse (cf_register (cw_env cli_demo)) [''-ca'', ''ca.pem'', ''lamp@1.0.0''] =
     Some (\<lparr>cf_gateway = ''localhost:50051'', cf_apiKey = [], cf_caCert = ''ca.pem'', cf_insecure = False\<rparr>, [''lamp@1.0.0''])"
  "flag_Parse (cf_register (cw_env cli_demo)) [] =
     Some (\<lparr>cf_gateway = ''localhost:50051'', cf_apiKey = [], cf_caCert = [], cf_insecure = False\<rparr>, [])"
  by code_simp+

lemma cli_demo_facts:
  "cw_client cli_demo = (\<lambda>f. service_client cm_ops (\<lambda>_. True) 7 (\<lambda>md. Inr demo_admin))" "dial (cw_ca cli_demo) (cw_newClient cli_demo) f"
  "gm_ok (cm_schemas NewCapMemory)" "may (Some demo_admin) op [] []"
  by (simp_all add: cli_demo_def dial_def NewCapMemory_def gm_ok_def may_def demo_admin_def rbac_admin)

theorem cli_publish_get_witness:
  "\<exists>s'. run cli_demo (''schema'' # ''publish'' # [''-insecure'', ''--api-key=k'', ''lamp.json'']) NewCapMemory = (s', 0, [OutPublished ''lamp'' ''1.0.0'']) \<and>
     run cli_demo (''schema'' # ''get'' # [''-ca'', ''ca.pem'', ''lamp@1.0.0'']) s' = (s', 0, [OutDoc (lamp_doc ''1.0.0'')])"
proof -
  let ?pub = "run cli_demo (''schema'' # ''publish'' # [''-insecure'', ''--api-key=k'', ''lamp.json'']) NewCapMemory"
  have "snd ?pub = (0, [OutPublished ''lamp'' ''1.0.0''])" by code_simp
  then have pub: "?pub = (fst ?pub, 0, [OutPublished ''lamp'' ''1.0.0''])" by (metis prod.collapse)
  have doc: "cw_file cli_demo ''lamp.json'' = Some (Bytes (Some (lamp_doc ''1.0.0'')))" by (simp add: cli_demo_def)
  from cli_publish_get [OF cm.schema_registry_axioms cli_demo_facts(3,1) pub cli_demo_flags(1)] doc
  have "run cli_demo (''schema'' # ''get'' # [''-ca'', ''ca.pem'', ''lamp@1.0.0'']) (fst ?pub) = (fst ?pub, 0, [OutDoc (lamp_doc ''1.0.0'')])"
    using cli_demo_flags(2) cli_demo_facts(2,4) by auto
  with pub show ?thesis by blast
qed

theorem cli_list_witness: "run cli_demo [''schema'', ''list''] NewCapMemory = (NewCapMemory, 0, [OutNone])"
  using cli_list [OF cm.schema_registry_axioms cli_demo_facts(3,1) cli_demo_sort cli_demo_flags(3) _ cli_demo_facts(2) _ cli_demo_facts(4)]
  by (auto simp: NewCapMemory_def)

end
