(* ===== verification/Spec2Isabelle.thy ===== *)
theory Spec2Isabelle
  imports Property_Store Broker Command_Router Registry Heartbeat Auth Capability_Registry Mqtt_Adapter Device_Service Capability_Service Dbc
    Http_Adapter Config Sdk Gateway_Start Gateway_Boot Telemetry Interceptors Rest_Routes Cli
begin

text \<open>
  The UDAL gateway (Universal Device Abstraction Layer, \<open>src/code\<close>). A gRPC server, with a REST proxy in
  front of it, gives applications one interface to devices behind MQTT, HTTP and CAN: a registry of devices, reads and writes of
  their properties, commands, subscriptions to updates, and capability schemas that say what a device's properties are. Beside the gateway
  stand a Go SDK and a command line client.

  \<^bold>\<open>How the parts work together.\<close> A request arrives over gRPC or over REST. REST requests are matched against the routes of the API and forwarded to the
  gRPC listener with their credentials. The interceptors trace, log, count and authenticate it, by client certificate, API key or token, in that order. A handler of the device service
  looks the device up, authorizes the caller against the role table and the device's ACL, validates the value against the device's
  schema and passes it to the adapter of the device's transport or to the property store.
  Adapters report updates from devices to the broker, which hands them to the subscriptions; commands travel through the command router to the
  device's stream and results travel back; a monitor decides who is online. \<open>main\<close> puts these
  together from a configuration.

  \<^bold>\<open>The theories\<close>, in the order of the dependencies, with the files they model under \<open>src/code/gateway/internal\<close> unless a path says otherwise.
  A definition has the name of the Go function, with a short prefix for the receiver of a method.
  \<^item> Prelude, Go_Text, Float64, Json: what the code uses of Go: maps as association lists, \<open>strings\<close>, \<open>strconv\<close>, \<open>time.ParseDuration\<close>, IEEE doubles, \<open>encoding/json\<close> on trees.
  \<^item> Api_Types: \<open>api/types.go\<close>, error chains and status codes.
  \<^item> Channels, Broker, Command_Router: \<open>api/broker.go\<close>, \<open>api/commandrouter.go\<close> over buffered channels, split at the points where other goroutines can
    run; their interleavings are step relations.
  \<^item> Property_Store: \<open>api/property.go\<close> and the echo transport of \<open>examples/adapters\<close>.
  \<^item> Registry: \<open>registry/registry.go\<close>, \<open>registry/bbolt.go\<close>. Heartbeat: \<open>heartbeat/monitor.go\<close>. Auth: \<open>auth/*.go\<close>.
  \<^item> Capability_Schema, Capability_Registry: \<open>capability/*.go\<close>.
  \<^item> Mqtt_Protocol, Mqtt_Adapter: \<open>adapters/mqtt\<close>. Http_Adapter: \<open>adapters/http\<close>. Can_Codec, Dbc, Can_Adapter: \<open>adapters/can\<close>.
  \<^item> Service_Mapping, Device_Service, Capability_Service: \<open>service/*.go\<close>, all RPCs.
  \<^item> Config: \<open>config\<close>, \<open>health\<close>, the adapter registry, log levels. Interceptors: \<open>tracing\<close>, \<open>logging\<close>, \<open>metrics\<close> and \<open>auth\<close> interceptors in their chain.
  \<^item> Rest_Routes: the routes of \<open>src/code/api/proto/gen/udal/v1/*.pb.gw.go\<close>.
  \<^item> Gateway_Start, Gateway, Gateway_Boot: \<open>src/code/gateway/cmd/gateway/main.go\<close>, the start-up decisions, the running composition of all components, and the
    start from an environment.
    Telemetry: the way of a device's reports through the running gateway to its subscribers.
  \<^item> Sdk: \<open>src/code/sdk/go\<close>. Cli: \<open>src/code/cli/cmd/udal\<close>.
  \<^item> This theory: authentication in front of the services and requests over REST.

  State is a record passed along, an error is a value (\<open>Inl\<close>, or a status \<open>code\<close>), a panic is None. Maps whose iteration order Go leaves open are lists
  in any order. Time is a number of nanoseconds handed in; 0 is Go's zero time.

  \<^bold>\<open>Interfaces.\<close> A component relies on another through a locale: \<open>registry_contract\<close> (what every device registry promises; interpreted by the
  in-memory registry, and by the bbolt registry on a reference bucket), \<open>schema_registry\<close>, \<open>value_store\<close>, \<open>bucket\<close>, \<open>bcrypt\<close> and \<open>key_store\<close>, and \<open>rest_runtime\<close> for the pattern matcher of grpc-gateway,
  interpreted by an interpreter of its op codes. The services are proved against the contracts, so their properties hold for
  each implementation.

  \<^bold>\<open>What is shown.\<close>
  \<^item> Security: no request has an effect unless authenticated and authorized; a certificate confines a device to itself; REST acts for its caller and adds no identity; the modes
    of mTLS; keys, tokens and the role table.
  \<^item> Safety of the whole: the gateway starts exactly when its settings and connections allow it, and then no sequence of requests, frames, messages, polls, webhooks and sweeps makes the gateway panic as long as no device is
    registered with a poll interval that is not positive, and every invariant of its components is kept.
  \<^item> Function: a written property is read back and published once, through the property store and through the CAN bus to a subscriber; what devices report over
    MQTT, webhook and CAN reaches exactly their subscribers; schemas are enforced; the poll loop reports exactly the changes; commands and
    results are paired in every interleaving; delivery is in order; sweeps are exact.
  \<^item> Refinement and equivalence: both registries agree; interleaved CAN writes serialize; signal layouts have their closed form; REST routes correspond to calls.
  \<^item> Round trips: CAN signals and frames, MQTT topics, publishing and fetching schemas through the command line client.
  \<^item> Flaws, each with a theorem where the model shows it, are stated next to the component: a panic in \<open>Dispatch\<close>, ambiguous property keys, a generated ID that blocks registration,
    a poll interval of zero that ends the process, and others.

  \<^bold>\<open>Bounds.\<close> Integers of Go are words of their width or integers with the wrap-around written out. Bit numbers of DBC signals from \<open>2 ^ 45\<close> on make Go's \<open>make\<close> panic or positions wrap, and
  the parser model gives no result there; exponents in \<open>ParseFloat\<close> are capped where the standard library caps them. Subscriber buffers hold 32 updates, the
  command channels hold \<open>commandBuffer\<close> commands, as in the code. No definition uses fuel: loops run over the list of what the outside sends, or
  have a measure.

  \<^bold>\<open>Parameters.\<close> Code outside the repository is an argument: the bbolt bucket, bcrypt, golang-jwt, the JSON Schema validator, MQTT and HTTP clients, system calls on CAN sockets, protobuf
  conversions, grpc-gateway's runtime, \<open>sort.Slice\<close>, files and listeners. Hypotheses on them are named and
  state what their documentation says; each has an instance. The client side of a TLS handshake is modelled as far as client certificates go.

  \<^bold>\<open>Not modelled.\<close> The generated protobuf messages and gRPC stubs (their fields are records here) and the in-process variants of the REST handlers, which the gateway does not
  register; the output of Prometheus, OpenTelemetry and slog and the tracing provider; YAML; the text layer of JSON; opening sockets, files and ports; the meta-schema document; durations of
  requests; texts of messages. \<open>TrimSpace\<close> and \<open>ToLower\<close> treat ASCII only. Inside a running gateway an event runs to completion before the next; finer interleavings are treated in the broker, the
  router and the CAN adapter.
\<close>

section \<open>Authentication in front of the services\<close>

text \<open>A unary request as the server runs it: the authentication interceptor, then the handler with the identity it found.\<close>

definition gateway_call ::
    "('s, 'x) DeviceService \<Rightarrow> (string \<Rightarrow> fault + Identity) option \<Rightarrow> (string \<Rightarrow> code + Identity) option \<Rightarrow> time \<Rightarrow> peer
       \<Rightarrow> (string \<Rightarrow> string list) \<Rightarrow> rpc \<Rightarrow> ('s, 'x) ds_world \<Rightarrow> (('s, 'x) ds_world \<times> code option) option" where
  "gateway_call sv apikeys jwt now p md req w =
     (case UnaryInterceptor (authenticate apikeys jwt p md) Inr of
        Inl c \<Rightarrow> Some (w, Some c)
      | Inr i \<Rightarrow> serve sv now (Some i) req w)"

text \<open>The requests a device may make with its certificate: register, and those on itself or on a device whose ACL allows it.\<close>

definition on_own :: "(string \<rightharpoonup> Device) \<Rightarrow> string \<Rightarrow> string \<Rightarrow> bool" where
  "on_own devs cn i \<longleftrightarrow> i = cn \<or> (\<exists>d e. devs i = Some d \<and> e \<in> set (dev_ACL d) \<and> acl_Subject e = cn \<and> acl_Allow e)"

fun own_request :: "(string \<rightharpoonup> Device) \<Rightarrow> string \<Rightarrow> rpc \<Rightarrow> bool" where
  "own_request devs cn (RpcRegisterDevice r) = True"
| "own_request devs cn (RpcGetDevice i) = on_own devs cn i"
| "own_request devs cn (RpcGetProperty i p) = on_own devs cn i"
| "own_request devs cn (RpcSetProperty i p v) = on_own devs cn i"
| "own_request devs cn (RpcSubscribe i) = on_own devs cn i"
| "own_request devs cn _ = False"

abbreviation device_identity :: "string \<Rightarrow> Identity" where
  "device_identity cn \<equiv> \<lparr>id_Subject = cn, id_Role = RoleDevice, id_DeviceID = cn\<rparr>"

lemma certificate_identity: "authenticate apikeys jwt (PeerTLS (cn # cns)) md = Inr (device_identity cn)"
  by (simp add: authenticate_def IdentityFromPeerCert_def)

lemma device_may:
  assumes "may (Some (device_identity cn)) op i acl"
  shows "op = OpRegisterDevice \<or> (i = cn \<and> op \<notin> {OpListDevices, OpDeleteDevice}) \<or> (\<exists>e \<in> set acl. acl_Subject e = cn \<and> acl_Allow e)"
proof (cases "find (\<lambda>e. acl_Subject e = cn) acl")
  case None
  with assms have "rbacAllows (device_identity cn) op i" by (simp add: may_def Authorize_acl split: if_splits)
  from rbac_device [OF this] show ?thesis by auto
next
  case (Some e)
  with assms have "acl_Allow e" by (simp add: may_def Authorize_acl split: if_splits)
  with Some show ?thesis by (auto simp: find_Some_iff)
qed

context registry_contract
begin

lemma device_permitted:
  assumes "sv_reg sv = R" and "inv (ds_reg w)" and "permitted sv w (Some (device_identity cn)) req"
  shows "own_request (devs (ds_reg w)) cn req"
proof -
  have on: "on_own (devs (ds_reg w)) cn i" if m: "may_on sv w (Some (device_identity cn)) op i" and ne: "op \<noteq> OpRegisterDevice" for op i
  proof -
    obtain d where "checked_device sv (Some (device_identity cn)) op w i = Inr d"
      using m unfolding may_on_def checked_device_Inr by blast
    then have "devs (ds_reg w) i = Some d" "may (Some (device_identity cn)) op i (dev_ACL d)"
      by (simp_all add: checked_ok [OF assms(1,2)])
    with device_may [of cn op i "dev_ACL d"] ne show ?thesis by (auto simp: on_own_def)
  qed
  show ?thesis
    using assms(3) on device_may [of cn OpListDevices "[]" "[]"] device_may [of cn OpDeleteDevice _ "[]"] by (cases req) auto
qed

end



section \<open>Requests over REST\<close>

text \<open>
  A REST request: the REST server dials the gRPC listener from \<open>remote\<close>, without a certificate, and forwards the
  request with the headers the matcher lets through. \<open>tls\<close> is the listener's configuration.
\<close>

definition rest_call ::
    "('s, 'x) DeviceService \<Rightarrow> (string \<Rightarrow> fault + Identity) option \<Rightarrow> (string \<Rightarrow> code + Identity) option \<Rightarrow> time \<Rightarrow> tls_config option
       \<Rightarrow> tcp_addr \<Rightarrow> (string \<Rightarrow> string option) \<Rightarrow> (string \<times> string) list \<Rightarrow> rpc \<Rightarrow> ('s, 'x) ds_world \<Rightarrow> (('s, 'x) ds_world \<times> code option) option" where
  "rest_call sv apikeys jwt now tls remote dflt headers req w =
     (case connect_peer tls remote CertNone of
        None \<Rightarrow> Some (w, Some CodeUnavailable)
      | Some p \<Rightarrow> gateway_call sv apikeys jwt now p (rest_metadata dflt headers) req w)"

text \<open>The value a list of headers forwards under a metadata key, when all headers forwarded under it agree.\<close>

definition forwards :: "(string \<Rightarrow> string option) \<Rightarrow> (string \<times> string) list \<Rightarrow> string \<Rightarrow> string \<Rightarrow> bool" where
  "forwards dflt headers k v \<longleftrightarrow> (\<exists>h. (h, v) \<in> set headers \<and> map_option ToLower (incomingHeader dflt h) = Some k) \<and>
     (\<forall>(h, v') \<in> set headers. map_option ToLower (incomingHeader dflt h) = Some k \<longrightarrow> v' = v)"

definition silent :: "(string \<Rightarrow> string option) \<Rightarrow> (string \<times> string) list \<Rightarrow> string \<Rightarrow> bool" where
  "silent dflt headers k \<longleftrightarrow> (\<forall>(h, v) \<in> set headers. map_option ToLower (incomingHeader dflt h) \<noteq> Some k)"

lemma rest_metadata_forwards:
  assumes "forwards dflt headers k v"
  obtains vs where "rest_metadata dflt headers k = v # vs"
proof -
  let ?fs = "filter (\<lambda>(h, v). map_option ToLower (incomingHeader dflt h) = Some k) headers"
  obtain h where "(h, v) \<in> set ?fs" using assms by (auto simp: forwards_def)
  then have "?fs \<noteq> []" by (metis empty_iff empty_set)
  then obtain f fs where fs: "?fs = f # fs" by (meson neq_Nil_conv)
  have "f \<in> set ?fs" using fs by simp
  then have "snd f = v" using assms by (auto simp: forwards_def)
  then show ?thesis using fs that by (simp add: rest_metadata_def)
qed

lemma rest_metadata_silent: "silent dflt headers k \<Longrightarrow> rest_metadata dflt headers k = []"
  by (auto simp: rest_metadata_def silent_def filter_empty_conv)

lemma rest_call_eq:
  assumes "server_tls s pair ca = Some c" and "isLoopback remote"
  shows "rest_call sv apikeys jwt now c remote dflt headers req w =
     (case authenticate apikeys jwt PeerPlain (rest_metadata dflt headers) of Inl e \<Rightarrow> Some (w, Some e) | Inr i \<Rightarrow> serve sv now (Some i) req w)"
proof -
  have "authenticate apikeys jwt (PeerTLS []) md = authenticate apikeys jwt PeerPlain md" for md
    by (simp add: authenticate_def)
  then show ?thesis
    by (simp add: rest_call_def rest_hop [OF assms] gateway_call_def UnaryInterceptor_def split: sum.split)
qed



end
